(* ===== verification/Go_Prelude.thy ===== *)
theory Go_Prelude
  imports
    Main
    "HOL-Library.Finite_Map"
    "HOL-Library.Sublist"
    "HOL-Library.List_Lexorder"
    "HOL-Library.Char_ord"
begin

text \<open>
  What the gateway uses of Go and of its standard library, shared by every component:
  \<^item> \<open>time.Time\<close> as the number of nanoseconds since Go's zero time, so that \<open>IsZero\<close>
    is a test for 0, and \<open>int64\<close> arithmetic with its wrap-around;
  \<^item> Go maps keyed by strings: \<open>None\<close> is the nil map (reading it is fine, writing to it
    panics), \<open>Some m\<close> a finite map;
  \<^item> the functions of package \<open>strings\<close> the sources call, on byte strings;
  \<^item> \<open>hex.EncodeToString\<close>.
  The lemmas declared \<open>[simp]\<close> here, and the collections \<open>gomap\<close> and \<open>gostr\<close>,
  carry the proofs of the component theories.
\<close>

named_theorems gomap \<open>lookup, update and deletion on Go maps\<close>
named_theorems gostr \<open>facts about the functions of package strings\<close>

section \<open>Integers and time\<close>

type_synonym time = int
type_synonym duration = int

text \<open>Two's complement wrap-around of a Go \<open>int64\<close> (and of \<open>int\<close>, 64 bits wide).\<close>

definition int64 :: "int \<Rightarrow> int" where
  "int64 x = (x + 2 ^ 63) mod 2 ^ 64 - 2 ^ 63"

definition max_int64 :: int where
  "max_int64 = 2 ^ 63 - 1"

lemma int64_id [simp]: "- (2 ^ 63) \<le> x \<Longrightarrow> x < 2 ^ 63 \<Longrightarrow> int64 x = x"
  by (simp add: int64_def)

lemma int64_range: "- (2 ^ 63) \<le> int64 x \<and> int64 x < 2 ^ 63"
proof -
  have "(x + 2 ^ 63) mod 2 ^ 64 < (2 ^ 64 :: int)" and "0 \<le> (x + 2 ^ 63) mod (2 ^ 64 :: int)"
    by simp_all
  then show ?thesis by (simp add: int64_def)
qed

lemma int64_max_Suc: "int64 (max_int64 + 1) = - (2 ^ 63)"
  by (simp add: int64_def max_int64_def)

definition IsZero :: "time \<Rightarrow> bool" where
  "IsZero t \<longleftrightarrow> t = 0"

text \<open>Nanoseconds from Go's zero time to the Unix epoch, and \<open>Time.UnixMilli\<close>
  (which rounds towards minus infinity).\<close>

definition unix_epoch :: time where
  "unix_epoch = 62135596800 * 10 ^ 9"

definition UnixMilli :: "time \<Rightarrow> int" where
  "UnixMilli t = (t - unix_epoch) div 10 ^ 6"

lemma UnixMilli_mono: "t \<le> t' \<Longrightarrow> UnixMilli t \<le> UnixMilli t'"
  by (simp add: UnixMilli_def zdiv_mono1)

definition Second :: duration where "Second = 10 ^ 9"
definition Millisecond :: duration where "Millisecond = 10 ^ 6"
definition Hour :: duration where "Hour = 3600 * 10 ^ 9"

section \<open>Maps\<close>

type_synonym 'v gomap = "(string, 'v) fmap option"

definition mget :: "'v gomap \<Rightarrow> string \<Rightarrow> 'v option" where
  "mget m k = (case m of None \<Rightarrow> None | Some f \<Rightarrow> fmlookup f k)"

text \<open>The map after \<open>m[k] = v\<close>, for an \<open>m\<close> that is not nil.\<close>

definition mput :: "string \<Rightarrow> 'v \<Rightarrow> 'v gomap \<Rightarrow> 'v gomap" where
  "mput k v m = map_option (fmupd k v) m"

text \<open>The statement \<open>m[k] = v\<close>: on a nil map it panics and the function ends there with the
  outcome \<open>panic\<close>; otherwise the function goes on with the map after the write.\<close>

definition mwrite :: "'r \<Rightarrow> string \<Rightarrow> 'v \<Rightarrow> 'v gomap \<Rightarrow> ('v gomap \<Rightarrow> 'r) \<Rightarrow> 'r" where
  "mwrite panic k v m cont = (case m of None \<Rightarrow> panic | Some _ \<Rightarrow> cont (mput k v m))"

definition mdel :: "string \<Rightarrow> 'v gomap \<Rightarrow> 'v gomap" where
  "mdel k m = map_option (fmdrop k) m"

text \<open>A loop that deletes the entries for which the test fails.\<close>

definition mkeep :: "(string \<Rightarrow> 'v \<Rightarrow> bool) \<Rightarrow> 'v gomap \<Rightarrow> 'v gomap" where
  "mkeep p m = map_option (\<lambda>f. fmfilter (\<lambda>k. case fmlookup f k of None \<Rightarrow> False | Some v \<Rightarrow> p k v) f) m"

text \<open>\<open>if m == nil { m = map[string]V{} }\<close>, and \<open>map[string]V{}\<close>.\<close>

definition mmake :: "'v gomap \<Rightarrow> 'v gomap" where
  "mmake m = (case m of None \<Rightarrow> Some fmempty | Some f \<Rightarrow> Some f)"

abbreviation mempty :: "'v gomap" where
  "mempty \<equiv> Some fmempty"

definition mlen :: "'v gomap \<Rightarrow> nat" where
  "mlen m = (case m of None \<Rightarrow> 0 | Some f \<Rightarrow> size (fmdom f))"

definition mdom :: "'v gomap \<Rightarrow> string set" where
  "mdom m = {k. mget m k \<noteq> None}"

lemma mget_None [simp]: "mget None k = None"
  by (simp add: mget_def)

lemma mget_Some [simp]: "mget (Some f) k = fmlookup f k"
  by (simp add: mget_def)

lemma mget_nonnil: "mget m k = Some v \<Longrightarrow> m \<noteq> None"
  by (cases m) simp_all

lemma mwrite_nonnil [simp]: "m \<noteq> None \<Longrightarrow> mwrite panic k v m cont = cont (mput k v m)"
  by (auto simp: mwrite_def)

lemma mwrite_Some [simp]: "mwrite panic k v (Some f) cont = cont (Some (fmupd k v f))"
  by (simp add: mwrite_def mput_def)

lemma mwrite_if: "mwrite panic k v m cont = (if m = None then panic else cont (mput k v m))"
  by (simp add: mwrite_def split: option.split)

lemma mwrite_found: "mget m k' = Some v' \<Longrightarrow> mwrite panic k v m cont = cont (mput k v m)"
  by (cases m) (simp_all add: mwrite_def)

lemma mput_Some [simp]: "mput k v (Some f) = Some (fmupd k v f)"
  by (simp add: mput_def)

lemma mdel_Some [simp]: "mdel k (Some f) = Some (fmdrop k f)"
  by (simp add: mdel_def)

lemma mput_nil [simp]: "mput k v m = None \<longleftrightarrow> m = None"
  by (simp add: mput_def)

lemma mdel_nil [simp]: "mdel k m = None \<longleftrightarrow> m = None"
  by (simp add: mdel_def)

lemma mkeep_nil [simp]: "mkeep p m = None \<longleftrightarrow> m = None"
  by (simp add: mkeep_def)

lemma mmake_nonnil [simp]: "mmake m \<noteq> None"
  by (cases m) (simp_all add: mmake_def)

lemma mwrite_mmake [simp]: "mwrite panic k v (mmake m) cont = cont (mput k v (mmake m))"
  by simp

lemma mmake_id [simp]: "m \<noteq> None \<Longrightarrow> mmake m = m"
  by (cases m) (simp_all add: mmake_def)

text \<open>The same facts in the form the simplifier gives \<open>m \<noteq> None\<close>.\<close>

lemma nonnil_ex [simp]:
  "(\<exists>y. mput k v m = Some y) \<longleftrightarrow> (\<exists>y. m = Some y)"
  "(\<exists>y. mdel k m = Some y) \<longleftrightarrow> (\<exists>y. m = Some y)"
  "(\<exists>y. mkeep p m = Some y) \<longleftrightarrow> (\<exists>y. m = Some y)"
  "\<exists>y. mmake m = Some y"
  by (cases m; simp add: mkeep_def mmake_def)+

lemma mget_mmake [simp]: "mget (mmake m) k = mget m k"
  by (cases m) (simp_all add: mmake_def)

lemma mget_mput [gomap]:
  "m \<noteq> None \<Longrightarrow> mget (mput k v m) k' = (if k' = k then Some v else mget m k')"
  by (cases m) (simp_all add: mput_def)

lemma mget_mput_mmake [gomap]:
  "mget (mput k v (mmake m)) k' = (if k' = k then Some v else mget m k')"
  by (simp add: mget_mput)

lemma mget_mdel [gomap]: "mget (mdel k m) k' = (if k' = k then None else mget m k')"
  by (cases m) (simp_all add: mdel_def)

lemma mget_mkeep [gomap]:
  "mget (mkeep p m) k = (case mget m k of None \<Rightarrow> None | Some v \<Rightarrow> if p k v then Some v else None)"
  by (cases m) (auto simp: mkeep_def split: option.splits)

lemma mdom_mget: "k \<in> mdom m \<longleftrightarrow> (\<exists>v. mget m k = Some v)"
  by (simp add: mdom_def)

lemma finite_mdom [simp]: "finite (mdom m)"
proof (cases m)
  case None
  then show ?thesis by (simp add: mdom_def)
next
  case (Some f)
  then have "mdom m = fset (fmdom f)"
    by (auto simp: mdom_def fmlookup_dom_iff)
  then show ?thesis by simp
qed

lemma mlen_card: "mlen m = card (mdom m)"
proof (cases m)
  case (Some f)
  then have "mdom m = fset (fmdom f)"
    by (auto simp: mdom_def fmlookup_dom_iff)
  with Some show ?thesis by (simp add: mlen_def fcard.rep_eq)
qed (simp add: mlen_def mdom_def)

lemma mlen_mkeep: "mlen m - mlen (mkeep p m) = card {k. \<exists>v. mget m k = Some v \<and> \<not> p k v}"
proof -
  have "mdom (mkeep p m) \<subseteq> mdom m"
    by (auto simp: mdom_def mget_mkeep split: option.splits)
  moreover have "mdom m - mdom (mkeep p m) = {k. \<exists>v. mget m k = Some v \<and> \<not> p k v}"
    by (auto simp: mdom_def mget_mkeep split: option.splits if_splits)
  ultimately show ?thesis
    by (simp add: mlen_card card_Diff_subset [symmetric])
qed

subsection \<open>Ranging over a map\<close>

text \<open>
  \<open>for k, v := range m\<close> visits every entry once in an order the runtime chooses. The
  order is an argument \<open>ks\<close> of every operation that ranges: the list of keys visited.
\<close>

definition is_order :: "string list \<Rightarrow> 'v gomap \<Rightarrow> bool" where
  "is_order ks m \<longleftrightarrow> distinct ks \<and> set ks = mdom m"

definition mrange :: "string list \<Rightarrow> 'v gomap \<Rightarrow> (string \<times> 'v) list" where
  "mrange ks m = List.map_filter (\<lambda>k. map_option (Pair k) (mget m k)) ks"

lemma set_mrange: "is_order ks m \<Longrightarrow> set (mrange ks m) = {(k, v). mget m k = Some v}"
  by (force simp: is_order_def mrange_def List.map_filter_def mdom_def)

lemma mrange_Cons [simp]:
  "mrange (k # ks) m = (case mget m k of None \<Rightarrow> mrange ks m | Some v \<Rightarrow> (k, v) # mrange ks m)"
  by (simp add: mrange_def split: option.split)

lemma mrange_Nil [simp]: "mrange [] m = []"
  by (simp add: mrange_def)

lemma map_fst_mrange: "set ks \<subseteq> mdom m \<Longrightarrow> map fst (mrange ks m) = ks"
  by (induction ks) (auto simp: mdom_def)

lemma length_mrange: "is_order ks m \<Longrightarrow> length (mrange ks m) = card (mdom m)"
  using map_fst_mrange [of ks m] distinct_card [of ks]
  by (metis is_order_def length_map order_refl)

lemma ex_order: "\<exists>ks. is_order ks m"
  unfolding is_order_def using finite_distinct_list [OF finite_mdom, of m] by metis

section \<open>Strings\<close>

definition HasPrefix :: "string \<Rightarrow> string \<Rightarrow> bool" where
  "HasPrefix s p \<longleftrightarrow> prefix p s"

definition HasSuffix :: "string \<Rightarrow> string \<Rightarrow> bool" where
  "HasSuffix s p \<longleftrightarrow> suffix p s"

definition TrimPrefix :: "string \<Rightarrow> string \<Rightarrow> string" where
  "TrimPrefix s p = (if prefix p s then drop (length p) s else s)"

definition TrimSuffix :: "string \<Rightarrow> string \<Rightarrow> string" where
  "TrimSuffix s p = (if suffix p s then take (length s - length p) s else s)"

text \<open>\<open>strings.Trim s cutset\<close> for a cutset of ASCII characters.\<close>

definition Trim :: "string \<Rightarrow> string \<Rightarrow> string" where
  "Trim s cs = rev (dropWhile (\<lambda>c. c \<in> set cs) (rev (dropWhile (\<lambda>c. c \<in> set cs) s)))"

text \<open>\<open>strings.Cut\<close>, \<open>strings.Split\<close> and \<open>strings.Join\<close> with a one-character separator.\<close>

definition Cut :: "string \<Rightarrow> char \<Rightarrow> string \<times> string \<times> bool" where
  "Cut s c = (if c \<in> set s then (takeWhile (\<lambda>x. x \<noteq> c) s, tl (dropWhile (\<lambda>x. x \<noteq> c) s), True)
              else (s, [], False))"

fun Split :: "string \<Rightarrow> char \<Rightarrow> string list" where
  "Split [] c = [[]]"
| "Split (x # xs) c =
     (if x = c then [] # Split xs c
      else (case Split xs c of [] \<Rightarrow> [[x]] | p # ps \<Rightarrow> (x # p) # ps))"

fun Join :: "string list \<Rightarrow> char \<Rightarrow> string" where
  "Join [] c = []"
| "Join [p] c = p"
| "Join (p # q # ps) c = p @ c # Join (q # ps) c"

text \<open>
  \<open>strings.TrimSpace\<close> removes leading and trailing white space as Unicode defines it. On
  byte strings these are the UTF-8 encodings of the space code points, one to three bytes
  each.
\<close>

definition space_runes :: "string list" where
  "space_runes =
     [[CHR 0x20], [CHR 0x09], [CHR 0x0A], [CHR 0x0B], [CHR 0x0C], [CHR 0x0D],
      [CHR 0xC2, CHR 0x85], [CHR 0xC2, CHR 0xA0], [CHR 0xE1, CHR 0x9A, CHR 0x80],
      [CHR 0xE2, CHR 0x80, CHR 0x80], [CHR 0xE2, CHR 0x80, CHR 0x81],
      [CHR 0xE2, CHR 0x80, CHR 0x82], [CHR 0xE2, CHR 0x80, CHR 0x83],
      [CHR 0xE2, CHR 0x80, CHR 0x84], [CHR 0xE2, CHR 0x80, CHR 0x85],
      [CHR 0xE2, CHR 0x80, CHR 0x86], [CHR 0xE2, CHR 0x80, CHR 0x87],
      [CHR 0xE2, CHR 0x80, CHR 0x88], [CHR 0xE2, CHR 0x80, CHR 0x89],
      [CHR 0xE2, CHR 0x80, CHR 0x8A], [CHR 0xE2, CHR 0x80, CHR 0xA8],
      [CHR 0xE2, CHR 0x80, CHR 0xA9], [CHR 0xE2, CHR 0x80, CHR 0xAF],
      [CHR 0xE2, CHR 0x81, CHR 0x9F], [CHR 0xE3, CHR 0x80, CHR 0x80]]"

fun trim_runes :: "nat \<Rightarrow> string list \<Rightarrow> string \<Rightarrow> string" where
  "trim_runes 0 rs s = s"
| "trim_runes (Suc n) rs s =
     (case List.find (\<lambda>r. prefix r s) rs of None \<Rightarrow> s | Some r \<Rightarrow> trim_runes n rs (drop (length r) s))"

definition TrimLeftSpace :: "string \<Rightarrow> string" where
  "TrimLeftSpace s = trim_runes (length s) space_runes s"

definition TrimRightSpace :: "string \<Rightarrow> string" where
  "TrimRightSpace s = rev (trim_runes (length s) (map rev space_runes) (rev s))"

definition TrimSpace :: "string \<Rightarrow> string" where
  "TrimSpace s = TrimRightSpace (TrimLeftSpace s)"

text \<open>\<open>strings.ToLower\<close> on ASCII; bytes outside ASCII are left as they are.\<close>

definition lower_char :: "char \<Rightarrow> char" where
  "lower_char c = (let n = of_char c :: nat in if 65 \<le> n \<and> n \<le> 90 then char_of (n + 32) else c)"

definition ToLower :: "string \<Rightarrow> string" where
  "ToLower s = map lower_char s"

subsection \<open>Facts about them\<close>

lemma TrimSpace_Nil [simp]: "TrimSpace [] = []"
  by (simp add: TrimSpace_def TrimLeftSpace_def TrimRightSpace_def)

lemma HasPrefix_append [simp]: "HasPrefix (p @ s) p"
  by (simp add: HasPrefix_def)

lemma TrimPrefix_append [simp]: "TrimPrefix (p @ s) p = s"
  by (simp add: TrimPrefix_def)

lemma HasPrefixE: "HasPrefix s p \<Longrightarrow> (\<And>t. s = p @ t \<Longrightarrow> P) \<Longrightarrow> P"
  by (auto simp: HasPrefix_def prefix_def)

lemma HasSuffixE: "HasSuffix s p \<Longrightarrow> (\<And>t. s = t @ p \<Longrightarrow> P) \<Longrightarrow> P"
  by (auto simp: HasSuffix_def suffix_def)

lemma TrimSuffix_append [simp]: "TrimSuffix (t @ p) p = t"
  by (simp add: TrimSuffix_def suffix_def)

lemma set_dropWhile_subset: "set (dropWhile p s) \<subseteq> set s"
  by (auto dest: set_dropWhileD)

lemma set_Trim_subset: "set (Trim s cs) \<subseteq> set s"
  using set_dropWhile_subset [of _ "rev (dropWhile (\<lambda>c. c \<in> set cs) s)"]
    set_dropWhile_subset [of _ s]
  by (fastforce simp: Trim_def)

lemma Trim_id: "s = [] \<or> hd s \<notin> set cs \<and> last s \<notin> set cs \<Longrightarrow> Trim s cs = s"
proof (cases s)
  case Nil
  then show ?thesis by (simp add: Trim_def)
next
  case (Cons x xs)
  assume "s = [] \<or> hd s \<notin> set cs \<and> last s \<notin> set cs"
  with Cons have "hd s \<notin> set cs" "last s \<notin> set cs" by auto
  moreover from Cons have "dropWhile (\<lambda>c. c \<in> set cs) s = s"
    using \<open>hd s \<notin> set cs\<close> by simp
  moreover have "dropWhile (\<lambda>c. c \<in> set cs) (rev s) = rev s"
    using \<open>last s \<notin> set cs\<close> by (simp add: dropWhile_eq_self_iff hd_rev)
  ultimately show ?thesis by (simp add: Trim_def)
qed

lemma Split_nonempty [simp]: "Split s c \<noteq> []"
  by (induction s c rule: Split.induct) (auto split: list.splits)

lemma Split_no_sep: "c \<notin> set s \<Longrightarrow> Split s c = [s]"
  by (induction s c rule: Split.induct) auto

lemma Split_sep_append: "c \<notin> set p \<Longrightarrow> Split (p @ c # s) c = p # Split s c"
  by (induction p) auto

lemma Split_parts: "p \<in> set (Split s c) \<Longrightarrow> c \<notin> set p"
  by (induction s c arbitrary: p rule: Split.induct) (auto split: if_splits list.splits)

lemma Join_Split: "Join (Split s c) c = s"
proof (induction s c rule: Split.induct)
  case (1 c)
  then show ?case by simp
next
  case (2 x xs c)
  obtain p ps where ps: "Split xs c = p # ps"
    by (metis Split_nonempty neq_Nil_conv)
  show ?case
    using 2 ps by (cases ps) auto
qed

lemma Cut_append: "c \<notin> set p \<Longrightarrow> Cut (p @ c # s) c = (p, s, True)"
  by (auto simp: Cut_def takeWhile_append dropWhile_append)

lemma Cut_no_sep: "c \<notin> set s \<Longrightarrow> Cut s c = (s, [], False)"
  by (simp add: Cut_def)

lemma Cut_name_no_sep: "Cut s c = (n, r, b) \<Longrightarrow> c \<notin> set n"
  by (auto simp: Cut_def split: if_splits dest: set_takeWhileD)

section \<open>Hexadecimal\<close>

definition hex_digit :: "nat \<Rightarrow> char" where
  "hex_digit n = ''0123456789abcdef'' ! n"

definition EncodeToString :: "string \<Rightarrow> string" where
  "EncodeToString bs = concat (map (\<lambda>b. [hex_digit (of_char b div 16), hex_digit (of_char b mod 16)]) bs)"

lemma length_EncodeToString [simp]: "length (EncodeToString bs) = 2 * length bs"
  by (induction bs) (simp_all add: EncodeToString_def)

lemma EncodeToString_Cons:
  "EncodeToString (b # bs) = hex_digit (of_char b div 16) # hex_digit (of_char b mod 16) # EncodeToString bs"
  by (simp add: EncodeToString_def)

lemma EncodeToString_Nil [simp]: "EncodeToString bs = [] \<longleftrightarrow> bs = []"
  by (metis length_0_conv length_EncodeToString mult_eq_0_iff zero_neq_numeral)

lemma distinct_hex_digits: "distinct ''0123456789abcdef''"
  by simp

lemma hex_digit_eq: "m < 16 \<Longrightarrow> n < 16 \<Longrightarrow> hex_digit m = hex_digit n \<longleftrightarrow> m = n"
  unfolding hex_digit_def by (rule nth_eq_iff_index_eq [OF distinct_hex_digits]) simp_all

lemma EncodeToString_inj: "EncodeToString a = EncodeToString b \<Longrightarrow> a = b"
proof (induction a arbitrary: b)
  case Nil
  then show ?case by (cases b) (simp_all add: EncodeToString_Cons EncodeToString_def)
next
  case (Cons x xs)
  then obtain y ys where b: "b = y # ys"
    by (cases b) (simp_all add: EncodeToString_Cons EncodeToString_def)
  have d: "(of_char x :: nat) div 16 < 16" "(of_char y :: nat) div 16 < 16"
    by (rule less_mult_imp_div_less, simp)+
  from Cons.prems b d have "(of_char x :: nat) div 16 = of_char y div 16"
    and "(of_char x :: nat) mod 16 = of_char y mod 16"
    by (simp_all add: EncodeToString_Cons hex_digit_eq)
  then have "(of_char x :: nat) = of_char y"
    by (metis div_mod_decomp)
  then have "x = y" by simp
  from Cons.prems b have "EncodeToString xs = EncodeToString ys"
    by (simp add: EncodeToString_Cons)
  then have "xs = ys" by (rule Cons.IH)
  with b \<open>x = y\<close> show ?case by simp
qed

end
