(* ===== verification/Http.thy ===== *)
theory Http
  imports Go_Prelude
begin

text \<open>
  What the handlers of \<open>internal/httpapi\<close> use of \<open>net/http\<close> and \<open>net\<close>. A request is a
  record of the parts the handlers read; its query and its headers are association lists in
  the order of the request, with canonical header names. A handler's answer is an
  \<open>http.Error\<close> or a reply with a status and what is encoded in the body. Where a handler decodes
  a body with \<open>encoding/json\<close>, the outcome of the decoder (its error text or the decoded value)
  is an argument of the handler's definition.
\<close>

section \<open>Requests and answers\<close>

record Request =
  rq_Method :: string
  rq_Path :: string
  rq_Query :: "(string \<times> string) list"
  rq_Header :: "(string \<times> string) list"
  rq_Host :: string
  rq_RemoteAddr :: string
  rq_TLS :: bool

definition assoc_get :: "(string \<times> string) list \<Rightarrow> string \<Rightarrow> string" where
  "assoc_get kvs k = (case map_of kvs k of None \<Rightarrow> [] | Some v \<Rightarrow> v)"

abbreviation QueryGet :: "Request \<Rightarrow> string \<Rightarrow> string" where
  "QueryGet r \<equiv> assoc_get (rq_Query r)"

abbreviation HeaderGet :: "Request \<Rightarrow> string \<Rightarrow> string" where
  "HeaderGet r \<equiv> assoc_get (rq_Header r)"

datatype 'a answer = Error nat string | Reply nat 'a

fun status_of :: "'a answer \<Rightarrow> nat" where
  "status_of (Error c m) = c"
| "status_of (Reply c v) = c"

abbreviation "MethodGet \<equiv> ''GET''"
abbreviation "MethodPut \<equiv> ''PUT''"
abbreviation "MethodPost \<equiv> ''POST''"
abbreviation "MethodDelete \<equiv> ''DELETE''"

abbreviation "StatusOK \<equiv> (200 :: nat)"
abbreviation "StatusCreated \<equiv> (201 :: nat)"
abbreviation "StatusAccepted \<equiv> (202 :: nat)"
abbreviation "StatusNoContent \<equiv> (204 :: nat)"
abbreviation "StatusFound \<equiv> (302 :: nat)"
abbreviation "StatusBadRequest \<equiv> (400 :: nat)"
abbreviation "StatusUnauthorized \<equiv> (401 :: nat)"
abbreviation "StatusForbidden \<equiv> (403 :: nat)"
abbreviation "StatusNotFound \<equiv> (404 :: nat)"
abbreviation "StatusMethodNotAllowed \<equiv> (405 :: nat)"
abbreviation "StatusGone \<equiv> (410 :: nat)"
abbreviation "StatusPreconditionFailed \<equiv> (412 :: nat)"
abbreviation "StatusUpgradeRequired \<equiv> (426 :: nat)"
abbreviation "StatusInternalServerError \<equiv> (500 :: nat)"
abbreviation "StatusBadGateway \<equiv> (502 :: nat)"
abbreviation "StatusServiceUnavailable \<equiv> (503 :: nat)"
abbreviation "StatusGatewayTimeout \<equiv> (504 :: nat)"

section \<open>\<open>net.SplitHostPort\<close>\<close>

text \<open>The position of the last and of the first occurrence of a character.\<close>

definition LastIndexByte :: "string \<Rightarrow> char \<Rightarrow> nat option" where
  "LastIndexByte s c =
     (if c \<in> set s then Some (length s - 1 - length (takeWhile (\<lambda>x. x \<noteq> c) (rev s))) else None)"

definition IndexByte :: "string \<Rightarrow> char \<Rightarrow> nat option" where
  "IndexByte s c = (if c \<in> set s then Some (length (takeWhile (\<lambda>x. x \<noteq> c) s)) else None)"

definition split_checked :: "string \<Rightarrow> nat \<Rightarrow> nat \<Rightarrow> nat \<Rightarrow> string \<Rightarrow> (string \<times> string) option" where
  "split_checked hp i j k host =
     (if CHR ''['' \<in> set (drop j hp) \<or> CHR '']'' \<in> set (drop k hp) then None
      else Some (host, drop (Suc i) hp))"

definition SplitHostPort :: "string \<Rightarrow> (string \<times> string) option" where
  "SplitHostPort hp =
     (case LastIndexByte hp CHR '':'' of
        None \<Rightarrow> None
      | Some i \<Rightarrow>
          if hd hp = CHR ''['' then
            (case IndexByte hp CHR '']'' of
               None \<Rightarrow> None
             | Some e \<Rightarrow> if Suc e = i then split_checked hp i 1 (Suc e) (take (e - 1) (tl hp)) else None)
          else
            let host = take i hp in
            if CHR '':'' \<in> set host then None else split_checked hp i 0 0 host)"

definition host_only :: "string \<Rightarrow> string" where
  "host_only h = (case SplitHostPort h of None \<Rightarrow> h | Some (host, p) \<Rightarrow> host)"

section \<open>\<open>net.ParseIP\<close> and \<open>IsLoopback\<close>\<close>

definition digit_val :: "char \<Rightarrow> nat option" where
  "digit_val c = (let n = of_char c :: nat in if 48 \<le> n \<and> n \<le> 57 then Some (n - 48) else None)"

definition hex_val :: "char \<Rightarrow> nat option" where
  "hex_val c =
     (let n = of_char c :: nat in
      if 48 \<le> n \<and> n \<le> 57 then Some (n - 48)
      else if 97 \<le> n \<and> n \<le> 102 then Some (n - 87)
      else if 65 \<le> n \<and> n \<le> 70 then Some (n - 55)
      else None)"

fun number :: "nat \<Rightarrow> (char \<Rightarrow> nat option) \<Rightarrow> nat \<Rightarrow> string \<Rightarrow> nat option" where
  "number base val acc [] = Some acc"
| "number base val acc (c # cs) = (case val c of None \<Rightarrow> None | Some d \<Rightarrow> number base val (acc * base + d) cs)"

text \<open>A field of a dotted address: one to three digits, at most 255, no leading zero.\<close>

definition octet :: "string \<Rightarrow> nat option" where
  "octet s =
     (if s = [] \<or> length s > 3 \<or> (length s > 1 \<and> hd s = CHR ''0'') then None
      else case number 10 digit_val 0 s of None \<Rightarrow> None | Some n \<Rightarrow> if n > 255 then None else Some n)"

fun all_some :: "'a option list \<Rightarrow> 'a list option" where
  "all_some [] = Some []"
| "all_some (None # xs) = None"
| "all_some (Some x # xs) = map_option (Cons x) (all_some xs)"

definition parseIPv4 :: "string \<Rightarrow> nat list option" where
  "parseIPv4 s = (let fs = Split s CHR ''.'' in if length fs \<noteq> 4 then None else all_some (map octet fs))"

text \<open>A group of an IPv6 address: one to four hexadecimal digits, as two bytes.\<close>

definition group :: "string \<Rightarrow> nat list option" where
  "group s =
     (if s = [] \<or> length s > 4 then None
      else case number 16 hex_val 0 s of None \<Rightarrow> None | Some n \<Rightarrow> Some [n div 256, n mod 256])"

text \<open>The groups on one side of the ellipsis; the last one may be a dotted address.\<close>

definition groups :: "bool \<Rightarrow> string \<Rightarrow> nat list option" where
  "groups dotted s =
     (if s = [] then Some []
      else let fs = Split s CHR '':'' in
        if dotted \<and> CHR ''.'' \<in> set (last fs)
        then (case (all_some (map group (butlast fs)), parseIPv4 (last fs)) of
                (Some bs, Some v4) \<Rightarrow> Some (concat bs @ v4) | _ \<Rightarrow> None)
        else map_option concat (all_some (map group fs)))"

fun cut_ellipsis :: "string \<Rightarrow> (string \<times> string) option" where
  "cut_ellipsis (c # d # s) =
     (if c = CHR '':'' \<and> d = CHR '':'' then Some ([], s)
      else map_option (\<lambda>(a, b). (c # a, b)) (cut_ellipsis (d # s)))"
| "cut_ellipsis _ = None"

definition parseIPv6 :: "string \<Rightarrow> nat list option" where
  "parseIPv6 s =
     (case cut_ellipsis s of
        None \<Rightarrow> (case groups True s of Some bs \<Rightarrow> if length bs = 16 then Some bs else None | None \<Rightarrow> None)
      | Some (a, b) \<Rightarrow>
          (case (groups False a, groups True b) of
             (Some xs, Some ys) \<Rightarrow>
               if length xs + length ys < 16 then Some (xs @ replicate (16 - length xs - length ys) 0 @ ys) else None
           | _ \<Rightarrow> None))"

text \<open>\<open>ParseIP\<close> gives 16 bytes: the first separator decides the family, and zones are refused.\<close>

definition v4_in_v6 :: "nat list" where
  "v4_in_v6 = replicate 10 0 @ [255, 255]"

definition ParseIP :: "string \<Rightarrow> nat list option" where
  "ParseIP s =
     (case dropWhile (\<lambda>c. c \<noteq> CHR ''.'' \<and> c \<noteq> CHR '':'') s of
        [] \<Rightarrow> None
      | c # _ \<Rightarrow> if c = CHR ''.'' then map_option (\<lambda>bs. v4_in_v6 @ bs) (parseIPv4 s) else parseIPv6 s)"

definition IsLoopback :: "nat list \<Rightarrow> bool" where
  "IsLoopback ip \<longleftrightarrow>
     (if take 12 ip = v4_in_v6 then ip ! 12 = 127 else ip = replicate 15 0 @ [1])"

definition EqualFold :: "string \<Rightarrow> string \<Rightarrow> bool" where
  "EqualFold a b \<longleftrightarrow> ToLower a = ToLower b"

section \<open>\<open>path.Clean\<close>, \<open>filepath.Join\<close> and \<open>http.ServeMux\<close>\<close>

text \<open>The elements of a path without empty ones and dots, \<open>..\<close> taking its parent along.\<close>

fun clean_parts :: "bool \<Rightarrow> string list \<Rightarrow> string list \<Rightarrow> string list" where
  "clean_parts rooted acc [] = rev acc"
| "clean_parts rooted acc (p # ps) =
     (if p = [] \<or> p = ''.'' then clean_parts rooted acc ps
      else if p = ''..'' then
        (if acc \<noteq> [] \<and> hd acc \<noteq> ''..'' then clean_parts rooted (tl acc) ps
         else if rooted then clean_parts rooted acc ps
         else clean_parts rooted (p # acc) ps)
      else clean_parts rooted (p # acc) ps)"

definition path_Clean :: "string \<Rightarrow> string" where
  "path_Clean p =
     (if p = [] then ''.''
      else
        let rooted = (hd p = CHR ''/''); s = Join (clean_parts rooted [] (Split p CHR ''/'')) CHR ''/'' in
        if rooted then CHR ''/'' # s else if s = [] then ''.'' else s)"

definition path_Join :: "string list \<Rightarrow> string" where
  "path_Join es = (let es = filter (\<lambda>x. x \<noteq> []) es in if es = [] then [] else path_Clean (Join es CHR ''/''))"

text \<open>
  \<open>ServeMux\<close> with patterns that are plain paths: a pattern that ends in a slash matches every path
  below it, any other only itself, and the longest pattern that matches wins. A request whose path
  is not clean, or that lacks the final slash of a pattern, is redirected. Paths are those without
  percent-encoded characters.
\<close>

definition cleanPath :: "string \<Rightarrow> string" where
  "cleanPath p =
     (if p = [] then ''/''
      else
        let p = (if hd p = CHR ''/'' then p else CHR ''/'' # p); np = path_Clean p in
        if last p = CHR ''/'' \<and> np \<noteq> ''/'' then np @ ''/'' else np)"

definition pat_matches :: "string \<Rightarrow> string \<Rightarrow> bool" where
  "pat_matches pat path \<longleftrightarrow> pat = path \<or> HasSuffix pat ''/'' \<and> HasPrefix path pat"

fun mux_find :: "(string \<times> 'r) list \<Rightarrow> string \<Rightarrow> (string \<times> 'r) option" where
  "mux_find [] path = None"
| "mux_find ((pat, h) # ps) path =
     (case mux_find ps path of
        None \<Rightarrow> if pat_matches pat path then Some (pat, h) else None
      | Some (pat', h') \<Rightarrow>
          if pat_matches pat path \<and> length pat' \<le> length pat then Some (pat, h) else Some (pat', h'))"

datatype 'r mux_result = MuxNotFound | MuxRedirect string | MuxFound 'r

definition mux_handler :: "(string \<times> 'r) list \<Rightarrow> string \<Rightarrow> string \<Rightarrow> 'r mux_result" where
  "mux_handler ps meth urlpath =
     (let path = (if meth = ''CONNECT'' then urlpath else cleanPath urlpath); found = mux_find ps path in
      if path \<notin> fst ` set ps \<and> \<not> HasSuffix path ''/'' \<and> path \<noteq> [] \<and> path @ ''/'' \<in> fst ` set ps
      then MuxRedirect (cleanPath urlpath @ ''/'')
      else if path \<noteq> urlpath then MuxRedirect path
      else case found of None \<Rightarrow> MuxNotFound | Some (_, h) \<Rightarrow> MuxFound h)"

section \<open>Lemmas\<close>

lemma mux_find_sound: "mux_find ps path = Some (pat, h) \<Longrightarrow> (pat, h) \<in> set ps \<and> pat_matches pat path"
  by (induction ps path arbitrary: pat h rule: mux_find.induct) (auto split: option.splits if_splits)

lemma not_redirected:
  "(if a then MuxRedirect x else if b then MuxRedirect y else m) = MuxFound h \<Longrightarrow> \<not> b \<and> m = MuxFound h"
  by (cases a; cases b) simp_all

lemma mux_handler_sound:
  assumes "mux_handler ps meth path = MuxFound h"
  shows "\<exists>pat. (pat, h) \<in> set ps \<and> pat_matches pat path"
proof -
  define q where "q = (if meth = ''CONNECT'' then path else cleanPath path)"
  have "\<not> q \<noteq> path \<and> (case mux_find ps q of None \<Rightarrow> MuxNotFound | Some (_, h) \<Rightarrow> MuxFound h) = MuxFound h"
    using assms unfolding mux_handler_def Let_def q_def [symmetric] by (rule not_redirected)
  then have q: "q = path" and found: "(case mux_find ps q of None \<Rightarrow> MuxNotFound | Some (_, h) \<Rightarrow> MuxFound h) = MuxFound h"
    by blast+
  from found obtain pat where "mux_find ps q = Some (pat, h)"
    by (cases "mux_find ps q") auto
  from mux_find_sound [OF this] show ?thesis unfolding q by (rule exI)
qed

lemma LastIndexByte_append: "c \<notin> set p \<Longrightarrow> LastIndexByte (h @ c # p) c = Some (length h)"
proof -
  assume "c \<notin> set p"
  then have "takeWhile (\<lambda>x. x \<noteq> c) (rev p @ c # rev h) = rev p"
    by (subst takeWhile_append2) auto
  then show ?thesis by (simp add: LastIndexByte_def)
qed

lemma SplitHostPort_name:
  assumes "\<forall>c\<in>set h. c \<notin> {CHR '':'', CHR ''['', CHR '']''}" "\<forall>c\<in>set p. c \<notin> {CHR '':'', CHR ''['', CHR '']''}"
  shows "SplitHostPort (h @ CHR '':'' # p) = Some (h, p)"
proof -
  have "LastIndexByte (h @ CHR '':'' # p) CHR '':'' = Some (length h)"
    using assms by (intro LastIndexByte_append) auto
  moreover have "hd (h @ CHR '':'' # p) \<noteq> CHR ''[''"
    using assms by (cases h) auto
  ultimately show ?thesis
    using assms by (auto simp: SplitHostPort_def split_checked_def Let_def)
qed

lemma SplitHostPort_none: "CHR '':'' \<notin> set h \<Longrightarrow> SplitHostPort h = None"
  by (simp add: SplitHostPort_def LastIndexByte_def)

lemma host_only_name:
  assumes "\<forall>c\<in>set h. c \<notin> {CHR '':'', CHR ''['', CHR '']''}"
  shows "host_only h = h"
    and "\<forall>c\<in>set p. c \<notin> {CHR '':'', CHR ''['', CHR '']''} \<Longrightarrow> host_only (h @ CHR '':'' # p) = h"
proof -
  have "CHR '':'' \<notin> set h" using assms by auto
  then show "host_only h = h" by (simp add: host_only_def SplitHostPort_none)
  assume "\<forall>c\<in>set p. c \<notin> {CHR '':'', CHR ''['', CHR '']''}"
  from SplitHostPort_name [OF assms this] show "host_only (h @ CHR '':'' # p) = h"
    by (simp add: host_only_def)
qed

lemma assoc_get_Nil [simp]: "assoc_get [] k = []"
  by (simp add: assoc_get_def)

lemma assoc_get_Cons [simp]: "assoc_get ((a, v) # kvs) k = (if a = k then v else assoc_get kvs k)"
  by (simp add: assoc_get_def)

end
