(* ===== verification/Store_Types.thy ===== *)
theory Store_Types
  imports Go_Prelude
begin

text \<open>
  The durable registry state of \<open>internal/storage/store\<close>: one record per Go struct, with
  the struct's fields in the source's order (the prefix of a field names its struct), and
  the JSON document \<open>state.json\<close> holds. Slices are lists; nil and empty slices are not
  told apart, since no operation of the store does. Maps keep the difference between nil and
  empty, which \<open>omitempty\<close> and several guards depend on.
\<close>

section \<open>Records of the registry\<close>

record PolicyRevision =
  rev_Rev :: int
  rev_UpdatedAt :: time
  rev_Bytes :: int
  rev_Status :: string
  rev_YAML :: string

definition MaxPolicyRevisions :: nat where
  "MaxPolicyRevisions = 32"

definition PolicyStatusLoaded :: string where
  "PolicyStatusLoaded = ''loaded''"

record Sandbox =
  sb_Name :: string
  sb_ID :: string
  sb_Image :: string
  sb_Network :: string
  sb_Status :: string
  sb_Labels :: "string gomap"
  sb_BasePolicyYAML :: string
  sb_AttachedProviders :: "string list"
  sb_PolicyRev :: int
  sb_PolicyRevisions :: "PolicyRevision list"
  sb_UpdatedAt :: time

record InferenceRoute =
  inf_Provider :: string
  inf_Model :: string
  inf_TimeoutSec :: int
  inf_Version :: int

text \<open>\<open>CPU\<close> is a \<open>float64\<close> the gateway only stores: its 64 bits, as a number.\<close>

record TemplateRecord =
  tpl_Name :: string
  tpl_Image :: string
  tpl_From :: string
  tpl_Policy :: string
  tpl_CPU :: nat
  tpl_Memory :: string
  tpl_Env :: "string gomap"
  tpl_Providers :: "string list"
  tpl_Forwards :: "int list"
  tpl_Labels :: "string gomap"
  tpl_YAML :: string

record ProfileRecord =
  prof_ID :: string
  prof_YAML :: string

record ProviderRefreshConfig =
  ref_CredentialKey :: string
  ref_Strategy :: string
  ref_Material :: "string gomap"
  ref_ExpiresAtMS :: int

record ProviderRecord =
  prov_Name :: string
  prov_Type :: string
  prov_EnvVars :: "string list"
  prov_CredentialExpiresAtMS :: "int gomap"
  prov_RuntimeCredentials :: bool
  prov_Config :: "string gomap"
  prov_Refresh :: "ProviderRefreshConfig gomap"

record ServiceRecord =
  svc_Name :: string
  svc_Sandbox :: string
  svc_Port :: int
  svc_BackendHost :: string
  svc_BackendPort :: int
  svc_UpdatedAt :: time

record WorkspaceMember =
  mem_Subject :: string
  mem_Role :: string

record WorkspaceRecord =
  ws_Name :: string
  ws_Members :: "WorkspaceMember list"
  ws_CreatedAt :: time
  ws_UpdatedAt :: time

record Proposal =
  pr_ID :: string
  pr_Sandbox :: string
  pr_Status :: string
  pr_IntentSummary :: string
  pr_RuleName :: string
  pr_RuleYAML :: string
  pr_Hosts :: "string list"
  pr_RejectionReason :: string
  pr_ValidationResult :: string
  pr_CreatedAt :: time
  pr_DecidedAt :: time

record SandboxToken =
  tok_Hash :: string
  tok_IssuedAtMS :: int

record SSHSession =
  ssh_ID :: string
  ssh_Sandbox :: string
  ssh_TokenHash :: string
  ssh_Subject :: string
  ssh_CreatedAtMS :: int
  ssh_ExpiresAtMS :: int
  ssh_Revoked :: bool

record State =
  st_GatewayID :: string
  st_UpdatedAt :: time
  st_Sandboxes :: "Sandbox gomap"
  st_Labels :: "string gomap"
  st_GlobalPolicyYAML :: string
  st_Profiles :: "ProfileRecord gomap"
  st_Providers :: "ProviderRecord gomap"
  st_Inference :: "InferenceRoute option"
  st_Settings :: "string gomap"
  st_AuthToken :: string
  st_Templates :: "TemplateRecord gomap"
  st_Services :: "ServiceRecord gomap"
  st_Workspaces :: "WorkspaceRecord gomap"
  st_Proposals :: "Proposal gomap"
  st_SandboxTokens :: "SandboxToken gomap"
  st_SSHSessions :: "SSHSession gomap"

section \<open>Errors\<close>

text \<open>One constructor per error the store returns, and \<open>NilMapPanic\<close> for the run-time
  panic of a write to a nil map.\<close>

datatype err =
    SandboxNotFound string
  | RevisionNotFound string int
  | WorkspaceNotFound string
  | ProposalNotFound
  | ProposalIDRequired
  | ProposalSandboxRequired
  | BadProposalStatus
  | ErrSessionNotFound
  | ErrSessionRevoked
  | ErrSessionExpired
  | ErrSessionSandbox
  | RandError
  | MkdirError
  | ReadError
  | ParseError
  | MarshalError
  | WriteError
  | ChmodError
  | RenameError
  | NilMapPanic

section \<open>The JSON document\<close>

text \<open>
  \<open>json.MarshalIndent\<close> of a \<open>State\<close> gives an object whose members are absent
  (\<open>omitempty\<close> on an empty value), null (a nil map without \<open>omitempty\<close>) or a value.
  Inside the records, \<open>omitempty\<close> makes an empty map come back as nil: the functions
  \<open>wire...\<close> are the composition of encoding and decoding one record. Strings are taken
  to be valid UTF-8 and times to lie within the years JSON times can express.
\<close>

datatype 'a member = Absent | Null | Val 'a

record StateDoc =
  d_gateway_id :: "string member"
  d_updated_at :: "time member"
  d_sandboxes :: "(string, Sandbox) fmap member"
  d_labels :: "(string, string) fmap member"
  d_global_policy_yaml :: "string member"
  d_profiles :: "(string, ProfileRecord) fmap member"
  d_providers :: "(string, ProviderRecord) fmap member"
  d_inference :: "InferenceRoute member"
  d_settings :: "(string, string) fmap member"
  d_auth_token :: "string member"
  d_templates :: "(string, TemplateRecord) fmap member"
  d_services :: "(string, ServiceRecord) fmap member"
  d_workspaces :: "(string, WorkspaceRecord) fmap member"
  d_proposals :: "(string, Proposal) fmap member"
  d_sandbox_tokens :: "(string, SandboxToken) fmap member"
  d_ssh_sessions :: "(string, SSHSession) fmap member"

definition omit_map :: "'v gomap \<Rightarrow> 'v gomap" where
  "omit_map m = (case m of None \<Rightarrow> None | Some f \<Rightarrow> if f = fmempty then None else Some f)"

definition wireSandbox :: "Sandbox \<Rightarrow> Sandbox" where
  "wireSandbox sb = sb\<lparr>sb_Labels := omit_map (sb_Labels sb)\<rparr>"

definition wireTemplate :: "TemplateRecord \<Rightarrow> TemplateRecord" where
  "wireTemplate t = t\<lparr>tpl_Env := omit_map (tpl_Env t), tpl_Labels := omit_map (tpl_Labels t)\<rparr>"

definition wireRefresh :: "ProviderRefreshConfig \<Rightarrow> ProviderRefreshConfig" where
  "wireRefresh c = c\<lparr>ref_Material := omit_map (ref_Material c)\<rparr>"

definition wireProvider :: "ProviderRecord \<Rightarrow> ProviderRecord" where
  "wireProvider p = p\<lparr>
     prov_CredentialExpiresAtMS := omit_map (prov_CredentialExpiresAtMS p),
     prov_Config := omit_map (prov_Config p),
     prov_Refresh := omit_map (map_option (fmmap wireRefresh) (prov_Refresh p))\<rparr>"

definition map_member :: "('v \<Rightarrow> 'v) \<Rightarrow> 'v gomap \<Rightarrow> (string, 'v) fmap member" where
  "map_member w m = (case m of None \<Rightarrow> Null | Some f \<Rightarrow> Val (fmmap w f))"

definition map_member_omitempty :: "('v \<Rightarrow> 'v) \<Rightarrow> 'v gomap \<Rightarrow> (string, 'v) fmap member" where
  "map_member_omitempty w m =
     (case m of None \<Rightarrow> Absent | Some f \<Rightarrow> if f = fmempty then Absent else Val (fmmap w f))"

definition string_member_omitempty :: "string \<Rightarrow> string member" where
  "string_member_omitempty s = (if s = [] then Absent else Val s)"

definition MarshalState :: "State \<Rightarrow> StateDoc" where
  "MarshalState s = \<lparr>
     d_gateway_id = Val (st_GatewayID s),
     d_updated_at = Val (st_UpdatedAt s),
     d_sandboxes = map_member wireSandbox (st_Sandboxes s),
     d_labels = map_member_omitempty id (st_Labels s),
     d_global_policy_yaml = string_member_omitempty (st_GlobalPolicyYAML s),
     d_profiles = map_member_omitempty id (st_Profiles s),
     d_providers = map_member_omitempty wireProvider (st_Providers s),
     d_inference = (case st_Inference s of None \<Rightarrow> Absent | Some r \<Rightarrow> Val r),
     d_settings = map_member_omitempty id (st_Settings s),
     d_auth_token = string_member_omitempty (st_AuthToken s),
     d_templates = map_member_omitempty wireTemplate (st_Templates s),
     d_services = map_member_omitempty id (st_Services s),
     d_workspaces = map_member_omitempty id (st_Workspaces s),
     d_proposals = map_member_omitempty id (st_Proposals s),
     d_sandbox_tokens = map_member_omitempty id (st_SandboxTokens s),
     d_ssh_sessions = map_member_omitempty id (st_SSHSessions s)\<rparr>"

text \<open>
  \<open>json.Unmarshal\<close> into a prefilled struct: an absent member keeps the field, null makes a
  map or pointer nil and leaves other fields alone, and a value replaces the field, except
  that the entries of an object are added to a map that is already there.
\<close>

definition read_map :: "(string, 'v) fmap member \<Rightarrow> 'v gomap \<Rightarrow> 'v gomap" where
  "read_map d old = (case d of Absent \<Rightarrow> old | Null \<Rightarrow> None
     | Val f \<Rightarrow> (case old of None \<Rightarrow> Some f | Some g \<Rightarrow> Some (g ++\<^sub>f f)))"

definition read_value :: "'a member \<Rightarrow> 'a \<Rightarrow> 'a" where
  "read_value d old = (case d of Val v \<Rightarrow> v | _ \<Rightarrow> old)"

definition read_pointer :: "'a member \<Rightarrow> 'a option \<Rightarrow> 'a option" where
  "read_pointer d old = (case d of Absent \<Rightarrow> old | Null \<Rightarrow> None | Val v \<Rightarrow> Some v)"

definition UnmarshalState :: "StateDoc \<Rightarrow> State \<Rightarrow> State" where
  "UnmarshalState d s = \<lparr>
     st_GatewayID = read_value (d_gateway_id d) (st_GatewayID s),
     st_UpdatedAt = read_value (d_updated_at d) (st_UpdatedAt s),
     st_Sandboxes = read_map (d_sandboxes d) (st_Sandboxes s),
     st_Labels = read_map (d_labels d) (st_Labels s),
     st_GlobalPolicyYAML = read_value (d_global_policy_yaml d) (st_GlobalPolicyYAML s),
     st_Profiles = read_map (d_profiles d) (st_Profiles s),
     st_Providers = read_map (d_providers d) (st_Providers s),
     st_Inference = read_pointer (d_inference d) (st_Inference s),
     st_Settings = read_map (d_settings d) (st_Settings s),
     st_AuthToken = read_value (d_auth_token d) (st_AuthToken s),
     st_Templates = read_map (d_templates d) (st_Templates s),
     st_Services = read_map (d_services d) (st_Services s),
     st_Workspaces = read_map (d_workspaces d) (st_Workspaces s),
     st_Proposals = read_map (d_proposals d) (st_Proposals s),
     st_SandboxTokens = read_map (d_sandbox_tokens d) (st_SandboxTokens s),
     st_SSHSessions = read_map (d_ssh_sessions d) (st_SSHSessions s)\<rparr>"

lemma fmmap_id [simp]: "fmmap id m = m"
  by (rule fmap_ext) (simp add: option.map_id)

lemma read_map_member:
  "m \<noteq> None \<Longrightarrow> read_map (map_member w m) mempty = map_option (fmmap w) m"
  by (cases m) (simp_all add: map_member_def read_map_def)

lemma fmmap_empty: "fmmap w fmempty = fmempty"
  by (rule fmap_ext) simp

lemma read_map_member_omitempty:
  "m \<noteq> None \<Longrightarrow> read_map (map_member_omitempty w m) mempty = map_option (fmmap w) m"
  by (cases m) (simp_all add: map_member_omitempty_def read_map_def fmmap_empty)

lemma read_string_omitempty: "read_value (string_member_omitempty s) [] = s"
  by (simp add: string_member_omitempty_def read_value_def)

lemma read_Val: "read_value (Val v) old = v"
  by (simp add: read_value_def)

lemma read_labels: "read_map (map_member_omitempty id m) mempty = mmake m"
  by (cases m) (simp_all add: map_member_omitempty_def read_map_def mmake_def)

lemma read_inference: "read_pointer (case r of None \<Rightarrow> Absent | Some x \<Rightarrow> Val x) None = r"
  by (cases r) (simp_all add: read_pointer_def)

lemma mget_fmmap: "mget (map_option (fmmap w) m) k = map_option w (mget m k)"
  by (cases m) simp_all

lemma mget_omit_map [simp]: "mget (omit_map m) k = mget m k"
  by (cases m) (simp_all add: omit_map_def)

lemmas codec_simps =
  read_map_member read_map_member_omitempty read_string_omitempty option.map_id
  read_Val read_labels read_inference

end
