(* ===== verification/Interfaces.thy ===== *)
theory Interfaces
  imports Go_Prelude
begin

text \<open>
  The contracts several components share, as locales, with what a client may conclude from
  them proved once:
  \<^item> \<open>keyed_registry\<close>: a table of records with put, delete and get, where a put may merge
    the new record with the one it replaces;
  \<^item> \<open>capped_log\<close>: a list that grows at the end and drops its oldest entries beyond a
    capacity;
  \<^item> \<open>transition_system\<close>: steps from an initial state and an invariant they keep.
  The component theories interpret them on their own operations.
\<close>

section \<open>Registries\<close>

datatype 'v reg_op = RPut string 'v | RDel string

text \<open>A sequence of registry operations on a store, and on the map it stands for.\<close>

fun reg_exec :: "('e \<Rightarrow> string \<Rightarrow> 'v \<Rightarrow> 's \<Rightarrow> 's) \<Rightarrow> ('e \<Rightarrow> string \<Rightarrow> 's \<Rightarrow> 's) \<Rightarrow> 'e \<times> 'v reg_op \<Rightarrow> 's \<Rightarrow> 's" where
  "reg_exec put del (e, RPut k v) s = put e k v s"
| "reg_exec put del (e, RDel k) s = del e k s"

fun reg_spec :: "('e \<Rightarrow> string \<Rightarrow> 'v option \<Rightarrow> 'v \<Rightarrow> 'v) \<Rightarrow> 'e \<times> 'v reg_op \<Rightarrow> (string \<rightharpoonup> 'v) \<Rightarrow> (string \<rightharpoonup> 'v)" where
  "reg_spec merge (e, RPut k v) m = m(k \<mapsto> merge e k (m k) v)"
| "reg_spec merge (e, RDel k) m = m(k := None)"

locale keyed_registry =
  fixes get :: "'s \<Rightarrow> string \<Rightarrow> 'v option"
    and put :: "'e \<Rightarrow> string \<Rightarrow> 'v \<Rightarrow> 's \<Rightarrow> 's"
    and del :: "'e \<Rightarrow> string \<Rightarrow> 's \<Rightarrow> 's"
    and merge :: "'e \<Rightarrow> string \<Rightarrow> 'v option \<Rightarrow> 'v \<Rightarrow> 'v"
    and ok :: "'s \<Rightarrow> bool"
  assumes get_put: "ok s \<Longrightarrow> get (put e k v s) = (get s)(k \<mapsto> merge e k (get s k) v)"
    and get_del: "ok s \<Longrightarrow> get (del e k s) = (get s)(k := None)"
    and ok_put: "ok s \<Longrightarrow> ok (put e k v s)"
    and ok_del: "ok s \<Longrightarrow> ok (del e k s)"
begin

lemma exec_spec:
  assumes "ok s"
  shows "get (reg_exec put del x s) = reg_spec merge x (get s) \<and> ok (reg_exec put del x s)"
proof -
  obtain e r where x: "x = (e, r)" by (cases x)
  show ?thesis
    using assms by (cases r) (simp_all add: x get_put get_del ok_put ok_del)
qed

text \<open>Any sequence of operations acts on the store as it does on the map.\<close>

lemma run_spec:
  "ok s \<Longrightarrow> get (fold (reg_exec put del) xs s) = fold (reg_spec merge) xs (get s) \<and>
     ok (fold (reg_exec put del) xs s)"
proof (induction xs arbitrary: s)
  case Nil
  then show ?case by simp
next
  case (Cons x xs)
  from exec_spec [OF Cons.prems, of x] Cons.IH [of "reg_exec put del x s"]
  show ?case by simp
qed

lemma put_frame: "ok s \<Longrightarrow> k' \<noteq> k \<Longrightarrow> get (put e k v s) k' = get s k'"
  by (simp add: get_put)

lemma get_put_same: "ok s \<Longrightarrow> get (put e k v s) k = Some (merge e k (get s k) v)"
  by (simp add: get_put)

lemma deleted_then_fresh: "ok s \<Longrightarrow> get (put e k v (del e' k s)) k = Some (merge e k None v)"
  by (simp add: get_put get_del ok_del)

end

section \<open>Capped logs\<close>

definition keep_last :: "nat \<Rightarrow> 'a list \<Rightarrow> 'a list" where
  "keep_last n xs = drop (length xs - n) xs"

lemma length_keep_last: "length (keep_last n xs) = min n (length xs)"
  by (auto simp: keep_last_def)

lemma keep_last_short: "length xs \<le> n \<Longrightarrow> keep_last n xs = xs"
  by (simp add: keep_last_def)

lemma keep_last_append: "keep_last n (keep_last n xs @ ys) = keep_last n (xs @ ys)"
proof (cases "length xs \<le> n")
  case True
  then show ?thesis by (simp add: keep_last_def)
next
  case False
  then have "length xs + length ys - (length xs - n + n) + (length xs - n) = length xs + length ys - n"
    by linarith
  then show ?thesis by (simp add: keep_last_def drop_append)
qed

lemma keep_last_snoc: "0 < n \<Longrightarrow> keep_last n (xs @ [x]) = keep_last (n - 1) xs @ [x]"
  by (auto simp: keep_last_def drop_append Suc_diff_le)

lemma set_keep_last: "set (keep_last n xs) \<subseteq> set xs"
  by (simp add: keep_last_def set_drop_subset)

lemma map_keep_last: "map f (keep_last n xs) = keep_last n (map f xs)"
  by (simp add: keep_last_def drop_map)

lemma keep_last_if: "(if n < length xs then drop (length xs - n) xs else xs) = keep_last n xs"
  by (simp add: keep_last_def)

locale capped_log =
  fixes items :: "'s \<Rightarrow> 'a list"
    and cap :: nat
    and added :: "'e \<Rightarrow> 's \<Rightarrow> 'a list"
    and add :: "'e \<Rightarrow> 's \<Rightarrow> 's"
    and ok :: "'s \<Rightarrow> bool"
  assumes items_add: "ok s \<Longrightarrow> items (add e s) = keep_last cap (items s @ added e s)"
    and ok_add: "ok s \<Longrightarrow> ok (add e s)"
begin

lemma add_bounded: "ok s \<Longrightarrow> length (items (add e s)) \<le> cap"
  by (simp add: items_add length_keep_last)

lemma add_newest: "ok s \<Longrightarrow> added e s = [x] \<Longrightarrow> 0 < cap \<Longrightarrow> last (items (add e s)) = x"
  by (simp add: items_add keep_last_snoc)

lemma run_ok: "ok s \<Longrightarrow> ok (fold add es s)"
  by (induction es arbitrary: s) (simp_all add: ok_add)

text \<open>After any number of additions the log is the last part of everything that was there
  and everything that was added, in order.\<close>

lemma run_items:
  assumes "ok s"
  shows "\<exists>ys. (es \<noteq> [] \<longrightarrow> items (fold add es s) = keep_last cap (items s @ ys)) \<and>
    length ys = (\<Sum>i<length es. length (added (es ! i) (fold add (take i es) s)))"
  using assms
proof (induction es rule: rev_induct)
  case Nil
  then show ?case by (intro exI [of _ "[]"]) simp
next
  case (snoc e es)
  from snoc.IH [OF snoc.prems] obtain ys where
    ys: "es \<noteq> [] \<longrightarrow> items (fold add es s) = keep_last cap (items s @ ys)"
    and len: "length ys = (\<Sum>i<length es. length (added (es ! i) (fold add (take i es) s)))"
    by blast
  let ?new = "added e (fold add es s)"
  have "items (fold add (es @ [e]) s) = keep_last cap (items (fold add es s) @ ?new)"
    by (simp add: items_add run_ok [OF snoc.prems])
  also have "\<dots> = keep_last cap (items s @ ys @ ?new)"
    using ys len by (cases "es = []") (simp_all add: keep_last_append)
  finally have 1: "items (fold add (es @ [e]) s) = keep_last cap (items s @ (ys @ ?new))" by simp
  have "(\<Sum>i<length es. length (added ((es @ [e]) ! i) (fold add (take i (es @ [e])) s))) =
        (\<Sum>i<length es. length (added (es ! i) (fold add (take i es) s)))"
    by (rule sum.cong) (simp_all add: nth_append)
  with len have 2: "length (ys @ ?new) =
      (\<Sum>i<length (es @ [e]). length (added ((es @ [e]) ! i) (fold add (take i (es @ [e])) s)))"
    by simp
  from 1 2 show ?case by blast
qed

lemma run_bounded: "ok s \<Longrightarrow> es \<noteq> [] \<Longrightarrow> length (items (fold add es s)) \<le> cap"
  using run_items [of s es] by (auto simp: length_keep_last)

end

section \<open>Transition systems\<close>

inductive reach :: "('s \<Rightarrow> bool) \<Rightarrow> ('s \<Rightarrow> 's \<Rightarrow> bool) \<Rightarrow> 's \<Rightarrow> bool" for start step where
  reach_start: "start s \<Longrightarrow> reach start step s"
| reach_step: "reach start step s \<Longrightarrow> step s t \<Longrightarrow> reach start step t"

locale transition_system =
  fixes start :: "'s \<Rightarrow> bool"
    and step :: "'s \<Rightarrow> 's \<Rightarrow> bool"
    and inv :: "'s \<Rightarrow> bool"
  assumes inv_start: "start s \<Longrightarrow> inv s"
    and inv_step: "inv s \<Longrightarrow> step s t \<Longrightarrow> inv t"
begin

lemma reach_inv: "reach start step s \<Longrightarrow> inv s"
  by (induction rule: reach.induct) (auto intro: inv_start inv_step)

end

end
