(* ===== verification/Store.thy ===== *)
theory Store
  imports Store_Types Interfaces
begin

text \<open>
  \<open>internal/storage/store/store.go\<close>: the store, its persistence (\<open>Open\<close>,
  \<open>flushLocked\<close>) and the registry operations on sandboxes, policies, profiles,
  providers, the inference route, settings and templates.

  A \<open>Store\<close> carries the state in memory and the part of the file system under its data
  directory. Every method holds the mutex for its whole body, so a method is one step on the
  store. What a method reads of its environment is an argument: \<open>time.Now()\<close> a \<open>time\<close>,
  random bytes a \<open>string option\<close> (\<open>None\<close> when \<open>rand.Read\<close> fails), the order in which
  it ranges over a map a list of keys, and how the file operations of \<open>flushLocked\<close> turn
  out a \<open>flush_env\<close>.
\<close>

section \<open>Files\<close>

datatype fname = State_json | State_json_tmp | Auth_token | Auth_token_tmp

datatype content = JsonDoc StateDoc | TextFile string | Garbage

record os_file =
  f_content :: content
  f_mode :: nat

record fs =
  fs_dir :: "nat option"
  fs_files :: "fname \<Rightarrow> os_file option"

text \<open>The modes 0600 and 0700, read in octal.\<close>

abbreviation owner_rw :: nat where "owner_rw \<equiv> 6 * 8 ^ 2"
abbreviation owner_rwx :: nat where "owner_rwx \<equiv> 7 * 8 ^ 2"

datatype write_outcome = WriteOk | WriteOpenFails | WritePartial

text \<open>\<open>os.WriteFile\<close> keeps the mode of a file that exists and truncates it; a failed
  write may leave part of the data behind.\<close>

definition WriteFile :: "write_outcome \<Rightarrow> fname \<Rightarrow> content \<Rightarrow> nat \<Rightarrow> fs \<Rightarrow> fs" where
  "WriteFile w n c perm d =
     (let mode = (case fs_files d n of None \<Rightarrow> perm | Some f \<Rightarrow> f_mode f) in
      case w of
        WriteOk \<Rightarrow> d\<lparr>fs_files := (fs_files d)(n \<mapsto> \<lparr>f_content = c, f_mode = mode\<rparr>)\<rparr>
      | WriteOpenFails \<Rightarrow> d
      | WritePartial \<Rightarrow> d\<lparr>fs_files := (fs_files d)(n \<mapsto> \<lparr>f_content = Garbage, f_mode = mode\<rparr>)\<rparr>)"

definition Chmod :: "fname \<Rightarrow> nat \<Rightarrow> fs \<Rightarrow> fs" where
  "Chmod n mode d = d\<lparr>fs_files := (fs_files d)(n := map_option (f_mode_update (\<lambda>_. mode)) (fs_files d n))\<rparr>"

definition Rename :: "fname \<Rightarrow> fname \<Rightarrow> fs \<Rightarrow> fs" where
  "Rename from to d = d\<lparr>fs_files := (fs_files d)(to := fs_files d from, from := None)\<rparr>"

section \<open>The store and its persistence\<close>

record Store =
  DataDir :: string
  state :: State
  disk :: fs

record flush_env =
  fl_now :: time
  fl_marshal_err :: bool
  fl_write :: write_outcome
  fl_chmod_err :: bool
  fl_rename_err :: bool

definition flushLocked :: "flush_env \<Rightarrow> Store \<Rightarrow> Store \<times> err option" where
  "flushLocked e s =
     (let s = s\<lparr>state := (state s)\<lparr>st_UpdatedAt := fl_now e\<rparr>\<rparr> in
      if fl_marshal_err e then (s, Some MarshalError)
      else
        let s = s\<lparr>disk := WriteFile (fl_write e) State_json_tmp (JsonDoc (MarshalState (state s))) owner_rw (disk s)\<rparr> in
        if fl_write e \<noteq> WriteOk then (s, Some WriteError)
        else if fl_chmod_err e then (s, Some ChmodError)
        else
          let s = s\<lparr>disk := Chmod State_json_tmp owner_rw (disk s)\<rparr> in
          if fl_rename_err e then (s, Some RenameError)
          else (s\<lparr>disk := Rename State_json_tmp State_json (disk s)\<rparr>, None))"

definition initial_state :: "string \<Rightarrow> State" where
  "initial_state gatewayID = \<lparr>
     st_GatewayID = gatewayID, st_UpdatedAt = 0, st_Sandboxes = mempty, st_Labels = mempty,
     st_GlobalPolicyYAML = [], st_Profiles = mempty, st_Providers = mempty,
     st_Inference = None, st_Settings = mempty, st_AuthToken = [], st_Templates = mempty,
     st_Services = mempty, st_Workspaces = mempty, st_Proposals = mempty,
     st_SandboxTokens = mempty, st_SSHSessions = mempty\<rparr>"

text \<open>The nil guards \<open>Open\<close> runs after \<open>json.Unmarshal\<close>. \<open>Labels\<close> has none.\<close>

definition fill_nil_maps :: "string \<Rightarrow> State \<Rightarrow> State" where
  "fill_nil_maps gatewayID st = st\<lparr>
     st_Sandboxes := mmake (st_Sandboxes st), st_Profiles := mmake (st_Profiles st),
     st_Providers := mmake (st_Providers st), st_Settings := mmake (st_Settings st),
     st_Templates := mmake (st_Templates st), st_Services := mmake (st_Services st),
     st_Workspaces := mmake (st_Workspaces st), st_Proposals := mmake (st_Proposals st),
     st_SandboxTokens := mmake (st_SandboxTokens st), st_SSHSessions := mmake (st_SSHSessions st),
     st_GatewayID := (if st_GatewayID st = [] then gatewayID else st_GatewayID st)\<rparr>"

record open_env =
  op_mkdir_err :: bool
  op_chmod_err :: bool
  op_read_err :: bool
  op_flush :: flush_env

text \<open>The data directory: \<open>os.MkdirAll\<close> keeps the mode of a directory that exists, the
  \<open>os.Chmod\<close> after it does not.\<close>

definition Open :: "open_env \<Rightarrow> string \<Rightarrow> string \<Rightarrow> fs \<Rightarrow> err + Store \<times> err option" where
  "Open e dataDir gatewayID d =
     (if op_mkdir_err e then Inl MkdirError
      else if op_chmod_err e then Inl ChmodError
      else
        let s = \<lparr>DataDir = dataDir, state = initial_state gatewayID, disk = d\<lparr>fs_dir := Some owner_rwx\<rparr>\<rparr> in
        if op_read_err e then Inl ReadError
        else
          (case fs_files d State_json of
             None \<Rightarrow> Inr (flushLocked (op_flush e) s)
           | Some f \<Rightarrow>
               (case f_content f of
                  JsonDoc doc \<Rightarrow>
                    Inr (flushLocked (op_flush e)
                      (s\<lparr>state := fill_nil_maps gatewayID (UnmarshalState doc (state s))\<rparr>))
                | _ \<Rightarrow> Inl ParseError)))"

text \<open>A method that changes the state and then returns \<open>flushLocked()\<close>.\<close>

definition save :: "flush_env \<Rightarrow> State \<Rightarrow> Store \<Rightarrow> Store \<times> err option" where
  "save e st s = flushLocked e (s\<lparr>state := st\<rparr>)"

definition Snapshot :: "Store \<Rightarrow> State" where
  "Snapshot s = (let st = state s in st\<lparr>
     st_Sandboxes := mmake (st_Sandboxes st), st_Profiles := mmake (st_Profiles st),
     st_Providers := mmake (st_Providers st), st_Settings := mmake (st_Settings st),
     st_Templates := mmake (st_Templates st), st_Services := mmake (st_Services st),
     st_Workspaces := mmake (st_Workspaces st),
     st_SandboxTokens := None, st_SSHSessions := None\<rparr>)"

section \<open>Sandboxes and their policy\<close>

text \<open>The fields an update inherits from the record it replaces.\<close>

definition inherit_sandbox :: "Sandbox \<Rightarrow> Sandbox \<Rightarrow> Sandbox" where
  "inherit_sandbox prev sb = sb\<lparr>
     sb_AttachedProviders := (if length (sb_AttachedProviders sb) = 0 \<and> length (sb_AttachedProviders prev) > 0
                              then sb_AttachedProviders prev else sb_AttachedProviders sb),
     sb_BasePolicyYAML := (if sb_BasePolicyYAML sb = [] \<and> sb_BasePolicyYAML prev \<noteq> []
                           then sb_BasePolicyYAML prev else sb_BasePolicyYAML sb),
     sb_PolicyRev := (if sb_PolicyRev sb = 0 \<and> sb_PolicyRev prev > 0
                      then sb_PolicyRev prev else sb_PolicyRev sb),
     sb_PolicyRevisions := (if length (sb_PolicyRevisions sb) = 0 \<and> length (sb_PolicyRevisions prev) > 0
                            then sb_PolicyRevisions prev else sb_PolicyRevisions sb)\<rparr>"

definition UpsertSandbox :: "time \<Rightarrow> flush_env \<Rightarrow> Sandbox \<Rightarrow> Store \<Rightarrow> Store \<times> err option" where
  "UpsertSandbox now e sb s =
     (let sb = (case mget (st_Sandboxes (state s)) (sb_Name sb) of
                  None \<Rightarrow> sb | Some prev \<Rightarrow> inherit_sandbox prev sb);
          sb = sb\<lparr>sb_UpdatedAt := now\<rparr> in
      mwrite (s, Some NilMapPanic) (sb_Name sb) sb (st_Sandboxes (state s))
        (\<lambda>m. save e ((state s)\<lparr>st_Sandboxes := m\<rparr>) s))"

definition DeleteSandbox :: "flush_env \<Rightarrow> string \<Rightarrow> Store \<Rightarrow> Store \<times> err option" where
  "DeleteSandbox e name s =
     save e ((state s)\<lparr>
       st_Sandboxes := mdel name (st_Sandboxes (state s)),
       st_SandboxTokens := mdel name (st_SandboxTokens (state s)),
       st_SSHSessions := mkeep (\<lambda>_ sess. ssh_Sandbox sess \<noteq> name) (st_SSHSessions (state s))\<rparr>) s"

definition GetSandbox :: "Store \<Rightarrow> string \<Rightarrow> Sandbox option" where
  "GetSandbox s name = mget (st_Sandboxes (state s)) name"

text \<open>\<open>len(yaml)\<close> is the number of bytes; the revision counter is a Go \<open>int\<close> and wraps.\<close>

definition SetBasePolicy :: "time \<Rightarrow> flush_env \<Rightarrow> string \<Rightarrow> string \<Rightarrow> Store \<Rightarrow> Store \<times> err option" where
  "SetBasePolicy now e sandbox yaml s =
     (case mget (st_Sandboxes (state s)) sandbox of
        None \<Rightarrow> (s, Some (SandboxNotFound sandbox))
      | Some sb \<Rightarrow>
          let sb = sb\<lparr>sb_BasePolicyYAML := yaml, sb_UpdatedAt := now, sb_PolicyRev := int64 (sb_PolicyRev sb + 1)\<rparr>;
              rev = \<lparr>rev_Rev = sb_PolicyRev sb, rev_UpdatedAt = sb_UpdatedAt sb,
                     rev_Bytes = int (length yaml), rev_Status = PolicyStatusLoaded, rev_YAML = yaml\<rparr>;
              revs = sb_PolicyRevisions sb @ [rev];
              revs = (if length revs > MaxPolicyRevisions
                      then drop (length revs - MaxPolicyRevisions) revs else revs);
              sb = sb\<lparr>sb_PolicyRevisions := revs\<rparr> in
          mwrite (s, Some NilMapPanic) sandbox sb (st_Sandboxes (state s))
            (\<lambda>m. save e ((state s)\<lparr>st_Sandboxes := m\<rparr>) s))"

definition ListPolicyRevisions :: "Store \<Rightarrow> string \<Rightarrow> err + PolicyRevision list" where
  "ListPolicyRevisions s sandbox =
     (case mget (st_Sandboxes (state s)) sandbox of
        None \<Rightarrow> Inl (SandboxNotFound sandbox)
      | Some sb \<Rightarrow> Inr (sb_PolicyRevisions sb))"

definition GetPolicyRevision :: "Store \<Rightarrow> string \<Rightarrow> int \<Rightarrow> err + PolicyRevision" where
  "GetPolicyRevision s sandbox n =
     (case mget (st_Sandboxes (state s)) sandbox of
        None \<Rightarrow> Inl (SandboxNotFound sandbox)
      | Some sb \<Rightarrow>
          (case List.find (\<lambda>r. rev_Rev r = n) (sb_PolicyRevisions sb) of
             None \<Rightarrow> Inl (RevisionNotFound sandbox n)
           | Some r \<Rightarrow> Inr r))"

definition GetGlobalPolicy :: "Store \<Rightarrow> string" where
  "GetGlobalPolicy s = st_GlobalPolicyYAML (state s)"

definition SetGlobalPolicy :: "flush_env \<Rightarrow> string \<Rightarrow> Store \<Rightarrow> Store \<times> err option" where
  "SetGlobalPolicy e yaml s = save e ((state s)\<lparr>st_GlobalPolicyYAML := yaml\<rparr>) s"

section \<open>Profiles and providers\<close>

definition UpsertProfile :: "flush_env \<Rightarrow> string \<Rightarrow> string \<Rightarrow> Store \<Rightarrow> Store \<times> err option" where
  "UpsertProfile e pid yaml s =
     mwrite (s, Some NilMapPanic) pid \<lparr>prof_ID = pid, prof_YAML = yaml\<rparr> (mmake (st_Profiles (state s)))
       (\<lambda>m. save e ((state s)\<lparr>st_Profiles := m\<rparr>) s)"

definition DeleteProfile :: "flush_env \<Rightarrow> string \<Rightarrow> Store \<Rightarrow> Store \<times> err option" where
  "DeleteProfile e pid s = save e ((state s)\<lparr>st_Profiles := mdel pid (st_Profiles (state s))\<rparr>) s"

definition GetProfile :: "Store \<Rightarrow> string \<Rightarrow> ProfileRecord option" where
  "GetProfile s pid = mget (st_Profiles (state s)) pid"

definition inherit_provider :: "ProviderRecord \<Rightarrow> ProviderRecord \<Rightarrow> ProviderRecord" where
  "inherit_provider prev rec = rec\<lparr>
     prov_Refresh := (if prov_Refresh rec = None \<and> prov_Refresh prev \<noteq> None
                      then prov_Refresh prev else prov_Refresh rec),
     prov_CredentialExpiresAtMS :=
       (if prov_CredentialExpiresAtMS rec = None \<and> prov_CredentialExpiresAtMS prev \<noteq> None
        then prov_CredentialExpiresAtMS prev else prov_CredentialExpiresAtMS rec)\<rparr>"

definition UpsertProvider :: "flush_env \<Rightarrow> ProviderRecord \<Rightarrow> Store \<Rightarrow> Store \<times> err option" where
  "UpsertProvider e rec s =
     (let ps = mmake (st_Providers (state s));
          rec = (case mget ps (prov_Name rec) of None \<Rightarrow> rec | Some prev \<Rightarrow> inherit_provider prev rec) in
      mwrite (s, Some NilMapPanic) (prov_Name rec) rec ps
        (\<lambda>m. save e ((state s)\<lparr>st_Providers := m\<rparr>) s))"

definition DeleteProvider :: "flush_env \<Rightarrow> string \<Rightarrow> Store \<Rightarrow> Store \<times> err option" where
  "DeleteProvider e name s = save e ((state s)\<lparr>st_Providers := mdel name (st_Providers (state s))\<rparr>) s"

definition GetProvider :: "Store \<Rightarrow> string \<Rightarrow> ProviderRecord option" where
  "GetProvider s name = mget (st_Providers (state s)) name"

section \<open>Inference route, settings, templates\<close>

definition SetInferenceRoute :: "flush_env \<Rightarrow> InferenceRoute \<Rightarrow> Store \<Rightarrow> Store \<times> err option" where
  "SetInferenceRoute e r s =
     (let r = r\<lparr>inf_Version := int64 (inf_Version r + 1)\<rparr>;
          r = (case st_Inference (state s) of
                 None \<Rightarrow> r | Some old \<Rightarrow> r\<lparr>inf_Version := int64 (inf_Version old + 1)\<rparr>);
          r = (if inf_TimeoutSec r \<le> 0 then r\<lparr>inf_TimeoutSec := 60\<rparr> else r) in
      save e ((state s)\<lparr>st_Inference := Some r\<rparr>) s)"

definition GetInferenceRoute :: "Store \<Rightarrow> InferenceRoute option" where
  "GetInferenceRoute s = st_Inference (state s)"

definition ClearInferenceRoute :: "flush_env \<Rightarrow> Store \<Rightarrow> Store \<times> err option" where
  "ClearInferenceRoute e s = save e ((state s)\<lparr>st_Inference := None\<rparr>) s"

definition SetSetting :: "flush_env \<Rightarrow> string \<Rightarrow> string \<Rightarrow> Store \<Rightarrow> Store \<times> err option" where
  "SetSetting e key v s =
     mwrite (s, Some NilMapPanic) key v (mmake (st_Settings (state s)))
       (\<lambda>m. save e ((state s)\<lparr>st_Settings := m\<rparr>) s)"

definition GetSetting :: "Store \<Rightarrow> string \<Rightarrow> string option" where
  "GetSetting s key = mget (st_Settings (state s)) key"

definition DeleteSetting :: "flush_env \<Rightarrow> string \<Rightarrow> Store \<Rightarrow> Store \<times> err option" where
  "DeleteSetting e key s = save e ((state s)\<lparr>st_Settings := mdel key (st_Settings (state s))\<rparr>) s"

definition AllSettings :: "Store \<Rightarrow> string gomap" where
  "AllSettings s = mmake (st_Settings (state s))"

definition UpsertTemplate :: "flush_env \<Rightarrow> TemplateRecord \<Rightarrow> Store \<Rightarrow> Store \<times> err option" where
  "UpsertTemplate e t s =
     mwrite (s, Some NilMapPanic) (tpl_Name t) t (mmake (st_Templates (state s)))
       (\<lambda>m. save e ((state s)\<lparr>st_Templates := m\<rparr>) s)"

definition GetTemplate :: "Store \<Rightarrow> string \<Rightarrow> TemplateRecord option" where
  "GetTemplate s name = mget (st_Templates (state s)) name"

definition DeleteTemplate :: "flush_env \<Rightarrow> string \<Rightarrow> Store \<Rightarrow> Store \<times> err option" where
  "DeleteTemplate e name s = save e ((state s)\<lparr>st_Templates := mdel name (st_Templates (state s))\<rparr>) s"

definition ListTemplates :: "string list \<Rightarrow> Store \<Rightarrow> TemplateRecord list" where
  "ListTemplates ks s = map snd (mrange ks (st_Templates (state s)))"

section \<open>The local-dev token and attachments\<close>

text \<open>\<open>rnd\<close> is what \<open>rand.Read\<close> puts into the 16-byte buffer.\<close>

definition EnsureAuthToken :: "string option \<Rightarrow> flush_env \<Rightarrow> Store \<Rightarrow> Store \<times> (err + string)" where
  "EnsureAuthToken rnd e s =
     (if st_AuthToken (state s) = [] then
        (case rnd of
           None \<Rightarrow> (s, Inl RandError)
         | Some b \<Rightarrow>
             (case save e ((state s)\<lparr>st_AuthToken := EncodeToString b\<rparr>) s of
                (s', Some x) \<Rightarrow> (s', Inl x)
              | (s', None) \<Rightarrow> (s', Inr (st_AuthToken (state s')))))
      else (s, Inr (st_AuthToken (state s))))"

definition AuthToken :: "Store \<Rightarrow> string" where
  "AuthToken s = st_AuthToken (state s)"

definition AttachProvider :: "time \<Rightarrow> flush_env \<Rightarrow> string \<Rightarrow> string \<Rightarrow> Store \<Rightarrow> Store \<times> err option" where
  "AttachProvider now e sandbox prov s =
     (case mget (st_Sandboxes (state s)) sandbox of
        None \<Rightarrow> (s, Some (SandboxNotFound sandbox))
      | Some sb \<Rightarrow>
          if prov \<in> set (sb_AttachedProviders sb) then (s, None)
          else
            let sb = sb\<lparr>sb_AttachedProviders := sb_AttachedProviders sb @ [prov], sb_UpdatedAt := now\<rparr> in
            mwrite (s, Some NilMapPanic) sandbox sb (st_Sandboxes (state s))
              (\<lambda>m. save e ((state s)\<lparr>st_Sandboxes := m\<rparr>) s))"

definition DetachProvider :: "time \<Rightarrow> flush_env \<Rightarrow> string \<Rightarrow> string \<Rightarrow> Store \<Rightarrow> Store \<times> err option" where
  "DetachProvider now e sandbox prov s =
     (case mget (st_Sandboxes (state s)) sandbox of
        None \<Rightarrow> (s, Some (SandboxNotFound sandbox))
      | Some sb \<Rightarrow>
          let sb = sb\<lparr>sb_AttachedProviders := filter (\<lambda>p. p \<noteq> prov) (sb_AttachedProviders sb), sb_UpdatedAt := now\<rparr> in
          mwrite (s, Some NilMapPanic) sandbox sb (st_Sandboxes (state s))
            (\<lambda>m. save e ((state s)\<lparr>st_Sandboxes := m\<rparr>) s))"

section \<open>Writes that follow a lookup\<close>

text \<open>An operation that found the entry it writes back writes to a map that is not nil.\<close>

lemma UpsertSandbox_eq:
  "UpsertSandbox now e sb s =
     (let sb = (case mget (st_Sandboxes (state s)) (sb_Name sb) of
                  None \<Rightarrow> sb | Some prev \<Rightarrow> inherit_sandbox prev sb);
          sb = sb\<lparr>sb_UpdatedAt := now\<rparr> in
      if st_Sandboxes (state s) = None then (s, Some NilMapPanic)
      else save e ((state s)\<lparr>st_Sandboxes := mput (sb_Name sb) sb (st_Sandboxes (state s))\<rparr>) s)"
  by (simp add: UpsertSandbox_def mwrite_if Let_def)

lemma SetBasePolicy_eq:
  "SetBasePolicy now e sandbox yaml s =
     (case mget (st_Sandboxes (state s)) sandbox of
        None \<Rightarrow> (s, Some (SandboxNotFound sandbox))
      | Some sb \<Rightarrow>
          save e ((state s)\<lparr>st_Sandboxes := mput sandbox (sb\<lparr>
            sb_BasePolicyYAML := yaml, sb_UpdatedAt := now, sb_PolicyRev := int64 (sb_PolicyRev sb + 1),
            sb_PolicyRevisions := keep_last MaxPolicyRevisions (sb_PolicyRevisions sb @
              [\<lparr>rev_Rev = int64 (sb_PolicyRev sb + 1), rev_UpdatedAt = now,
                rev_Bytes = int (length yaml), rev_Status = PolicyStatusLoaded, rev_YAML = yaml\<rparr>])\<rparr>)
            (st_Sandboxes (state s))\<rparr>) s)"
  by (auto simp: SetBasePolicy_def Let_def keep_last_def mwrite_found split: option.split)

lemma AttachProvider_eq:
  "AttachProvider now e sandbox prov s =
     (case mget (st_Sandboxes (state s)) sandbox of
        None \<Rightarrow> (s, Some (SandboxNotFound sandbox))
      | Some sb \<Rightarrow>
          if prov \<in> set (sb_AttachedProviders sb) then (s, None)
          else save e ((state s)\<lparr>st_Sandboxes := mput sandbox
            (sb\<lparr>sb_AttachedProviders := sb_AttachedProviders sb @ [prov], sb_UpdatedAt := now\<rparr>)
            (st_Sandboxes (state s))\<rparr>) s)"
  by (simp add: AttachProvider_def Let_def mwrite_found split: option.split)

lemma DetachProvider_eq:
  "DetachProvider now e sandbox prov s =
     (case mget (st_Sandboxes (state s)) sandbox of
        None \<Rightarrow> (s, Some (SandboxNotFound sandbox))
      | Some sb \<Rightarrow> save e ((state s)\<lparr>st_Sandboxes := mput sandbox
          (sb\<lparr>sb_AttachedProviders := filter (\<lambda>p. p \<noteq> prov) (sb_AttachedProviders sb), sb_UpdatedAt := now\<rparr>)
          (st_Sandboxes (state s))\<rparr>) s)"
  by (simp add: DetachProvider_def Let_def mwrite_found split: option.split)

section \<open>What a flush does\<close>

text \<open>
  The effect of \<open>flushLocked\<close> on the state in memory does not depend on how the file
  operations turn out, and the one on \<open>state.json\<close> is all or nothing.
\<close>

named_theorems flush \<open>what a flush or a save leaves in memory\<close>

lemma flush_state [flush]: "state (fst (flushLocked e s)) = (state s)\<lparr>st_UpdatedAt := fl_now e\<rparr>"
  by (simp add: flushLocked_def Let_def)

lemma flush_DataDir [flush]: "DataDir (fst (flushLocked e s)) = DataDir s"
  by (simp add: flushLocked_def Let_def)

lemma save_state [flush]: "state (fst (save e st s)) = st\<lparr>st_UpdatedAt := fl_now e\<rparr>"
  by (simp add: save_def flush_state)

lemma save_DataDir [flush]: "DataDir (fst (save e st s)) = DataDir s"
  by (simp add: save_def flush_DataDir)

text \<open>The file operations of a flush all succeed.\<close>

definition flush_ok :: "flush_env \<Rightarrow> bool" where
  "flush_ok e \<longleftrightarrow> \<not> fl_marshal_err e \<and> fl_write e = WriteOk \<and> \<not> fl_chmod_err e \<and> \<not> fl_rename_err e"

lemma flush_err: "snd (flushLocked e s) = None \<longleftrightarrow> flush_ok e"
  by (simp add: flushLocked_def flush_ok_def Let_def)

lemma save_err: "snd (save e st s) = None \<longleftrightarrow> flush_ok e"
  by (simp add: save_def flush_err)

text \<open>The shape \<open>if err := s.flushLocked(); err != nil { return ..., err }\<close>.\<close>

lemma save_result:
  "(case save e st s of (s', Some x) \<Rightarrow> f s' x | (s', None) \<Rightarrow> g s') =
     (if flush_ok e then g (fst (save e st s)) else f (fst (save e st s)) (the (snd (save e st s))))"
  using save_err [of e st s] by (cases "save e st s"; cases "snd (save e st s)") auto

lemma flush_no_panic [simp]: "snd (flushLocked e s) \<noteq> Some NilMapPanic"
  by (simp add: flushLocked_def Let_def)

lemma save_no_panic [simp]: "snd (save e st s) \<noteq> Some NilMapPanic"
  by (simp add: save_def)

lemma WriteFile_other: "n' \<noteq> n \<Longrightarrow> fs_files (WriteFile w n c p d) n' = fs_files d n'"
  by (cases w) (simp_all add: WriteFile_def Let_def)

lemma flush_file_ok:
  "flush_ok e \<Longrightarrow> fs_files (disk (fst (flushLocked e s))) State_json =
     Some \<lparr>f_content = JsonDoc (MarshalState (state (fst (flushLocked e s)))), f_mode = owner_rw\<rparr>"
  by (simp add: flushLocked_def flush_ok_def Let_def WriteFile_def Chmod_def Rename_def)

lemma flush_file_err:
  "\<not> flush_ok e \<Longrightarrow> fs_files (disk (fst (flushLocked e s))) State_json = fs_files (disk s) State_json"
  by (auto simp: flushLocked_def flush_ok_def Let_def WriteFile_other Chmod_def)

lemma save_file_ok:
  "flush_ok e \<Longrightarrow> fs_files (disk (fst (save e st s))) State_json =
     Some \<lparr>f_content = JsonDoc (MarshalState (st\<lparr>st_UpdatedAt := fl_now e\<rparr>)), f_mode = owner_rw\<rparr>"
  by (simp add: save_def flush_file_ok flush_state)

lemma save_file_err:
  "\<not> flush_ok e \<Longrightarrow> fs_files (disk (fst (save e st s))) State_json = fs_files (disk s) State_json"
  by (simp add: save_def flush_file_err)

section \<open>The registries\<close>

text \<open>
  Each table of the store with its put and delete is a \<open>keyed_registry\<close>, whatever happens
  on disk. \<open>merge_...\<close> specifies, field by field, what a put stores given the record it
  replaces: \<open>or_else\<close> keeps the old value where the new record leaves the field at its
  zero value.
\<close>

definition or_else :: "'a \<Rightarrow> 'a \<Rightarrow> 'a \<Rightarrow> 'a" where
  "or_else zero new old = (if new = zero then old else new)"

definition put_sandbox :: "time \<times> flush_env \<Rightarrow> string \<Rightarrow> Sandbox \<Rightarrow> Store \<Rightarrow> Store" where
  "put_sandbox e k v s = fst (UpsertSandbox (fst e) (snd e) (v\<lparr>sb_Name := k\<rparr>) s)"

definition del_sandbox :: "time \<times> flush_env \<Rightarrow> string \<Rightarrow> Store \<Rightarrow> Store" where
  "del_sandbox e k s = fst (DeleteSandbox (snd e) k s)"

definition merge_sandbox :: "time \<times> flush_env \<Rightarrow> string \<Rightarrow> Sandbox option \<Rightarrow> Sandbox \<Rightarrow> Sandbox" where
  "merge_sandbox e k old v =
     (case old of
        None \<Rightarrow> v\<lparr>sb_Name := k, sb_UpdatedAt := fst e\<rparr>
      | Some prev \<Rightarrow>
          \<lparr>sb_Name = k, sb_ID = sb_ID v, sb_Image = sb_Image v, sb_Network = sb_Network v,
           sb_Status = sb_Status v, sb_Labels = sb_Labels v,
           sb_BasePolicyYAML = or_else [] (sb_BasePolicyYAML v) (sb_BasePolicyYAML prev),
           sb_AttachedProviders = or_else [] (sb_AttachedProviders v) (sb_AttachedProviders prev),
           sb_PolicyRev = or_else 0 (sb_PolicyRev v) (max 0 (sb_PolicyRev prev)),
           sb_PolicyRevisions = or_else [] (sb_PolicyRevisions v) (sb_PolicyRevisions prev),
           sb_UpdatedAt = fst e\<rparr>)"

definition put_provider :: "flush_env \<Rightarrow> string \<Rightarrow> ProviderRecord \<Rightarrow> Store \<Rightarrow> Store" where
  "put_provider e k v s = fst (UpsertProvider e (v\<lparr>prov_Name := k\<rparr>) s)"

definition merge_provider :: "flush_env \<Rightarrow> string \<Rightarrow> ProviderRecord option \<Rightarrow> ProviderRecord \<Rightarrow> ProviderRecord" where
  "merge_provider e k old v =
     (case old of
        None \<Rightarrow> v\<lparr>prov_Name := k\<rparr>
      | Some prev \<Rightarrow> v\<lparr>prov_Name := k,
          prov_Refresh := or_else None (prov_Refresh v) (prov_Refresh prev),
          prov_CredentialExpiresAtMS :=
            or_else None (prov_CredentialExpiresAtMS v) (prov_CredentialExpiresAtMS prev)\<rparr>)"

lemma merge_sandbox_None: "merge_sandbox e k None v = v\<lparr>sb_Name := k, sb_UpdatedAt := fst e\<rparr>"
  by (simp add: merge_sandbox_def)

lemma merge_provider_None: "merge_provider e k None v = v\<lparr>prov_Name := k\<rparr>"
  by (simp add: merge_provider_def)

lemma inherit_sandbox_merge:
  "(inherit_sandbox prev (v\<lparr>sb_Name := k\<rparr>))\<lparr>sb_UpdatedAt := fst e\<rparr> = merge_sandbox e k (Some prev) v"
  by (auto simp: inherit_sandbox_def merge_sandbox_def or_else_def)

lemma inherit_provider_merge:
  "inherit_provider prev (v\<lparr>prov_Name := k\<rparr>) = merge_provider e k (Some prev) v"
  by (auto simp: inherit_provider_def merge_provider_def or_else_def)

lemma inherit_sandbox_name [simp]: "sb_Name (inherit_sandbox prev sb) = sb_Name sb"
  by (simp add: inherit_sandbox_def)

lemma inherit_provider_name [simp]: "prov_Name (inherit_provider prev p) = prov_Name p"
  by (simp add: inherit_provider_def)

interpretation sandboxes: keyed_registry GetSandbox put_sandbox del_sandbox merge_sandbox
    "\<lambda>s. st_Sandboxes (state s) \<noteq> None"
  by unfold_locales
     (auto simp: fun_eq_iff GetSandbox_def put_sandbox_def del_sandbox_def merge_sandbox_None
       inherit_sandbox_merge UpsertSandbox_eq DeleteSandbox_def Let_def flush gomap split: option.split)

interpretation providers: keyed_registry GetProvider put_provider
    "\<lambda>e k s. fst (DeleteProvider e k s)" merge_provider "\<lambda>s. st_Providers (state s) \<noteq> None"
  by unfold_locales
     (auto simp: fun_eq_iff GetProvider_def put_provider_def merge_provider_None inherit_provider_merge
       UpsertProvider_def DeleteProvider_def Let_def flush gomap split: option.split)

interpretation profiles: keyed_registry GetProfile
    "\<lambda>e k v s. fst (UpsertProfile e k (prof_YAML v) s)" "\<lambda>e k s. fst (DeleteProfile e k s)"
    "\<lambda>e k old v. \<lparr>prof_ID = k, prof_YAML = prof_YAML v\<rparr>" "\<lambda>s. True"
  by unfold_locales
     (auto simp: fun_eq_iff GetProfile_def UpsertProfile_def DeleteProfile_def flush gomap)

interpretation settings: keyed_registry GetSetting
    "\<lambda>e k v s. fst (SetSetting e k v s)" "\<lambda>e k s. fst (DeleteSetting e k s)"
    "\<lambda>e k old v. v" "\<lambda>s. True"
  by unfold_locales
     (auto simp: fun_eq_iff GetSetting_def SetSetting_def DeleteSetting_def flush gomap)

interpretation templates: keyed_registry GetTemplate
    "\<lambda>e k v s. fst (UpsertTemplate e (v\<lparr>tpl_Name := k\<rparr>) s)" "\<lambda>e k s. fst (DeleteTemplate e k s)"
    "\<lambda>e k old v. v\<lparr>tpl_Name := k\<rparr>" "\<lambda>s. True"
  by unfold_locales
     (auto simp: fun_eq_iff GetTemplate_def UpsertTemplate_def DeleteTemplate_def flush gomap)

section \<open>Policy revisions\<close>

definition policy_revisions :: "string \<Rightarrow> Store \<Rightarrow> PolicyRevision list" where
  "policy_revisions n s = (case GetSandbox s n of None \<Rightarrow> [] | Some sb \<Rightarrow> sb_PolicyRevisions sb)"

definition set_policy :: "string \<Rightarrow> time \<times> flush_env \<times> string \<Rightarrow> Store \<Rightarrow> Store" where
  "set_policy n e s = fst (SetBasePolicy (fst e) (fst (snd e)) n (snd (snd e)) s)"

definition new_revision :: "string \<Rightarrow> time \<times> flush_env \<times> string \<Rightarrow> Store \<Rightarrow> PolicyRevision list" where
  "new_revision n e s =
     (case GetSandbox s n of None \<Rightarrow> []
      | Some sb \<Rightarrow> [\<lparr>rev_Rev = int64 (sb_PolicyRev sb + 1), rev_UpdatedAt = fst e,
                    rev_Bytes = int (length (snd (snd e))), rev_Status = PolicyStatusLoaded,
                    rev_YAML = snd (snd e)\<rparr>])"

lemma set_policy_get:
  "GetSandbox s n = Some sb \<Longrightarrow> GetSandbox (set_policy n e s) n = Some (sb\<lparr>
     sb_BasePolicyYAML := snd (snd e), sb_UpdatedAt := fst e,
     sb_PolicyRev := int64 (sb_PolicyRev sb + 1),
     sb_PolicyRevisions := keep_last MaxPolicyRevisions (sb_PolicyRevisions sb @ new_revision n e s)\<rparr>)"
  by (auto simp: GetSandbox_def set_policy_def SetBasePolicy_eq new_revision_def flush
      mget_mput mget_nonnil)

interpretation revisions: capped_log "policy_revisions n" MaxPolicyRevisions "new_revision n" "set_policy n"
    "\<lambda>s. GetSandbox s n \<noteq> None" for n
  by unfold_locales (auto simp: policy_revisions_def set_policy_get)

lemma policy_run:
  assumes "GetSandbox s n = Some sb" and "sb_PolicyRev sb = 0" and "sb_PolicyRevisions sb = []"
  shows "int (length es) < 2 ^ 63 \<Longrightarrow> \<exists>sb'. GetSandbox (fold (set_policy n) es s) n = Some sb' \<and>
     sb_PolicyRev sb' = int (length es) \<and>
     map (\<lambda>r. (rev_Rev r, rev_YAML r)) (sb_PolicyRevisions sb') =
       keep_last MaxPolicyRevisions (map (\<lambda>(i, y). (int i, y)) (enumerate 1 (map (\<lambda>e. snd (snd e)) es)))"
proof (induction es rule: rev_induct)
  case Nil
  with assms show ?case by (simp add: keep_last_def)
next
  case (snoc e es)
  then have "int (length es) < 2 ^ 63" by simp
  from snoc.IH [OF this] obtain sb' where sb': "GetSandbox (fold (set_policy n) es s) n = Some sb'"
    and rev: "sb_PolicyRev sb' = int (length es)"
    and revs: "map (\<lambda>r. (rev_Rev r, rev_YAML r)) (sb_PolicyRevisions sb') =
       keep_last MaxPolicyRevisions (map (\<lambda>(i, y). (int i, y)) (enumerate 1 (map (\<lambda>e. snd (snd e)) es)))"
    by blast
  from rev snoc.prems have "int64 (sb_PolicyRev sb' + 1) = int (length es) + 1" by simp
  with sb' rev revs show ?case
    by (simp add: set_policy_get new_revision_def map_keep_last keep_last_append enumerate_append_eq add.commute)
qed

section \<open>Encoding and decoding the state\<close>

text \<open>What a state becomes after \<open>MarshalState\<close> and \<open>Open\<close>: \<open>omitempty\<close> turns empty
  maps inside records into nil ones, and nil \<open>Labels\<close> come back empty.\<close>

definition wireState :: "State \<Rightarrow> State" where
  "wireState st = st\<lparr>
     st_Sandboxes := map_option (fmmap wireSandbox) (st_Sandboxes st),
     st_Labels := mmake (st_Labels st),
     st_Providers := map_option (fmmap wireProvider) (st_Providers st),
     st_Templates := map_option (fmmap wireTemplate) (st_Templates st)\<rparr>"

text \<open>No map the operations write to is nil.\<close>

definition maps_ok :: "State \<Rightarrow> bool" where
  "maps_ok st \<longleftrightarrow>
     st_Sandboxes st \<noteq> None \<and> st_Profiles st \<noteq> None \<and> st_Providers st \<noteq> None \<and>
     st_Settings st \<noteq> None \<and> st_Templates st \<noteq> None \<and> st_Services st \<noteq> None \<and>
     st_Workspaces st \<noteq> None \<and> st_Proposals st \<noteq> None \<and> st_SandboxTokens st \<noteq> None \<and>
     st_SSHSessions st \<noteq> None"

lemma unmarshal_marshal:
  assumes "maps_ok st"
  shows "UnmarshalState (MarshalState st) (initial_state g) = wireState st"
  using assms unfolding maps_ok_def
  by (intro State.equality)
     (simp_all add: UnmarshalState_def MarshalState_def initial_state_def wireState_def codec_simps)

lemma fill_nil_maps_ok: "maps_ok st \<Longrightarrow> st_GatewayID st \<noteq> [] \<Longrightarrow> fill_nil_maps g st = st"
  by (simp add: fill_nil_maps_def maps_ok_def)

lemma maps_ok_wire: "maps_ok st \<Longrightarrow> maps_ok (wireState st)"
  by (simp add: maps_ok_def wireState_def)

lemma maps_ok_fill: "maps_ok (fill_nil_maps g st)"
  by (simp add: maps_ok_def fill_nil_maps_def)

lemma maps_ok_initial: "maps_ok (initial_state g)"
  by (simp add: maps_ok_def initial_state_def)

text \<open>The file operations of \<open>Open\<close> before its flush all succeed.\<close>

definition open_ok :: "open_env \<Rightarrow> bool" where
  "open_ok e \<longleftrightarrow> \<not> op_mkdir_err e \<and> \<not> op_chmod_err e \<and> \<not> op_read_err e"

section \<open>A store for examples\<close>

definition ex_flush :: flush_env where
  "ex_flush = \<lparr>fl_now = unix_epoch, fl_marshal_err = False, fl_write = WriteOk,
     fl_chmod_err = False, fl_rename_err = False\<rparr>"

definition ex_sandbox :: "string \<Rightarrow> Sandbox" where
  "ex_sandbox n = \<lparr>sb_Name = n, sb_ID = [], sb_Image = [], sb_Network = [], sb_Status = [],
     sb_Labels = None, sb_BasePolicyYAML = [], sb_AttachedProviders = [''gh''], sb_PolicyRev = 0,
     sb_PolicyRevisions = [], sb_UpdatedAt = unix_epoch\<rparr>"

definition ex_store :: Store where
  "ex_store = \<lparr>DataDir = ''/data'',
     state = (initial_state ''gw-1'')\<lparr>st_Sandboxes :=
       Some (fmupd ''other'' (ex_sandbox ''other'') (fmupd ''demo'' (ex_sandbox ''demo'') fmempty))\<rparr>,
     disk = \<lparr>fs_dir = None, fs_files = (\<lambda>_. None)\<rparr>\<rparr>"

lemma ex_flush_ok [simp]: "flush_ok ex_flush"
  by (simp add: ex_flush_def flush_ok_def)

lemma ex_flush_now [simp]: "fl_now ex_flush = unix_epoch"
  by (simp add: ex_flush_def)

lemma ex_sandbox_fields [simp]:
  "sb_Name (ex_sandbox n) = n" "sb_BasePolicyYAML (ex_sandbox n) = []"
  "sb_AttachedProviders (ex_sandbox n) = [''gh'']" "sb_PolicyRev (ex_sandbox n) = 0"
  "sb_PolicyRevisions (ex_sandbox n) = []"
  by (simp_all add: ex_sandbox_def)

lemma ex_store_sandboxes [simp]:
  "st_Sandboxes (state ex_store) =
     Some (fmupd ''other'' (ex_sandbox ''other'') (fmupd ''demo'' (ex_sandbox ''demo'') fmempty))"
  by (simp add: ex_store_def)

lemma ex_store_get [simp]:
  "GetSandbox ex_store ''demo'' = Some (ex_sandbox ''demo'')"
  "GetSandbox ex_store ''other'' = Some (ex_sandbox ''other'')"
  by (simp_all add: GetSandbox_def)

lemma ex_store_maps_ok [simp]: "maps_ok (state ex_store)"
  by (simp add: maps_ok_def ex_store_def initial_state_def)

section \<open>Properties\<close>

text \<open>
  C1: the state file is replaced atomically. After \<open>flushLocked\<close>, \<open>state.json\<close> either
  holds the whole current state with mode 0600 (the flush returned no error) or is exactly
  the file that was there before (it returned one), whichever file operation failed and
  whatever mode or content a stale temporary file had.
\<close>

theorem flush_atomic:
  "fs_files (disk (fst (flushLocked e s))) State_json =
     (if snd (flushLocked e s) = None
      then Some \<lparr>f_content = JsonDoc (MarshalState (state (fst (flushLocked e s)))), f_mode = owner_rw\<rparr>
      else fs_files (disk s) State_json)"
  by (simp add: flush_err flush_file_ok flush_file_err)

text \<open>
  C8: state survives a restart. When a flush succeeded, \<open>Open\<close> on the resulting directory
  gives back every record of the state (up to \<open>omitempty\<close> inside records, and the
  \<open>UpdatedAt\<close> of the flush that \<open>Open\<close> does), whatever gateway id it is given.
\<close>

theorem reopen_roundtrip:
  assumes "maps_ok (state s)" and "st_GatewayID (state s) \<noteq> []"
    and "snd (flushLocked e s) = None" and "open_ok o'"
  shows "\<exists>s' x. Open o' dir g (disk (fst (flushLocked e s))) = Inr (s', x) \<and>
     state s' = (wireState (state s))\<lparr>st_UpdatedAt := fl_now (op_flush o')\<rparr>"
proof -
  let ?st = "(state s)\<lparr>st_UpdatedAt := fl_now e\<rparr>"
  from assms(1) have ok: "maps_ok ?st" by (simp add: maps_ok_def)
  have wire: "wireState ?st = (wireState (state s))\<lparr>st_UpdatedAt := fl_now e\<rparr>"
    by (simp add: wireState_def)
  have "fill_nil_maps g (wireState ?st) = wireState ?st"
    by (rule fill_nil_maps_ok [OF maps_ok_wire [OF ok]]) (simp add: wireState_def assms(2))
  then show ?thesis
    using assms(3,4) ok
    by (simp add: Open_def open_ok_def flush_err flush_file_ok flush_state unmarshal_marshal wire Let_def
        prod_eq_iff)
qed

theorem reopen_roundtrip_witness:
  "\<exists>s' x. Open \<lparr>op_mkdir_err = False, op_chmod_err = False, op_read_err = False, op_flush = ex_flush\<rparr>
        ''/data'' ''gw-2'' (disk (fst (flushLocked ex_flush ex_store))) = Inr (s', x) \<and>
     state s' = (wireState (state ex_store))\<lparr>st_UpdatedAt := unix_epoch\<rparr>"
  using reopen_roundtrip [of ex_store ex_flush
      "\<lparr>op_mkdir_err = False, op_chmod_err = False, op_read_err = False, op_flush = ex_flush\<rparr>" "''/data''" "''gw-2''"]
  by (simp add: open_ok_def flush_err ex_flush_def ex_store_def initial_state_def maps_ok_def flush_ok_def)

text \<open>
  C14: the sandbox registry behaves as a map. Any sequence of registrations and deletions,
  with any failures of the disk, leaves exactly the records the same sequence leaves in a
  map whose put stores the new record field by field, except that a base policy, an attached
  provider list, a revision counter and a revision list the new record leaves empty are those
  of the record it replaces.
\<close>

theorem sandbox_registry_refines:
  assumes "st_Sandboxes (state s) \<noteq> None"
  shows "GetSandbox (fold (reg_exec put_sandbox del_sandbox) xs s) =
    fold (reg_spec merge_sandbox) xs (GetSandbox s)"
  using sandboxes.run_spec [OF assms] by blast

theorem sandbox_registry_refines_witness:
  "GetSandbox (fold (reg_exec put_sandbox del_sandbox)
      [((5, ex_flush), RPut ''demo'' ((ex_sandbox [])\<lparr>sb_Image := ''v2'', sb_AttachedProviders := []\<rparr>)),
       ((6, ex_flush), RDel ''other'')] ex_store) ''demo'' =
    Some ((ex_sandbox ''demo'')\<lparr>sb_Image := ''v2'', sb_AttachedProviders := [''gh''], sb_UpdatedAt := 5\<rparr>)"
  using fun_cong [OF sandbox_registry_refines [of ex_store
      "[((5, ex_flush), RPut ''demo'' ((ex_sandbox [])\<lparr>sb_Image := ''v2'', sb_AttachedProviders := []\<rparr>)),
        ((6, ex_flush), RDel ''other'')]"], of "''demo''"]
  by (simp add: merge_sandbox_def or_else_def ex_sandbox_def)

text \<open>
  C15: the policy history. Starting from a sandbox without revisions, \<open>SetBasePolicy\<close>
  numbers the revisions 1, 2, 3, ... and retains exactly the last
  \<open>MaxPolicyRevisions\<close> of them, oldest first, each with the YAML it was given.
\<close>

theorem policy_history:
  assumes "GetSandbox s n = Some sb" and "sb_PolicyRev sb = 0" and "sb_PolicyRevisions sb = []"
    and "int (length es) < 2 ^ 63"
  shows "map (\<lambda>r. (rev_Rev r, rev_YAML r)) (policy_revisions n (fold (set_policy n) es s)) =
    keep_last MaxPolicyRevisions (map (\<lambda>(i, y). (int i, y)) (enumerate 1 (map (\<lambda>e. snd (snd e)) es)))"
  using policy_run [OF assms] by (auto simp: policy_revisions_def)

theorem policy_history_witness:
  "map (\<lambda>r. (rev_Rev r, rev_YAML r)) (policy_revisions ''demo''
      (fold (set_policy ''demo'') [(1, ex_flush, ''a''), (2, ex_flush, ''b'')] ex_store)) =
    [(1, ''a''), (2, ''b'')]"
  using policy_history [of ex_store "''demo''" "ex_sandbox ''demo''" "[(1, ex_flush, ''a''), (2, ex_flush, ''b'')]"]
  by (simp add: keep_last_def MaxPolicyRevisions_def)

end
