(* ===== verification/Store_Auth.thy ===== *)
theory Store_Auth
  imports Store
begin

text \<open>
  \<open>internal/storage/store/auth.go\<close>: supervisor tokens and SSH sessions, stored as hashes.
  The hash function (SHA-256 in the source) is the argument \<open>H\<close> of every operation that
  hashes: nothing here depends on which function it is, and the theorems that need two
  tokens not to collide say so.
\<close>

section \<open>Definitions\<close>

text \<open>\<open>newSecret\<close>: 32 random bytes in hexadecimal; \<open>None\<close> when \<open>rand.Read\<close> fails.\<close>

definition newSecret :: "string option \<Rightarrow> err + string" where
  "newSecret rnd = (case rnd of None \<Rightarrow> Inl RandError | Some b \<Rightarrow> Inr (EncodeToString b))"

definition HashToken :: "(string \<Rightarrow> string) \<Rightarrow> string \<Rightarrow> string" where
  "HashToken H tok = EncodeToString (H tok)"

text \<open>\<open>subtle.ConstantTimeCompare\<close> returns 1 for equal slices and 0 otherwise.\<close>

definition ConstantTimeCompare :: "string \<Rightarrow> string \<Rightarrow> int" where
  "ConstantTimeCompare a b = (if a = b then 1 else 0)"

definition hashEqual :: "string \<Rightarrow> string \<Rightarrow> bool" where
  "hashEqual a b \<longleftrightarrow> length a = length b \<and> ConstantTimeCompare a b = 1"

record token_file_env =
  tf_write :: write_outcome
  tf_chmod_err :: bool
  tf_rename_err :: bool

definition AuthTokenFile :: string where
  "AuthTokenFile = ''auth_token''"

definition WriteAuthTokenFile ::
    "string option \<Rightarrow> flush_env \<Rightarrow> token_file_env \<Rightarrow> Store \<Rightarrow> Store \<times> (err + string)" where
  "WriteAuthTokenFile rnd e t s =
     (case EnsureAuthToken rnd e s of
        (s, Inl x) \<Rightarrow> (s, Inl x)
      | (s, Inr tok) \<Rightarrow>
          let path = DataDir s @ ''/'' @ AuthTokenFile;
              s = s\<lparr>disk := WriteFile (tf_write t) Auth_token_tmp (TextFile (tok @ [CHR 0x0A])) owner_rw (disk s)\<rparr> in
          if tf_write t \<noteq> WriteOk then (s, Inl WriteError)
          else if tf_chmod_err t then (s, Inl ChmodError)
          else
            let s = s\<lparr>disk := Chmod Auth_token_tmp owner_rw (disk s)\<rparr> in
            if tf_rename_err t then (s, Inl RenameError)
            else (s\<lparr>disk := Rename Auth_token_tmp Auth_token (disk s)\<rparr>, Inr path))"

definition IssueSandboxToken ::
    "(string \<Rightarrow> string) \<Rightarrow> string option \<Rightarrow> time \<Rightarrow> flush_env \<Rightarrow> string \<Rightarrow> Store \<Rightarrow> Store \<times> (err + string)" where
  "IssueSandboxToken H rnd now e name s =
     (if mget (st_Sandboxes (state s)) name = None then (s, Inl (SandboxNotFound name))
      else
        (case newSecret rnd of
           Inl x \<Rightarrow> (s, Inl x)
         | Inr tok \<Rightarrow>
             mwrite (s, Inl NilMapPanic) name \<lparr>tok_Hash = HashToken H tok, tok_IssuedAtMS = UnixMilli now\<rparr>
                 (mmake (st_SandboxTokens (state s)))
               (\<lambda>m. case save e ((state s)\<lparr>st_SandboxTokens := m\<rparr>) s of
                  (s', Some x) \<Rightarrow> (s', Inl x)
                | (s', None) \<Rightarrow> (s', Inr tok))))"

definition SandboxForToken ::
    "(string \<Rightarrow> string) \<Rightarrow> string list \<Rightarrow> string \<Rightarrow> Store \<Rightarrow> string option" where
  "SandboxForToken H ks tok s =
     (if tok = [] then None
      else
        (case List.find (\<lambda>(name, rec). hashEqual (tok_Hash rec) (HashToken H tok))
                (mrange ks (st_SandboxTokens (state s))) of
           None \<Rightarrow> None
         | Some (name, rec) \<Rightarrow>
             if mget (st_Sandboxes (state s)) name = None then None else Some name))"

text \<open>\<open>ttl \<le> 0\<close> means no expiry, recorded as \<open>ExpiresAtMS = 0\<close>.\<close>

definition CreateSSHSession ::
    "(string \<Rightarrow> string) \<Rightarrow> string option \<Rightarrow> string option \<Rightarrow> time \<Rightarrow> flush_env \<Rightarrow> string \<Rightarrow> string \<Rightarrow> duration
     \<Rightarrow> Store \<Rightarrow> Store \<times> (err + SSHSession \<times> string)" where
  "CreateSSHSession H rnd1 rnd2 now e sandbox subject ttl s =
     (case newSecret rnd1 of
        Inl x \<Rightarrow> (s, Inl x)
      | Inr tok \<Rightarrow>
          (case newSecret rnd2 of
             Inl x \<Rightarrow> (s, Inl x)
           | Inr idRaw \<Rightarrow>
               let sess = \<lparr>ssh_ID = ''ssh-'' @ take 16 idRaw, ssh_Sandbox = sandbox,
                           ssh_TokenHash = HashToken H tok, ssh_Subject = subject,
                           ssh_CreatedAtMS = UnixMilli now, ssh_ExpiresAtMS = 0, ssh_Revoked = False\<rparr>;
                   sess = (if ttl > 0 then sess\<lparr>ssh_ExpiresAtMS := UnixMilli (now + ttl)\<rparr> else sess) in
               if mget (st_Sandboxes (state s)) sandbox = None then (s, Inl (SandboxNotFound sandbox))
               else
                 mwrite (s, Inl NilMapPanic) (ssh_ID sess) sess (mmake (st_SSHSessions (state s)))
                   (\<lambda>m. case save e ((state s)\<lparr>st_SSHSessions := m\<rparr>) s of
                      (s', Some x) \<Rightarrow> (s', Inl x)
                    | (s', None) \<Rightarrow> (s', Inr (sess, tok)))))"

definition zero_session :: SSHSession where
  "zero_session = \<lparr>ssh_ID = [], ssh_Sandbox = [], ssh_TokenHash = [], ssh_Subject = [],
     ssh_CreatedAtMS = 0, ssh_ExpiresAtMS = 0, ssh_Revoked = False\<rparr>"

definition session_expired :: "time \<Rightarrow> SSHSession \<Rightarrow> bool" where
  "session_expired now sess \<longleftrightarrow> ssh_ExpiresAtMS sess > 0 \<and> UnixMilli now \<ge> ssh_ExpiresAtMS sess"

definition ValidateSSHSession ::
    "(string \<Rightarrow> string) \<Rightarrow> string list \<Rightarrow> string \<Rightarrow> string \<Rightarrow> time \<Rightarrow> Store \<Rightarrow> SSHSession \<times> err option" where
  "ValidateSSHSession H ks tok sandbox now s =
     (if tok = [] then (zero_session, Some ErrSessionNotFound)
      else
        (case List.find (\<lambda>(_, sess). hashEqual (ssh_TokenHash sess) (HashToken H tok))
                (mrange ks (st_SSHSessions (state s))) of
           None \<Rightarrow> (zero_session, Some ErrSessionNotFound)
         | Some (_, sess) \<Rightarrow>
             if ssh_Revoked sess then (sess, Some ErrSessionRevoked)
             else if session_expired now sess then (sess, Some ErrSessionExpired)
             else if ssh_Sandbox sess \<noteq> sandbox then (sess, Some ErrSessionSandbox)
             else if mget (st_Sandboxes (state s)) (ssh_Sandbox sess) = None then (sess, Some ErrSessionNotFound)
             else (sess, None)))"

definition RevokeSSHSession :: "flush_env \<Rightarrow> string \<Rightarrow> Store \<Rightarrow> Store \<times> err option" where
  "RevokeSSHSession e sid s =
     (case mget (st_SSHSessions (state s)) sid of
        None \<Rightarrow> (s, Some ErrSessionNotFound)
      | Some sess \<Rightarrow>
          mwrite (s, Some NilMapPanic) sid (sess\<lparr>ssh_Revoked := True\<rparr>) (st_SSHSessions (state s))
            (\<lambda>m. save e ((state s)\<lparr>st_SSHSessions := m\<rparr>) s))"

definition ListSSHSessions :: "string list \<Rightarrow> string \<Rightarrow> Store \<Rightarrow> SSHSession list" where
  "ListSSHSessions ks sandbox s =
     filter (\<lambda>sess. sandbox = [] \<or> ssh_Sandbox sess = sandbox) (map snd (mrange ks (st_SSHSessions (state s))))"

text \<open>The number of sessions deleted is the difference of the sizes; nothing is written when
  it is 0.\<close>

definition ReapSSHSessions :: "time \<Rightarrow> flush_env \<Rightarrow> Store \<Rightarrow> Store \<times> nat \<times> err option" where
  "ReapSSHSessions now e s =
     (let old = st_SSHSessions (state s);
          kept = mkeep (\<lambda>_ sess. \<not> (ssh_Revoked sess \<or> session_expired now sess)) old;
          n = mlen old - mlen kept in
      if n = 0 then (s, 0, None)
      else (case save e ((state s)\<lparr>st_SSHSessions := kept\<rparr>) s of (s', x) \<Rightarrow> (s', n, x)))"

section \<open>Looking a token up\<close>

lemma hashEqual_iff [simp]: "hashEqual a b \<longleftrightarrow> a = b"
  by (auto simp: hashEqual_def ConstantTimeCompare_def)

lemma HashToken_eq_iff: "HashToken H a = HashToken H b \<longleftrightarrow> H a = H b"
  by (auto simp: HashToken_def dest: EncodeToString_inj)

text \<open>No two supervisor tokens, and no two SSH sessions, have the same hash.\<close>

definition unique_token_hashes :: "State \<Rightarrow> bool" where
  "unique_token_hashes st \<longleftrightarrow>
     (\<forall>n n' r r'. mget (st_SandboxTokens st) n = Some r \<longrightarrow> mget (st_SandboxTokens st) n' = Some r' \<longrightarrow>
        tok_Hash r = tok_Hash r' \<longrightarrow> n = n')"

definition unique_session_hashes :: "State \<Rightarrow> bool" where
  "unique_session_hashes st \<longleftrightarrow>
     (\<forall>i i' x x'. mget (st_SSHSessions st) i = Some x \<longrightarrow> mget (st_SSHSessions st) i' = Some x' \<longrightarrow>
        ssh_TokenHash x = ssh_TokenHash x' \<longrightarrow> i = i')"

lemma find_mrange_NoneI:
  assumes "is_order ks m" and "\<And>k v. mget m k = Some v \<Longrightarrow> \<not> P (k, v)"
  shows "List.find P (mrange ks m) = None"
  using assms(2) set_mrange [OF assms(1)] by (auto simp: find_None_iff)

lemma find_mrange_SomeD:
  assumes "is_order ks m" and "List.find P (mrange ks m) = Some (k, v)"
  shows "mget m k = Some v" and "P (k, v)"
proof -
  from assms(2) have "(k, v) \<in> set (mrange ks m)" and "P (k, v)"
    by (auto simp: find_Some_iff in_set_conv_nth)
  then show "mget m k = Some v" and "P (k, v)"
    using set_mrange [OF assms(1)] by auto
qed

text \<open>A single entry satisfies the test: every order finds it.\<close>

lemma find_mrange_unique:
  assumes "is_order ks m" and "mget m k = Some v" and "P (k, v)"
    and "\<And>k' v'. mget m k' = Some v' \<Longrightarrow> P (k', v') \<Longrightarrow> k' = k"
  shows "List.find P (mrange ks m) = Some (k, v)"
proof (cases "List.find P (mrange ks m)")
  case None
  with assms(1-3) show ?thesis
    using set_mrange [OF assms(1)] by (auto simp: find_None_iff)
next
  case (Some x)
  obtain k' v' where x: "x = (k', v')" by (cases x)
  from find_mrange_SomeD [OF assms(1) Some [unfolded x]] assms(2,4) have "k' = k" "v' = v" by force+
  with Some x show ?thesis by simp
qed

lemma SandboxForToken_iff:
  assumes "is_order ks (st_SandboxTokens (state s))" and "unique_token_hashes (state s)"
  shows "SandboxForToken H ks tok s = Some name \<longleftrightarrow>
    tok \<noteq> [] \<and> GetSandbox s name \<noteq> None \<and>
    (\<exists>r. mget (st_SandboxTokens (state s)) name = Some r \<and> tok_Hash r = HashToken H tok)"
    (is "?L \<longleftrightarrow> ?R")
proof
  assume ?L
  then obtain r where "List.find (\<lambda>(name, rec). hashEqual (tok_Hash rec) (HashToken H tok))
      (mrange ks (st_SandboxTokens (state s))) = Some (name, r)"
    by (auto simp: SandboxForToken_def split: if_splits option.splits)
  from find_mrange_SomeD [OF assms(1) this] \<open>?L\<close> show ?R
    by (auto simp: SandboxForToken_def GetSandbox_def split: if_splits option.splits)
next
  assume R: ?R
  then obtain r where r: "mget (st_SandboxTokens (state s)) name = Some r" "tok_Hash r = HashToken H tok"
    by blast
  have "List.find (\<lambda>(name, rec). hashEqual (tok_Hash rec) (HashToken H tok))
      (mrange ks (st_SandboxTokens (state s))) = Some (name, r)"
    by (rule find_mrange_unique [OF assms(1) r(1)])
       (use r assms(2) in \<open>auto simp: unique_token_hashes_def\<close>)
  with R show ?L by (simp add: SandboxForToken_def GetSandbox_def)
qed

text \<open>The verdict of \<open>ValidateSSHSession\<close> on a session it found.\<close>

definition session_verdict :: "State \<Rightarrow> time \<Rightarrow> string \<Rightarrow> SSHSession \<Rightarrow> err option" where
  "session_verdict st now sandbox sess =
     (if ssh_Revoked sess then Some ErrSessionRevoked
      else if session_expired now sess then Some ErrSessionExpired
      else if ssh_Sandbox sess \<noteq> sandbox then Some ErrSessionSandbox
      else if mget (st_Sandboxes st) sandbox = None then Some ErrSessionNotFound
      else None)"

lemma ValidateSSHSession_found:
  assumes "is_order ks (st_SSHSessions (state s))" and "tok \<noteq> []"
    and "mget (st_SSHSessions (state s)) i = Some sess" and "ssh_TokenHash sess = HashToken H tok"
    and "\<And>i' x'. mget (st_SSHSessions (state s)) i' = Some x' \<Longrightarrow> ssh_TokenHash x' = HashToken H tok \<Longrightarrow> i' = i"
  shows "ValidateSSHSession H ks tok sandbox now s = (sess, session_verdict (state s) now sandbox sess)"
proof -
  have "List.find (\<lambda>(_, sess). hashEqual (ssh_TokenHash sess) (HashToken H tok))
      (mrange ks (st_SSHSessions (state s))) = Some (i, sess)"
    by (rule find_mrange_unique [OF assms(1,3)]) (use assms(4,5) in auto)
  with assms(2) show ?thesis
    by (auto simp: ValidateSSHSession_def session_verdict_def)
qed

lemma ValidateSSHSession_unknown:
  assumes "is_order ks (st_SSHSessions (state s))"
    and "\<And>i x. mget (st_SSHSessions (state s)) i = Some x \<Longrightarrow> ssh_TokenHash x \<noteq> HashToken H tok"
  shows "ValidateSSHSession H ks tok sandbox now s = (zero_session, Some ErrSessionNotFound)"
  using find_mrange_NoneI [OF assms(1), of "\<lambda>(_, sess). hashEqual (ssh_TokenHash sess) (HashToken H tok)"] assms(2)
  by (auto simp: ValidateSSHSession_def)

text \<open>A session that validates is in the table, live, for this sandbox, which exists.\<close>

lemma ValidateSSHSession_sound:
  assumes "is_order ks (st_SSHSessions (state s))"
    and "ValidateSSHSession H ks tok sandbox now s = (sess, None)"
  shows "tok \<noteq> [] \<and> (\<exists>i. mget (st_SSHSessions (state s)) i = Some sess) \<and>
    ssh_TokenHash sess = HashToken H tok \<and> \<not> ssh_Revoked sess \<and> \<not> session_expired now sess \<and>
    ssh_Sandbox sess = sandbox \<and> GetSandbox s sandbox \<noteq> None"
proof -
  from assms(2) obtain i where f: "List.find (\<lambda>(_, sess). hashEqual (ssh_TokenHash sess) (HashToken H tok))
      (mrange ks (st_SSHSessions (state s))) = Some (i, sess)"
    by (auto simp: ValidateSSHSession_def split: if_splits option.splits)
  from find_mrange_SomeD [OF assms(1) f] assms(2) f show ?thesis
    by (auto simp: ValidateSSHSession_def GetSandbox_def split: if_splits)
qed

section \<open>The operations on tokens and sessions\<close>

lemma issue_token_ok:
  "IssueSandboxToken H rnd now e name s = (s', Inr tok) \<longleftrightarrow>
     GetSandbox s name \<noteq> None \<and> flush_ok e \<and> (\<exists>b. rnd = Some b \<and> tok = EncodeToString b) \<and>
     s' = fst (save e ((state s)\<lparr>st_SandboxTokens :=
       mput name \<lparr>tok_Hash = HashToken H tok, tok_IssuedAtMS = UnixMilli now\<rparr>
         (mmake (st_SandboxTokens (state s)))\<rparr>) s)"
  by (auto simp: IssueSandboxToken_def GetSandbox_def newSecret_def save_result split: option.splits if_splits)

lemma create_session_ok:
  "CreateSSHSession H rnd1 rnd2 now e sandbox subject ttl s = (s', Inr (sess, tok)) \<Longrightarrow>
     GetSandbox s sandbox \<noteq> None \<and> flush_ok e \<and> (\<exists>b. rnd1 = Some b \<and> tok = EncodeToString b) \<and>
     ssh_Sandbox sess = sandbox \<and> ssh_TokenHash sess = HashToken H tok \<and> \<not> ssh_Revoked sess \<and>
     ssh_ExpiresAtMS sess = (if ttl > 0 then UnixMilli (now + ttl) else 0) \<and>
     s' = fst (save e ((state s)\<lparr>st_SSHSessions :=
       mput (ssh_ID sess) sess (mmake (st_SSHSessions (state s)))\<rparr>) s)"
  by (auto simp: CreateSSHSession_def GetSandbox_def newSecret_def Let_def save_result
      split: option.splits if_splits)


lemma RevokeSSHSession_eq:
  "RevokeSSHSession e sid s =
     (case mget (st_SSHSessions (state s)) sid of
        None \<Rightarrow> (s, Some ErrSessionNotFound)
      | Some sess \<Rightarrow> save e ((state s)\<lparr>st_SSHSessions :=
          mput sid (sess\<lparr>ssh_Revoked := True\<rparr>) (st_SSHSessions (state s))\<rparr>) s)"
  by (simp add: RevokeSSHSession_def mwrite_found split: option.split)

lemma revoke_get:
  "mget (st_SSHSessions (state (fst (RevokeSSHSession e sid s)))) i =
     (if i = sid then map_option (ssh_Revoked_update (\<lambda>_. True)) (mget (st_SSHSessions (state s)) i)
      else mget (st_SSHSessions (state s)) i)"
  by (auto simp: RevokeSSHSession_eq flush mget_mput mget_nonnil split: option.split)

lemma delete_get:
  "GetSandbox (fst (DeleteSandbox e name s)) n = (if n = name then None else GetSandbox s n)"
  "mget (st_SandboxTokens (state (fst (DeleteSandbox e name s)))) n =
     (if n = name then None else mget (st_SandboxTokens (state s)) n)"
  "mget (st_SSHSessions (state (fst (DeleteSandbox e name s)))) i =
     (case mget (st_SSHSessions (state s)) i of None \<Rightarrow> None
      | Some x \<Rightarrow> if ssh_Sandbox x \<noteq> name then Some x else None)"
  by (auto simp: DeleteSandbox_def GetSandbox_def flush gomap split: option.splits)

lemma upsert_keeps_credentials:
  "st_SandboxTokens (state (fst (UpsertSandbox now e sb s))) = st_SandboxTokens (state s)"
  "st_SSHSessions (state (fst (UpsertSandbox now e sb s))) = st_SSHSessions (state s)"
  by (simp_all add: UpsertSandbox_eq Let_def flush)

section \<open>Examples\<close>

definition ex_secret :: "char \<Rightarrow> string" where
  "ex_secret c = replicate 32 c"

text \<open>The example store with a supervisor token for \<open>demo\<close>, and with an SSH session for
  it. The identity stands in for the hash function.\<close>

definition ex_issue :: "char \<Rightarrow> Store \<Rightarrow> Store" where
  "ex_issue c s = fst (IssueSandboxToken (\<lambda>x. x) (Some (ex_secret c)) unix_epoch ex_flush ''demo'' s)"

definition ex_create :: "Store \<Rightarrow> Store \<times> (err + SSHSession \<times> string)" where
  "ex_create s = CreateSSHSession (\<lambda>x. x) (Some (ex_secret CHR ''s'')) (Some (ex_secret CHR ''i''))
     unix_epoch ex_flush ''demo'' ''alice'' Hour s"

abbreviation ex_token :: "char \<Rightarrow> string" where
  "ex_token c \<equiv> EncodeToString (ex_secret c)"

lemma ex_token_eq [simp]: "ex_token c = ex_token d \<longleftrightarrow> c = d"
  by (auto simp: ex_secret_def dest: EncodeToString_inj)

lemma HashToken_id_eq [simp]: "HashToken (\<lambda>x. x) a = HashToken (\<lambda>x. x) b \<longleftrightarrow> a = b"
  by (auto simp: HashToken_def dest: EncodeToString_inj)

lemma is_order_single [simp]: "is_order [k] (Some (fmupd k v fmempty))"
  by (auto simp: is_order_def mdom_def)

lemma is_order_empty [simp]: "is_order [] (Some fmempty)"
  by (auto simp: is_order_def mdom_def)

lemma ex_issue_eq:
  assumes "GetSandbox s ''demo'' \<noteq> None"
  shows "IssueSandboxToken (\<lambda>x. x) (Some (ex_secret c)) unix_epoch ex_flush ''demo'' s = (ex_issue c s, Inr (ex_token c))"
    and "state (ex_issue c s) = (state s)\<lparr>st_SandboxTokens := mput ''demo''
      \<lparr>tok_Hash = HashToken (\<lambda>x. x) (ex_token c), tok_IssuedAtMS = 0\<rparr> (mmake (st_SandboxTokens (state s))),
      st_UpdatedAt := unix_epoch\<rparr>"
  using assms
  by (auto simp: ex_issue_def IssueSandboxToken_def newSecret_def GetSandbox_def save_result flush UnixMilli_def)

lemma ex_store_tables [simp]:
  "st_SandboxTokens (state ex_store) = Some fmempty" "st_SSHSessions (state ex_store) = Some fmempty"
  by (simp_all add: ex_store_def initial_state_def)

lemma ex_issue_store:
  "state (ex_issue c ex_store) = (state ex_store)\<lparr>st_SandboxTokens :=
     Some (fmupd ''demo'' \<lparr>tok_Hash = HashToken (\<lambda>x. x) (ex_token c), tok_IssuedAtMS = 0\<rparr> fmempty),
     st_UpdatedAt := unix_epoch\<rparr>"
  "GetSandbox (ex_issue c ex_store) ''demo'' = Some (ex_sandbox ''demo'')"
  by (simp_all add: ex_issue_eq GetSandbox_def)

lemma fmupd_idem' [simp]: "fmupd k v (fmupd k v' m) = fmupd k v m"
  by (rule fmap_ext) simp

definition ex_session :: SSHSession where
  "ex_session = \<lparr>ssh_ID = ''ssh-'' @ take 16 (ex_token CHR ''i''), ssh_Sandbox = ''demo'',
     ssh_TokenHash = HashToken (\<lambda>x. x) (ex_token CHR ''s''), ssh_Subject = ''alice'', ssh_CreatedAtMS = 0,
     ssh_ExpiresAtMS = 3600000, ssh_Revoked = False\<rparr>"

lemma ex_create_store:
  "ex_create ex_store = (fst (ex_create ex_store), Inr (ex_session, ex_token CHR ''s''))"
  "state (fst (ex_create ex_store)) = (state ex_store)\<lparr>
     st_SSHSessions := Some (fmupd (ssh_ID ex_session) ex_session fmempty), st_UpdatedAt := unix_epoch\<rparr>"
  by (simp_all add: ex_create_def CreateSSHSession_def newSecret_def save_result flush UnixMilli_def Hour_def
      ex_session_def Let_def)

section \<open>Properties\<close>

text \<open>
  C10: rotating a supervisor token. After \<open>IssueSandboxToken\<close> succeeds, the new token
  authenticates the sandbox, every token that authenticated it before authenticates nobody,
  and the tokens of the other sandboxes are as they were. (The new token's hash is none of
  the stored ones, and the map is ranged over in any order.)
\<close>

theorem token_rotation:
  assumes "IssueSandboxToken H (Some b) now e name s = (s', Inr tok)" and "length b = 32"
    and "unique_token_hashes (state s)"
    and "\<forall>n r. mget (st_SandboxTokens (state s)) n = Some r \<longrightarrow> tok_Hash r \<noteq> HashToken H tok"
    and "is_order ks (st_SandboxTokens (state s))" and "is_order ks' (st_SandboxTokens (state s'))"
  shows "SandboxForToken H ks' tok s' = Some name \<and>
    (\<forall>t. SandboxForToken H ks t s = Some name \<longrightarrow> SandboxForToken H ks' t s' = None) \<and>
    (\<forall>t n. n \<noteq> name \<longrightarrow> (SandboxForToken H ks' t s' = Some n \<longleftrightarrow> SandboxForToken H ks t s = Some n))"
proof -
  from assms(1) have ok: "GetSandbox s name \<noteq> None" "tok = EncodeToString b"
    and s': "s' = fst (save e ((state s)\<lparr>st_SandboxTokens :=
       mput name \<lparr>tok_Hash = HashToken H tok, tok_IssuedAtMS = UnixMilli now\<rparr>
         (mmake (st_SandboxTokens (state s)))\<rparr>) s)"
    by (auto simp: issue_token_ok)
  from ok(2) assms(2) have tok: "tok \<noteq> []" by auto
  have toks: "mget (st_SandboxTokens (state s')) n =
      (if n = name then Some \<lparr>tok_Hash = HashToken H tok, tok_IssuedAtMS = UnixMilli now\<rparr>
       else mget (st_SandboxTokens (state s)) n)" for n
    by (simp add: s' flush gomap)
  have get: "GetSandbox s' n = GetSandbox s n" for n
    by (simp add: s' GetSandbox_def flush)
  have uniq: "unique_token_hashes (state s')"
    using assms(3,4) unfolding unique_token_hashes_def toks by (fastforce split: if_splits)
  note iff = SandboxForToken_iff [OF assms(6) uniq] SandboxForToken_iff [OF assms(5,3)]
  have "SandboxForToken H ks' t s' = None" if "SandboxForToken H ks t s = Some name" for t
  proof (cases "SandboxForToken H ks' t s'")
    case (Some n)
    with that assms(3,4) show ?thesis
      by (auto simp: iff toks unique_token_hashes_def split: if_splits)
  qed simp
  with ok tok show ?thesis by (auto simp: iff toks get)
qed

theorem token_rotation_witness:
  "SandboxForToken (\<lambda>x. x) [''demo''] (ex_token CHR ''a'') (ex_issue CHR ''a'' ex_store) = Some ''demo'' \<and>
   SandboxForToken (\<lambda>x. x) [''demo''] (ex_token CHR ''b'') (ex_issue CHR ''b'' (ex_issue CHR ''a'' ex_store)) = Some ''demo'' \<and>
   SandboxForToken (\<lambda>x. x) [''demo''] (ex_token CHR ''a'') (ex_issue CHR ''b'' (ex_issue CHR ''a'' ex_store)) = None"
proof -
  let ?s = "ex_issue CHR ''a'' ex_store"
  have 1: "SandboxForToken (\<lambda>x. x) [''demo''] (ex_token CHR ''a'') ?s = Some ''demo''"
    using token_rotation [OF ex_issue_eq(1) [of ex_store "CHR ''a''"], of "[]" "[''demo'']"]
    by (simp add: ex_issue_store ex_secret_def unique_token_hashes_def)
  have "length (ex_secret CHR ''b'') = 32" by (simp add: ex_secret_def)
  moreover have "IssueSandboxToken (\<lambda>x. x) (Some (ex_secret CHR ''b'')) unix_epoch ex_flush ''demo'' ?s =
      (ex_issue CHR ''b'' ?s, Inr (ex_token CHR ''b''))"
    by (rule ex_issue_eq) (simp add: ex_issue_store)
  moreover have "unique_token_hashes (state ?s)"
    by (auto simp: ex_issue_store unique_token_hashes_def split: if_splits)
  moreover have "\<forall>n r. mget (st_SandboxTokens (state ?s)) n = Some r \<longrightarrow> tok_Hash r \<noteq> HashToken (\<lambda>x. x) (ex_token CHR ''b'')"
    by (auto simp: ex_issue_store split: if_splits)
  moreover have "is_order [''demo''] (st_SandboxTokens (state ?s))"
    by (simp add: ex_issue_store)
  moreover have "is_order [''demo''] (st_SandboxTokens (state (ex_issue CHR ''b'' ?s)))"
    by (simp add: ex_issue_eq ex_issue_store)
  ultimately show ?thesis
    using 1 token_rotation [of "\<lambda>x. x" "ex_secret CHR ''b''" unix_epoch ex_flush "''demo''" ?s] by blast
qed

text \<open>
  C11: deleting a sandbox revokes its credentials for good. A supervisor token or SSH session
  token that was accepted for the sandbox is not accepted after \<open>DeleteSandbox\<close>, not even
  once a sandbox of the same name is registered again.
\<close>

theorem delete_revokes_credentials:
  assumes "unique_token_hashes (state s)" and "unique_session_hashes (state s)"
    and "s' = fst (UpsertSandbox now e' sb (fst (DeleteSandbox e name s)))"
    and "is_order ks (st_SandboxTokens (state s))" and "is_order ks' (st_SandboxTokens (state s'))"
    and "is_order js (st_SSHSessions (state s))" and "is_order js' (st_SSHSessions (state s'))"
  shows "(SandboxForToken H ks t s = Some name \<longrightarrow> SandboxForToken H ks' t s' = None) \<and>
    (snd (ValidateSSHSession H js t name t0 s) = None \<longrightarrow>
       snd (ValidateSSHSession H js' t name t1 s') = Some ErrSessionNotFound)"
proof -
  have toks: "mget (st_SandboxTokens (state s')) n =
      (if n = name then None else mget (st_SandboxTokens (state s)) n)" for n
    by (simp add: assms(3) upsert_keeps_credentials delete_get)
  have sess: "mget (st_SSHSessions (state s')) i =
     (case mget (st_SSHSessions (state s)) i of None \<Rightarrow> None
      | Some x \<Rightarrow> if ssh_Sandbox x \<noteq> name then Some x else None)" for i
    by (simp add: assms(3) upsert_keeps_credentials delete_get)
  have uniq: "unique_token_hashes (state s')"
    using assms(1) unfolding unique_token_hashes_def toks by (metis option.distinct(1))
  have "SandboxForToken H ks' t s' = None" if "SandboxForToken H ks t s = Some name"
  proof (cases "SandboxForToken H ks' t s'")
    case (Some n)
    with that assms(1) show ?thesis
      by (auto simp: SandboxForToken_iff [OF assms(5) uniq] SandboxForToken_iff [OF assms(4,1)]
          toks unique_token_hashes_def split: if_splits)
  qed simp
  moreover have "snd (ValidateSSHSession H js' t name t1 s') = Some ErrSessionNotFound"
    if v: "snd (ValidateSSHSession H js t name t0 s) = None"
  proof -
    obtain x where "ValidateSSHSession H js t name t0 s = (x, None)"
      using v by (cases "ValidateSSHSession H js t name t0 s") auto
    from ValidateSSHSession_sound [OF assms(6) this] obtain i where
      x: "mget (st_SSHSessions (state s)) i = Some x" "ssh_TokenHash x = HashToken H t" "ssh_Sandbox x = name"
      by blast
    have "ssh_TokenHash y \<noteq> HashToken H t" if "mget (st_SSHSessions (state s')) j = Some y" for j y
    proof
      assume y: "ssh_TokenHash y = HashToken H t"
      from that have "mget (st_SSHSessions (state s)) j = Some y" "ssh_Sandbox y \<noteq> name"
        by (auto simp: sess split: option.splits if_splits)
      with x y assms(2) have "y = x"
        unfolding unique_session_hashes_def by (metis option.inject)
      with x \<open>ssh_Sandbox y \<noteq> name\<close> show False by simp
    qed
    from ValidateSSHSession_unknown [OF assms(7) this] show ?thesis by simp
  qed
  ultimately show ?thesis by blast
qed

theorem delete_revokes_credentials_witness:
  "SandboxForToken (\<lambda>x. x) [''demo''] (ex_token CHR ''a'') (ex_issue CHR ''a'' ex_store) = Some ''demo'' \<and>
   SandboxForToken (\<lambda>x. x) [] (ex_token CHR ''a'')
     (fst (UpsertSandbox 5 ex_flush (ex_sandbox ''demo'') (fst (DeleteSandbox ex_flush ''demo'' (ex_issue CHR ''a'' ex_store))))) = None"
proof -
  let ?s = "ex_issue CHR ''a'' ex_store"
  let ?s' = "fst (UpsertSandbox 5 ex_flush (ex_sandbox ''demo'') (fst (DeleteSandbox ex_flush ''demo'' ?s)))"
  have tok: "SandboxForToken (\<lambda>x. x) [''demo''] (ex_token CHR ''a'') ?s = Some ''demo''"
    by (simp add: SandboxForToken_def ex_issue_store ex_secret_def)
  have "unique_token_hashes (state ?s)" "unique_session_hashes (state ?s)"
    by (auto simp: ex_issue_store unique_token_hashes_def unique_session_hashes_def split: if_splits)
  moreover have "is_order [''demo''] (st_SandboxTokens (state ?s))" "is_order [] (st_SSHSessions (state ?s))"
    by (simp_all add: ex_issue_store)
  moreover have "is_order [] (st_SandboxTokens (state ?s'))" "is_order [] (st_SSHSessions (state ?s'))"
    by (simp_all add: is_order_def mdom_def upsert_keeps_credentials delete_get ex_issue_store)
  ultimately show ?thesis
    using tok delete_revokes_credentials [of ?s ?s' 5 ex_flush "ex_sandbox ''demo''" ex_flush "''demo''"] by blast
qed

text \<open>
  C12: the life of an SSH session. The token \<open>CreateSSHSession\<close> returns validates for the
  session's sandbox until the time to live has passed and not afterwards, and is refused for
  every other sandbox; without a positive time to live it does not expire. After
  \<open>RevokeSSHSession\<close> with the session's id it is refused as revoked, for every sandbox and
  at any time.
\<close>

theorem session_lifecycle:
  assumes "CreateSSHSession H (Some b) rnd2 now e sandbox subject ttl s = (s', Inr (sess, tok))"
    and "length b = 32"
    and "\<forall>i x. mget (st_SSHSessions (state s)) i = Some x \<longrightarrow> ssh_TokenHash x \<noteq> HashToken H tok"
    and "is_order ks (st_SSHSessions (state s'))"
    and "s'' = fst (RevokeSSHSession e' (ssh_ID sess) s')" and "is_order ks' (st_SSHSessions (state s''))"
  shows "ValidateSSHSession H ks tok sb t s' =
      (sess, if ttl > 0 \<and> UnixMilli (now + ttl) > 0 \<and> UnixMilli t \<ge> UnixMilli (now + ttl) then Some ErrSessionExpired
             else if sb \<noteq> sandbox then Some ErrSessionSandbox else None) \<and>
    ValidateSSHSession H ks' tok sb t s'' = (sess\<lparr>ssh_Revoked := True\<rparr>, Some ErrSessionRevoked)"
proof -
  note ok = create_session_ok [OF assms(1)]
  from ok assms(2) have tok: "tok \<noteq> []" by auto
  have sess: "mget (st_SSHSessions (state s')) i =
      (if i = ssh_ID sess then Some sess else mget (st_SSHSessions (state s)) i)" for i
    using ok by (simp add: flush gomap)
  from ok have hash: "ssh_TokenHash sess = HashToken H tok" by blast
  have "ValidateSSHSession H ks tok sb t s' = (sess, session_verdict (state s') t sb sess)"
    by (rule ValidateSSHSession_found [OF assms(4) tok, of "ssh_ID sess"])
       (use sess hash assms(3) in \<open>auto split: if_splits\<close>)
  moreover have "st_Sandboxes (state s') = st_Sandboxes (state s)"
    using ok by (simp add: flush)
  ultimately have live: "ValidateSSHSession H ks tok sb t s' =
      (sess, if ttl > 0 \<and> UnixMilli (now + ttl) > 0 \<and> UnixMilli t \<ge> UnixMilli (now + ttl) then Some ErrSessionExpired
             else if sb \<noteq> sandbox then Some ErrSessionSandbox else None)"
    using ok by (auto simp: session_verdict_def session_expired_def GetSandbox_def)
  let ?x = "sess\<lparr>ssh_Revoked := True\<rparr>"
  have "ValidateSSHSession H ks' tok sb t s'' = (?x, session_verdict (state s'') t sb ?x)"
    by (rule ValidateSSHSession_found [OF assms(6) tok, of "ssh_ID sess"])
       (use sess hash assms(3,5) in \<open>auto simp: revoke_get split: if_splits\<close>)
  with live show ?thesis by (simp add: session_verdict_def)
qed

theorem session_lifecycle_witness:
  "ValidateSSHSession (\<lambda>x. x) [ssh_ID ex_session] (ex_token CHR ''s'') ''demo'' (unix_epoch + Hour - 1) (fst (ex_create ex_store)) = (ex_session, None) \<and>
   ValidateSSHSession (\<lambda>x. x) [ssh_ID ex_session] (ex_token CHR ''s'') ''demo'' (unix_epoch + Hour) (fst (ex_create ex_store)) = (ex_session, Some ErrSessionExpired) \<and>
   ValidateSSHSession (\<lambda>x. x) [ssh_ID ex_session] (ex_token CHR ''s'') ''other'' unix_epoch (fst (ex_create ex_store)) = (ex_session, Some ErrSessionSandbox) \<and>
   ValidateSSHSession (\<lambda>x. x) [ssh_ID ex_session] (ex_token CHR ''s'') ''demo'' unix_epoch
     (fst (RevokeSSHSession ex_flush (ssh_ID ex_session) (fst (ex_create ex_store)))) =
     (ex_session\<lparr>ssh_Revoked := True\<rparr>, Some ErrSessionRevoked)"
proof -
  let ?r = "fst (RevokeSSHSession ex_flush (ssh_ID ex_session) (fst (ex_create ex_store)))"
  have c: "CreateSSHSession (\<lambda>x. x) (Some (ex_secret CHR ''s'')) (Some (ex_secret CHR ''i''))
     unix_epoch ex_flush ''demo'' ''alice'' Hour ex_store =
     (fst (ex_create ex_store), Inr (ex_session, ex_token CHR ''s''))"
    using ex_create_store(1) unfolding ex_create_def [symmetric] .
  have o: "is_order [ssh_ID ex_session] (st_SSHSessions (state (fst (ex_create ex_store))))"
    by (simp add: ex_create_store(2))
  have r: "is_order [ssh_ID ex_session] (st_SSHSessions (state ?r))"
    using o by (simp add: is_order_def mdom_def revoke_get ex_create_store(2))
  have secret: "length (ex_secret CHR ''s'') = 32"
    by (simp add: ex_secret_def)
  have v: "ValidateSSHSession (\<lambda>x. x) [ssh_ID ex_session] (ex_token CHR ''s'') sb t (fst (ex_create ex_store)) =
    (ex_session, if UnixMilli t \<ge> 3600000 then Some ErrSessionExpired
           else if sb \<noteq> ''demo'' then Some ErrSessionSandbox else None) \<and>
    ValidateSSHSession (\<lambda>x. x) [ssh_ID ex_session] (ex_token CHR ''s'') sb t ?r =
      (ex_session\<lparr>ssh_Revoked := True\<rparr>, Some ErrSessionRevoked)" for sb t
    using session_lifecycle [OF c _ _ o refl r, of sb t]
    by (simp add: secret UnixMilli_def Hour_def)
  show ?thesis
    by (simp add: v UnixMilli_def Hour_def)
qed

text \<open>
  C16: reaping. \<open>ReapSSHSessions\<close> deletes exactly the sessions that are revoked or expired
  at the given time, leaves every other record of the table as it is and returns how many it
  deleted.
\<close>

theorem reap_exact:
  "fst (snd (ReapSSHSessions now e s)) =
     card {i. \<exists>x. mget (st_SSHSessions (state s)) i = Some x \<and> (ssh_Revoked x \<or> session_expired now x)} \<and>
   mget (st_SSHSessions (state (fst (ReapSSHSessions now e s)))) i =
     (case mget (st_SSHSessions (state s)) i of None \<Rightarrow> None
      | Some x \<Rightarrow> if ssh_Revoked x \<or> session_expired now x then None else Some x)"
proof -
  let ?doomed = "{i. \<exists>x. mget (st_SSHSessions (state s)) i = Some x \<and> (ssh_Revoked x \<or> session_expired now x)}"
  have card: "mlen (st_SSHSessions (state s)) -
      mlen (mkeep (\<lambda>_ x. \<not> (ssh_Revoked x \<or> session_expired now x)) (st_SSHSessions (state s))) = card ?doomed"
    by (simp add: mlen_mkeep)
  have fin: "finite ?doomed"
    by (rule finite_subset [OF _ finite_mdom [of "st_SSHSessions (state s)"]]) (auto simp: mdom_def)
  show ?thesis
  proof (cases "card ?doomed = 0")
    case True
    with card have "ReapSSHSessions now e s = (s, 0, None)"
      by (simp add: ReapSSHSessions_def Let_def)
    moreover from True fin have "?doomed = {}" by simp
    then have "\<not> (ssh_Revoked x \<or> session_expired now x)" if "mget (st_SSHSessions (state s)) i = Some x" for x
      using that by blast
    ultimately show ?thesis
      using True by (simp split: option.split)
  next
    case False
    let ?kept = "mkeep (\<lambda>_ x. \<not> (ssh_Revoked x \<or> session_expired now x)) (st_SSHSessions (state s))"
    from False card have "ReapSSHSessions now e s =
        (fst (save e ((state s)\<lparr>st_SSHSessions := ?kept\<rparr>) s), card ?doomed,
         snd (save e ((state s)\<lparr>st_SSHSessions := ?kept\<rparr>) s))"
      unfolding ReapSSHSessions_def Let_def by (simp add: case_prod_unfold)
    then show ?thesis
      by (auto simp: flush gomap split: option.split)
  qed
qed

end
