(* ===== verification/Auth.thy ===== *)
theory Auth
  imports Http Store_Auth
begin

text \<open>
  \<open>internal/httpapi/auth.go\<close>: the authentication middleware, the allowlist of supervisor
  tokens and the loopback checks. The paths of package \<open>relayproto\<close>, the validator of
  package \<open>idp\<close> and \<open>url.Parse\<close> are arguments. Whether a request passes, and with which
  principal, is the value of \<open>withAuth\<close>; the handlers behind it are in the theories that follow.
\<close>

section \<open>Principals\<close>

datatype PrincipalKind = PrincipalNone | PrincipalUser | PrincipalSandbox

fun iota :: "PrincipalKind \<Rightarrow> nat" where
  "iota PrincipalNone = 0"
| "iota PrincipalUser = 1"
| "iota PrincipalSandbox = 2"

lemma iota_inj: "iota a = iota b \<longleftrightarrow> a = b"
  by (cases a; cases b) simp_all

text \<open>The kinds are the numbers of the constant block, with their order.\<close>

instantiation PrincipalKind :: linorder
begin

definition less_eq_PrincipalKind :: "PrincipalKind \<Rightarrow> PrincipalKind \<Rightarrow> bool" where
  "a \<le> b \<longleftrightarrow> iota a \<le> iota b"

definition less_PrincipalKind :: "PrincipalKind \<Rightarrow> PrincipalKind \<Rightarrow> bool" where
  "a < b \<longleftrightarrow> iota a < iota b"

instance
  by standard (auto simp: less_eq_PrincipalKind_def less_PrincipalKind_def iota_inj)

end

record Principal =
  p_Kind :: PrincipalKind
  p_Subject :: string
  p_IDP :: string
  p_Sandbox :: string

definition zero_principal :: Principal where
  "zero_principal = \<lparr>p_Kind = PrincipalNone, p_Subject = [], p_IDP = [], p_Sandbox = []\<rparr>"

record relayproto =
  rp_PathSSHConnect :: string
  rp_PathSupervisorConnect :: string
  rp_PathSupervisorRelay :: string
  rp_HeaderSandboxID :: string

record Claims =
  cl_Subject :: string
  cl_Email :: string

record AuthOptions =
  ao_OIDC :: "(string \<Rightarrow> Claims option) option"
  ao_AllowUnauthenticated :: bool

section \<open>The middleware\<close>

definition bearerToken :: "Request \<Rightarrow> string" where
  "bearerToken r =
     (let h = HeaderGet r ''Authorization'' in
      if HasPrefix (ToLower h) ''bearer '' then TrimSpace (drop 7 h) else [])"

definition isPublicRoute :: "relayproto \<Rightarrow> string \<Rightarrow> bool" where
  "isPublicRoute rp path \<longleftrightarrow>
     path \<in> {''/healthz'', ''/v1/healthz'', ''/v1/auth/oidc'', ''/v1/auth/login'', rp_PathSSHConnect rp}"

definition oidc_subject :: "Claims \<Rightarrow> string" where
  "oidc_subject claims =
     (let sub = cl_Subject claims;
          sub = (if sub = [] then cl_Email claims else sub) in
      if sub = [] then ''oidc-user'' else sub)"

definition resolvePrincipal ::
    "(string \<Rightarrow> string) \<Rightarrow> string list \<Rightarrow> (string \<Rightarrow> Claims option) option \<Rightarrow> Request \<Rightarrow> Store \<Rightarrow> Principal \<times> bool" where
  "resolvePrincipal H ks validator r st =
     (let tok = bearerToken r in
      if tok = [] then (zero_principal, True)
      else
        (case (case validator of None \<Rightarrow> None | Some v \<Rightarrow> v tok) of
           Some claims \<Rightarrow>
             (\<lparr>p_Kind = PrincipalUser, p_Subject = oidc_subject claims, p_IDP = ''oidc'', p_Sandbox = []\<rparr>, True)
         | None \<Rightarrow>
             let local = AuthToken st in
             if local \<noteq> [] \<and> ConstantTimeCompare tok local = 1
             then (\<lparr>p_Kind = PrincipalUser, p_Subject = ''local-dev'', p_IDP = ''local'', p_Sandbox = []\<rparr>, True)
             else
               (case SandboxForToken H ks tok st of
                  Some name \<Rightarrow>
                    (\<lparr>p_Kind = PrincipalSandbox, p_Subject = ''sandbox:'' @ name, p_IDP = ''sandbox'', p_Sandbox = name\<rparr>, True)
                | None \<Rightarrow> (zero_principal, False))))"

text \<open>The second \<open>switch\<close> of \<open>sandboxRouteAllowed\<close>, on the parts of the path after the name.\<close>

definition own_route_allowed :: "string \<Rightarrow> string list \<Rightarrow> bool" where
  "own_route_allowed meth parts \<longleftrightarrow>
     (if length parts = 1 \<and> parts ! 0 = ''secrets'' then meth = MethodGet
      else if length parts = 1 \<and> parts ! 0 = ''logs'' then meth = MethodPost
      else if length parts = 1 \<and> (parts ! 0 = ''policy'' \<or> parts ! 0 = ''effective-policy'') then meth = MethodGet
      else if length parts = 1 \<and> parts ! 0 = ''proposals'' then meth = MethodPost
      else if length parts = 2 \<and> parts ! 0 = ''proposals'' then meth = MethodGet
      else False)"

definition sandboxRouteAllowed :: "relayproto \<Rightarrow> Request \<Rightarrow> string \<Rightarrow> bool" where
  "sandboxRouteAllowed rp r sandbox \<longleftrightarrow>
     (let path = rq_Path r; meth = rq_Method r in
      if path = rp_PathSupervisorConnect rp then meth = MethodGet \<and> QueryGet r ''sandbox'' = sandbox
      else if HasPrefix path (rp_PathSupervisorRelay rp) then meth = MethodGet
      else if path = ''/v1/whoami'' then meth = MethodGet
      else
        let pre = ''/v1/sandboxes/'' @ sandbox @ ''/'' in
        if \<not> HasPrefix path pre then False
        else
          own_route_allowed meth (Split (Trim (TrimPrefix path pre) ''/'') CHR ''/''))"

datatype auth_result = Serve Principal | Denied nat string

definition withAuth ::
    "relayproto \<Rightarrow> (string \<Rightarrow> string) \<Rightarrow> string list \<Rightarrow> AuthOptions \<Rightarrow> Request \<Rightarrow> Store \<Rightarrow> auth_result" where
  "withAuth rp H ks opt r st =
     (if isPublicRoute rp (rq_Path r) then Serve zero_principal
      else
        (case resolvePrincipal H ks (ao_OIDC opt) r st of
           (p, valid) \<Rightarrow>
             if \<not> valid then Denied StatusUnauthorized ''invalid bearer token''
             else if p_Kind p = PrincipalNone \<and> \<not> ao_AllowUnauthenticated opt
             then Denied StatusUnauthorized ''authentication required (whaleshell gateway login)''
             else
               let p = (if p_Kind p = PrincipalNone
                        then \<lparr>p_Kind = PrincipalUser, p_Subject = ''anonymous'', p_IDP = ''none'', p_Sandbox = []\<rparr> else p) in
               if p_Kind p = PrincipalSandbox \<and> \<not> sandboxRouteAllowed rp r (p_Sandbox p)
               then Denied StatusForbidden ''forbidden for sandbox principal''
               else Serve p))"

section \<open>Loopback\<close>

definition isLoopbackHostHeader :: "string \<Rightarrow> bool" where
  "isLoopbackHostHeader h =
     (let h = Trim (host_only h) ''[]'' in
      if EqualFold h ''localhost'' then True
      else (case ParseIP h of None \<Rightarrow> False | Some ip \<Rightarrow> IsLoopback ip))"

definition isLoopbackRequest :: "Request \<Rightarrow> bool" where
  "isLoopbackRequest r =
     (if HeaderGet r ''X-Forwarded-For'' \<noteq> [] \<or> HeaderGet r ''Forwarded'' \<noteq> [] then False
      else
        (case SplitHostPort (rq_RemoteAddr r) of
           None \<Rightarrow> False
         | Some (host, _) \<Rightarrow>
             (case ParseIP host of
                None \<Rightarrow> False
              | Some ip \<Rightarrow> if \<not> IsLoopback ip then False else isLoopbackHostHeader (rq_Host r))))"

record URL =
  u_Scheme :: string
  u_User :: bool
  u_Hostname :: string
  u_Port :: string

definition isLoopbackRedirect :: "(string \<Rightarrow> URL option) \<Rightarrow> string \<Rightarrow> bool" where
  "isLoopbackRedirect parse raw =
     (case parse raw of
        None \<Rightarrow> False
      | Some u \<Rightarrow>
          if u_Scheme u \<noteq> ''http'' \<or> u_User u \<or> u_Port u = [] then False
          else u_Hostname u \<in> {''127.0.0.1'', ''localhost'', ''::1''})"

section \<open>The route of a sandbox path\<close>

text \<open>
  The handler of \<open>/v1/sandboxes/\<close> in \<open>gateway.go\<close>: the name, and the rest of the path when
  there is one.
\<close>

datatype sandbox_path = BadName | SandboxItem string | SandboxSub string string

definition sandbox_route :: "string \<Rightarrow> sandbox_path" where
  "sandbox_route path =
     (let rest = Trim (TrimPrefix path ''/v1/sandboxes/'') ''/'' in
      if rest = [] then BadName
      else
        (case Cut rest CHR ''/'' of
           (name, sub, hasSub) \<Rightarrow>
             if name = [] then BadName
             else if hasSub then SandboxSub name sub
             else SandboxItem name))"

section \<open>Lemmas\<close>

lemma TrimR_Cons:
  assumes "\<exists>c\<in>set s. c \<notin> set cs"
  shows "rev (dropWhile (\<lambda>c. c \<in> set cs) (rev (a @ s))) = a @ rev (dropWhile (\<lambda>c. c \<in> set cs) (rev s))"
  using assms by (auto simp: dropWhile_append)

lemma Trim_append_left:
  assumes "a \<noteq> []" "hd a \<notin> set cs" "\<exists>c\<in>set s. c \<notin> set cs"
  shows "Trim (a @ s) cs = a @ rev (dropWhile (\<lambda>c. c \<in> set cs) (rev s))"
proof -
  have "dropWhile (\<lambda>c. c \<in> set cs) (a @ s) = a @ s"
    using assms(1,2) by (cases a) simp_all
  then show ?thesis unfolding Trim_def using TrimR_Cons [OF assms(3)] by simp
qed

lemma dropWhile_rtrim:
  "dropWhile P (rev (dropWhile P (rev s))) = rev (dropWhile P (rev (dropWhile P s)))"
proof (cases "\<forall>c\<in>set s. P c")
  case True
  then have e: "dropWhile P s = []" "dropWhile P (rev s) = []" by (simp_all add: dropWhile_eq_Nil_conv)
  show ?thesis unfolding e by simp
next
  case False
  then have ne: "dropWhile P s \<noteq> []" by (auto simp: dropWhile_eq_Nil_conv)
  then have "\<not> P (hd (dropWhile P s))" by (rule hd_dropWhile)
  then have "\<exists>c\<in>set (dropWhile P s). \<not> P c" using ne by (metis hd_in_set)
  then have "dropWhile P (rev (dropWhile P s) @ rev (takeWhile P s)) = dropWhile P (rev (dropWhile P s)) @ rev (takeWhile P s)"
    by (auto simp: dropWhile_append)
  then have "dropWhile P (rev s) = dropWhile P (rev (dropWhile P s)) @ rev (takeWhile P s)"
    by (metis rev_append takeWhile_dropWhile_id)
  moreover have "dropWhile P (takeWhile P s @ rev (dropWhile P (rev (dropWhile P s)))) =
      dropWhile P (rev (dropWhile P (rev (dropWhile P s))))"
    by (subst dropWhile_append2) (auto dest: set_takeWhileD)
  moreover have "dropWhile P (rev (dropWhile P (rev (dropWhile P s)))) = rev (dropWhile P (rev (dropWhile P s)))"
  proof -
    obtain c t where ct: "dropWhile P s = c # t" "\<not> P c"
      using ne \<open>\<not> P (hd (dropWhile P s))\<close> by (cases "dropWhile P s") auto
    then have "rev (dropWhile P (rev (c # t))) = c # rev (dropWhile P (rev t))"
      by (simp add: dropWhile_append)
    then show ?thesis using ct by simp
  qed
  ultimately show ?thesis by simp
qed

lemma Trim_rtrim: "Trim (rev (dropWhile (\<lambda>c. c \<in> set cs) (rev s))) cs = Trim s cs"
proof -
  have "dropWhile P (rev (rev (dropWhile P t))) = dropWhile P t" for P :: "char \<Rightarrow> bool" and t
    by (simp add: dropWhile_idem)
  then show ?thesis unfolding Trim_def dropWhile_rtrim by simp
qed

lemma Trim_all: "\<forall>c\<in>set s. c \<in> set cs \<Longrightarrow> Trim s cs = []"
proof -
  assume "\<forall>c\<in>set s. c \<in> set cs"
  then have e: "dropWhile (\<lambda>c. c \<in> set cs) s = []" by (simp add: dropWhile_eq_Nil_conv)
  show ?thesis unfolding Trim_def e by simp
qed

text \<open>The handler splits a path under \<open>/v1/sandboxes/NAME/\<close> where the allowlist does.\<close>

lemma sandbox_route_sub:
  assumes "sb \<noteq> []" "CHR ''/'' \<notin> set sb" "Trim rest ''/'' \<noteq> []"
  shows "\<exists>sub. sandbox_route (''/v1/sandboxes/'' @ sb @ ''/'' @ rest) = SandboxSub sb sub \<and>
               Trim sub ''/'' = Trim rest ''/''"
proof -
  have ex: "\<exists>c\<in>set rest. c \<notin> set ''/''" using Trim_all [of rest "''/''"] assms(3) by blast
  let ?r = "rev (dropWhile (\<lambda>c. c \<in> set ''/'') (rev rest))"
  have pre: "TrimPrefix (''/v1/sandboxes/'' @ sb @ ''/'' @ rest) ''/v1/sandboxes/'' = (sb @ ''/'') @ rest"
    using TrimPrefix_append [of "''/v1/sandboxes/''" "sb @ ''/'' @ rest"] by simp
  have "hd (sb @ ''/'') \<notin> set ''/''" using assms(1,2) by (cases sb) auto
  then have "Trim ((sb @ ''/'') @ rest) ''/'' = (sb @ ''/'') @ ?r"
    by (intro Trim_append_left [OF _ _ ex]) simp_all
  then have "sandbox_route (''/v1/sandboxes/'' @ sb @ ''/'' @ rest) = SandboxSub sb ?r"
    using Cut_append [OF assms(2), of ?r] assms(1) unfolding sandbox_route_def pre by simp
  then show ?thesis using Trim_rtrim [of "''/''" rest] by blast
qed

text \<open>The requests on its own sandbox that a supervisor token is good for.\<close>

definition supervisor_calls :: "(string \<times> string list) set" where
  "supervisor_calls = {(MethodGet, [''secrets'']), (MethodPost, [''logs'']), (MethodGet, [''policy'']),
     (MethodGet, [''effective-policy'']), (MethodPost, [''proposals''])} \<union> {(MethodGet, [''proposals'', x]) | x. True}"

lemma length_one_conv: "length xs = 1 \<and> xs ! 0 = a \<longleftrightarrow> xs = [a]"
  by (cases xs) auto

lemma length_two_conv: "length xs = 2 \<and> xs ! 0 = a \<longleftrightarrow> (\<exists>b. xs = [a, b])"
  by (cases xs; cases "tl xs") auto

lemma own_route_allowed_calls: "own_route_allowed meth parts \<longleftrightarrow> (meth, parts) \<in> supervisor_calls"
  unfolding own_route_allowed_def supervisor_calls_def conj_disj_distribL length_one_conv length_two_conv
  by auto

lemma allowed_parts:
  assumes "sandboxRouteAllowed rp r sb" "rq_Path r \<noteq> rp_PathSupervisorConnect rp"
    "\<not> HasPrefix (rq_Path r) (rp_PathSupervisorRelay rp)" "rq_Path r \<noteq> ''/v1/whoami''"
  shows "\<exists>rest. rq_Path r = ''/v1/sandboxes/'' @ sb @ ''/'' @ rest \<and>
    (rq_Method r, Split (Trim rest ''/'') CHR ''/'') \<in> supervisor_calls"
proof -
  let ?pre = "''/v1/sandboxes/'' @ sb @ ''/''"
  have "HasPrefix (rq_Path r) ?pre"
    using assms by (auto simp: sandboxRouteAllowed_def Let_def split: if_splits)
  then obtain rest where path: "rq_Path r = ?pre @ rest" by (rule HasPrefixE)
  have "TrimPrefix (rq_Path r) ?pre = rest" unfolding path by (rule TrimPrefix_append)
  with assms have "(rq_Method r, Split (Trim rest ''/'') CHR ''/'') \<in> supervisor_calls"
    by (auto simp: sandboxRouteAllowed_def Let_def own_route_allowed_calls split: if_splits)
  with path show ?thesis by auto
qed

lemma supervisor_calls_nonempty: "(m, Split [] CHR ''/'') \<notin> supervisor_calls"
  by (auto simp: supervisor_calls_def)

lemma withAuth_Serve:
  assumes "withAuth rp H ks opt r st = Serve p"
  shows "isPublicRoute rp (rq_Path r) \<and> p = zero_principal \<or>
     bearerToken r = [] \<and> ao_AllowUnauthenticated opt \<and> p_Kind p = PrincipalUser \<and> p_IDP p = ''none'' \<or>
     bearerToken r \<noteq> [] \<and>
       ((\<exists>v c. ao_OIDC opt = Some v \<and> v (bearerToken r) = Some c \<and>
           p = \<lparr>p_Kind = PrincipalUser, p_Subject = oidc_subject c, p_IDP = ''oidc'', p_Sandbox = []\<rparr>) \<or>
        bearerToken r = AuthToken st \<and> p_Kind p = PrincipalUser \<and> p_IDP p = ''local'' \<or>
        SandboxForToken H ks (bearerToken r) st = Some (p_Sandbox p) \<and> p_Kind p = PrincipalSandbox \<and>
          sandboxRouteAllowed rp r (p_Sandbox p))"
proof (cases "isPublicRoute rp (rq_Path r)")
  case True
  then show ?thesis using assms by (simp add: withAuth_def)
next
  case False
  note w = assms [unfolded withAuth_def]
  show ?thesis
  proof (cases "bearerToken r = []")
    case True
    then show ?thesis using w False by (auto simp: resolvePrincipal_def zero_principal_def Let_def split: if_splits)
  next
    case tok: False
    show ?thesis
    proof (cases "case ao_OIDC opt of None \<Rightarrow> None | Some v \<Rightarrow> v (bearerToken r)")
      case (Some c)
      then obtain v where "ao_OIDC opt = Some v" "v (bearerToken r) = Some c" by (auto split: option.splits)
      then show ?thesis using w False tok by (auto simp: resolvePrincipal_def Let_def)
    next
      case None
      show ?thesis
      proof (cases "AuthToken st \<noteq> [] \<and> ConstantTimeCompare (bearerToken r) (AuthToken st) = 1")
        case True
        then show ?thesis using w False tok None
          by (auto simp: resolvePrincipal_def ConstantTimeCompare_def Let_def split: if_splits)
      next
        case local: False
        then show ?thesis using w False tok None
          by (cases "SandboxForToken H ks (bearerToken r) st")
            (auto simp: resolvePrincipal_def zero_principal_def Let_def split: if_splits)
      qed
    qed
  qed
qed

lemma withAuth_bad_token:
  assumes "\<not> isPublicRoute rp (rq_Path r)" "bearerToken r \<noteq> []"
    and "\<forall>v. ao_OIDC opt = Some v \<longrightarrow> v (bearerToken r) = None"
    and "bearerToken r \<noteq> AuthToken st" "SandboxForToken H ks (bearerToken r) st = None"
  shows "withAuth rp H ks opt r st = Denied StatusUnauthorized ''invalid bearer token''"
proof -
  have "(case ao_OIDC opt of None \<Rightarrow> None | Some v \<Rightarrow> v (bearerToken r)) = None"
    using assms(3) by (auto split: option.split)
  with assms show ?thesis
    by (simp add: withAuth_def resolvePrincipal_def ConstantTimeCompare_def Let_def)
qed

section \<open>Examples\<close>

definition ex_relayproto :: relayproto where
  "ex_relayproto = \<lparr>rp_PathSSHConnect = ''/v1/ssh/connect'', rp_PathSupervisorConnect = ''/v1/supervisor/connect'',
     rp_PathSupervisorRelay = ''/v1/supervisor/relay/'', rp_HeaderSandboxID = ''X-Sandbox''\<rparr>"

definition ex_request :: "string \<Rightarrow> string \<Rightarrow> string \<Rightarrow> Request" where
  "ex_request m path tok = \<lparr>rq_Method = m, rq_Path = path, rq_Query = [],
     rq_Header = [(''Authorization'', ''Bearer '' @ tok)], rq_Host = ''127.0.0.1:8080'',
     rq_RemoteAddr = ''127.0.0.1:5000'', rq_TLS = False\<rparr>"

definition ex_auth_options :: AuthOptions where
  "ex_auth_options = \<lparr>ao_OIDC = None, ao_AllowUnauthenticated = False\<rparr>"

lemma ToLower_append: "ToLower (a @ b) = ToLower a @ ToLower b"
  by (simp add: ToLower_def)

lemma ToLower_Bearer: "ToLower ''Bearer '' = ''bearer ''"
  by code_simp

lemma ex_bearer:
  assumes "TrimSpace tok = tok"
  shows "bearerToken (ex_request m path tok) = tok"
proof -
  have h: "HeaderGet (ex_request m path tok) ''Authorization'' = ''Bearer '' @ tok"
    by (simp add: ex_request_def)
  have "HasPrefix (ToLower (''Bearer '' @ tok)) ''bearer ''"
    unfolding ToLower_append ToLower_Bearer by (rule HasPrefix_append)
  then show ?thesis unfolding bearerToken_def h Let_def by (simp add: assms)
qed

lemma ex_issue_AuthToken: "AuthToken (ex_issue c ex_store) = []"
proof -
  have "AuthToken ex_store = []" by (simp add: AuthToken_def ex_store_def initial_state_def)
  then show ?thesis by (simp add: AuthToken_def ex_issue_store)
qed

lemma ex_secret_ne: "ex_secret c \<noteq> []"
  by (simp add: ex_secret_def)

lemma ex_token_trim: "TrimSpace (ex_token CHR ''a'') = ex_token CHR ''a''" "ex_token CHR ''a'' \<noteq> []"
  by (code_simp, simp add: ex_secret_def)

section \<open>Properties\<close>

text \<open>
  C26: authentication. A request is passed to the handlers only if its route is public, or it
  carries no bearer token and unauthenticated users are allowed, or its bearer token is accepted by
  the OIDC validator, is the gateway's own token, or is the supervisor token of the sandbox named
  in the principal; in the last case the route is on the allowlist for that sandbox.
\<close>
theorem auth_sound:
  assumes "withAuth rp H ks opt r st = Serve p"
  shows "isPublicRoute rp (rq_Path r) \<and> p = zero_principal \<or>
     bearerToken r = [] \<and> ao_AllowUnauthenticated opt \<and> p_Kind p = PrincipalUser \<and> p_IDP p = ''none'' \<or>
     bearerToken r \<noteq> [] \<and>
       ((\<exists>v c. ao_OIDC opt = Some v \<and> v (bearerToken r) = Some c \<and>
           p = \<lparr>p_Kind = PrincipalUser, p_Subject = oidc_subject c, p_IDP = ''oidc'', p_Sandbox = []\<rparr>) \<or>
        bearerToken r = AuthToken st \<and> p_Kind p = PrincipalUser \<and> p_IDP p = ''local'' \<or>
        SandboxForToken H ks (bearerToken r) st = Some (p_Sandbox p) \<and> p_Kind p = PrincipalSandbox \<and>
          sandboxRouteAllowed rp r (p_Sandbox p))"
  using withAuth_Serve [OF assms] .

lemma ex_supervisor_passes:
  "withAuth ex_relayproto (\<lambda>x. x) [''demo''] ex_auth_options
     (ex_request MethodGet ''/v1/sandboxes/demo/secrets'' (ex_token CHR ''a'')) (ex_issue CHR ''a'' ex_store) =
   Serve \<lparr>p_Kind = PrincipalSandbox, p_Subject = ''sandbox:demo'', p_IDP = ''sandbox'', p_Sandbox = ''demo''\<rparr>"
proof -
  let ?r = "ex_request MethodGet ''/v1/sandboxes/demo/secrets'' (ex_token CHR ''a'')"
  have tok: "bearerToken ?r = ex_token CHR ''a''" by (rule ex_bearer [OF ex_token_trim(1)])
  have sb: "SandboxForToken (\<lambda>x. x) [''demo''] (ex_token CHR ''a'') (ex_issue CHR ''a'' ex_store) = Some ''demo''"
    by (simp add: SandboxForToken_def ex_issue_store ex_secret_def)
  note ex_issue_AuthToken [of "CHR ''a''"]
  moreover have "sandboxRouteAllowed ex_relayproto ?r ''demo''"
    by (simp add: sandboxRouteAllowed_def ex_relayproto_def ex_request_def own_route_allowed_def HasPrefix_def
        TrimPrefix_def Trim_def)
  moreover have "\<not> isPublicRoute ex_relayproto (rq_Path ?r)"
    by (simp add: isPublicRoute_def ex_relayproto_def ex_request_def)
  ultimately show ?thesis
    unfolding withAuth_def resolvePrincipal_def tok Let_def
    by (simp add: sb ex_secret_ne ex_auth_options_def)
qed

theorem auth_sound_witness:
  "sandboxRouteAllowed ex_relayproto (ex_request MethodGet ''/v1/sandboxes/demo/secrets'' (ex_token CHR ''a'')) ''demo''"
  using auth_sound [OF ex_supervisor_passes] by (simp add: zero_principal_def)

text \<open>
  C27: a supervisor token is confined to its own sandbox. A request that passes with a sandbox
  principal either is one of the supervisor streams (the control stream only for its own name) or
  \<open>GET /v1/whoami\<close>, or the handler of \<open>/v1/sandboxes/\<close> reads from its path exactly that
  sandbox's name, and one of: reading its secrets, its policies or one of its proposals, posting
  logs or a proposal. Sandbox names are path segments, so they are not empty and have no slash.
\<close>
theorem supervisor_confined:
  assumes "withAuth rp H ks opt r st = Serve p" "p_Kind p = PrincipalSandbox"
    and "p_Sandbox p \<noteq> []" "CHR ''/'' \<notin> set (p_Sandbox p)"
  shows "rq_Path r = rp_PathSupervisorConnect rp \<and> rq_Method r = MethodGet \<and> QueryGet r ''sandbox'' = p_Sandbox p \<or>
     HasPrefix (rq_Path r) (rp_PathSupervisorRelay rp) \<and> rq_Method r = MethodGet \<or>
     rq_Path r = ''/v1/whoami'' \<and> rq_Method r = MethodGet \<or>
     (\<exists>sub. sandbox_route (rq_Path r) = SandboxSub (p_Sandbox p) sub \<and>
        (rq_Method r, Split (Trim sub ''/'') CHR ''/'') \<in> supervisor_calls)"
proof -
  have allowed: "sandboxRouteAllowed rp r (p_Sandbox p)"
    using withAuth_Serve [OF assms(1)] assms(2) by (auto simp: zero_principal_def)
  consider "rq_Path r = rp_PathSupervisorConnect rp"
    | "rq_Path r \<noteq> rp_PathSupervisorConnect rp" "HasPrefix (rq_Path r) (rp_PathSupervisorRelay rp)"
    | "rq_Path r \<noteq> rp_PathSupervisorConnect rp" "\<not> HasPrefix (rq_Path r) (rp_PathSupervisorRelay rp)" "rq_Path r = ''/v1/whoami''"
    | "rq_Path r \<noteq> rp_PathSupervisorConnect rp" "\<not> HasPrefix (rq_Path r) (rp_PathSupervisorRelay rp)" "rq_Path r \<noteq> ''/v1/whoami''"
    by blast
  then show ?thesis
  proof cases
    case 4
    obtain rest where path: "rq_Path r = ''/v1/sandboxes/'' @ p_Sandbox p @ ''/'' @ rest"
      and call: "(rq_Method r, Split (Trim rest ''/'') CHR ''/'') \<in> supervisor_calls"
      using allowed_parts [OF allowed 4] by blast
    have "Trim rest ''/'' \<noteq> []" using call supervisor_calls_nonempty by metis
    from sandbox_route_sub [OF assms(3,4) this] path call show ?thesis by metis
  qed (use allowed in \<open>simp_all add: sandboxRouteAllowed_def\<close>)
qed

theorem supervisor_confined_witness:
  "\<exists>sub. sandbox_route ''/v1/sandboxes/demo/secrets'' = SandboxSub ''demo'' sub \<and>
     (MethodGet, Split (Trim sub ''/'') CHR ''/'') \<in> supervisor_calls"
proof -
  let ?r = "ex_request MethodGet ''/v1/sandboxes/demo/secrets'' (ex_token CHR ''a'')"
  have "rq_Path ?r \<noteq> rp_PathSupervisorConnect ex_relayproto" "\<not> HasPrefix (rq_Path ?r) (rp_PathSupervisorRelay ex_relayproto)"
    "rq_Path ?r \<noteq> ''/v1/whoami''" "rq_Path ?r = ''/v1/sandboxes/demo/secrets''" "rq_Method ?r = MethodGet"
    by (simp_all add: ex_request_def ex_relayproto_def HasPrefix_def)
  with supervisor_confined [OF ex_supervisor_passes] show ?thesis by simp
qed

text \<open>
  Deleting a sandbox cuts its supervisor off. A bearer token that was the supervisor token
  of the sandbox is answered 401 on every route that is not public as soon as the sandbox is
  deleted, even if writing the state file failed, unless it also is the gateway's own token or one
  the OIDC validator accepts.
\<close>
lemma deleted_supervisor_denied:
  assumes "SandboxForToken H ks (bearerToken r) st = Some name"
    and "st' = fst (DeleteSandbox e name st)"
    and "unique_token_hashes (state st)"
    and "is_order ks (st_SandboxTokens (state st))" "is_order ks' (st_SandboxTokens (state st'))"
    and "\<not> isPublicRoute rp (rq_Path r)" "bearerToken r \<noteq> AuthToken st"
    and "\<forall>v. ao_OIDC opt = Some v \<longrightarrow> v (bearerToken r) = None"
  shows "withAuth rp H ks' opt r st' = Denied StatusUnauthorized ''invalid bearer token''"
proof (rule withAuth_bad_token [OF assms(6)])
  note known = SandboxForToken_iff [OF assms(4,3), of H "bearerToken r"]
  show "bearerToken r \<noteq> []" using assms(1) by (simp add: SandboxForToken_def split: if_splits)
  show "bearerToken r \<noteq> AuthToken st'"
    using assms(7) by (simp add: assms(2) AuthToken_def DeleteSandbox_def flush)
  have "mget (st_SandboxTokens (state st')) n = Some rec \<Longrightarrow> tok_Hash rec \<noteq> HashToken H (bearerToken r)" for n rec
    using known [of name] assms(1,3) unfolding assms(2) delete_get unique_token_hashes_def
    by (metis option.distinct(1))
  from find_mrange_NoneI [OF assms(5), of "\<lambda>(name, rec). hashEqual (tok_Hash rec) (HashToken H (bearerToken r))"] this
  show "SandboxForToken H ks' (bearerToken r) st' = None" by (auto simp: SandboxForToken_def)
qed (fact assms(8))

end
