(* ===== verification/Store_Records.thy ===== *)
theory Store_Records
  imports Store
begin

text \<open>
  \<open>internal/storage/store/parity_records.go\<close>: exposed services and workspaces with their
  members.
\<close>

section \<open>Services\<close>

definition UpsertService :: "time \<Rightarrow> flush_env \<Rightarrow> ServiceRecord \<Rightarrow> Store \<Rightarrow> Store \<times> err option" where
  "UpsertService now e rec s =
     (let rec = rec\<lparr>svc_UpdatedAt := now\<rparr> in
      mwrite (s, Some NilMapPanic) (svc_Name rec) rec (mmake (st_Services (state s)))
        (\<lambda>m. save e ((state s)\<lparr>st_Services := m\<rparr>) s))"

definition GetService :: "Store \<Rightarrow> string \<Rightarrow> ServiceRecord option" where
  "GetService s name = mget (st_Services (state s)) name"

definition DeleteService :: "flush_env \<Rightarrow> string \<Rightarrow> Store \<Rightarrow> Store \<times> err option" where
  "DeleteService e name s = save e ((state s)\<lparr>st_Services := mdel name (st_Services (state s))\<rparr>) s"

definition ListServices :: "string list \<Rightarrow> Store \<Rightarrow> ServiceRecord list" where
  "ListServices ks s = map snd (mrange ks (st_Services (state s)))"

section \<open>Workspaces\<close>

definition workspace_created :: "time \<Rightarrow> WorkspaceRecord option \<Rightarrow> WorkspaceRecord \<Rightarrow> WorkspaceRecord" where
  "workspace_created now old ws =
     (if IsZero (ws_CreatedAt ws) then
        (case old of
           Some prev \<Rightarrow> if \<not> IsZero (ws_CreatedAt prev) then ws\<lparr>ws_CreatedAt := ws_CreatedAt prev\<rparr>
                         else ws\<lparr>ws_CreatedAt := now\<rparr>
         | None \<Rightarrow> ws\<lparr>ws_CreatedAt := now\<rparr>)
      else ws)"

definition UpsertWorkspace :: "time \<Rightarrow> flush_env \<Rightarrow> WorkspaceRecord \<Rightarrow> Store \<Rightarrow> Store \<times> err option" where
  "UpsertWorkspace now e ws s =
     (let m = mmake (st_Workspaces (state s));
          ws = (workspace_created now (mget m (ws_Name ws)) ws)\<lparr>ws_UpdatedAt := now\<rparr> in
      mwrite (s, Some NilMapPanic) (ws_Name ws) ws m
        (\<lambda>m. save e ((state s)\<lparr>st_Workspaces := m\<rparr>) s))"

definition GetWorkspace :: "Store \<Rightarrow> string \<Rightarrow> WorkspaceRecord option" where
  "GetWorkspace s name = mget (st_Workspaces (state s)) name"

definition DeleteWorkspace :: "flush_env \<Rightarrow> string \<Rightarrow> Store \<Rightarrow> Store \<times> err option" where
  "DeleteWorkspace e name s = save e ((state s)\<lparr>st_Workspaces := mdel name (st_Workspaces (state s))\<rparr>) s"

definition ListWorkspaces :: "string list \<Rightarrow> Store \<Rightarrow> WorkspaceRecord list" where
  "ListWorkspaces ks s = map snd (mrange ks (st_Workspaces (state s)))"

text \<open>The loop over the members changes the role of the first one with the subject and
  stops; without one, a member is appended.\<close>

fun set_member_role :: "string \<Rightarrow> string \<Rightarrow> WorkspaceMember list \<Rightarrow> WorkspaceMember list" where
  "set_member_role subject role [] = [\<lparr>mem_Subject = subject, mem_Role = role\<rparr>]"
| "set_member_role subject role (m # ms) =
     (if mem_Subject m = subject then m\<lparr>mem_Role := role\<rparr> # ms else m # set_member_role subject role ms)"

definition WorkspaceMemberUpsert ::
    "time \<Rightarrow> flush_env \<Rightarrow> string \<Rightarrow> string \<Rightarrow> string \<Rightarrow> Store \<Rightarrow> Store \<times> err option" where
  "WorkspaceMemberUpsert now e name subject role s =
     (case mget (st_Workspaces (state s)) name of
        None \<Rightarrow> (s, Some (WorkspaceNotFound name))
      | Some ws \<Rightarrow>
          let role = (if role = [] then ''user'' else role);
              ws = ws\<lparr>ws_Members := set_member_role subject role (ws_Members ws), ws_UpdatedAt := now\<rparr> in
          mwrite (s, Some NilMapPanic) name ws (st_Workspaces (state s))
            (\<lambda>m. save e ((state s)\<lparr>st_Workspaces := m\<rparr>) s))"

definition WorkspaceMemberRemove ::
    "time \<Rightarrow> flush_env \<Rightarrow> string \<Rightarrow> string \<Rightarrow> Store \<Rightarrow> Store \<times> err option" where
  "WorkspaceMemberRemove now e name subject s =
     (case mget (st_Workspaces (state s)) name of
        None \<Rightarrow> (s, Some (WorkspaceNotFound name))
      | Some ws \<Rightarrow>
          let ws = ws\<lparr>ws_Members := filter (\<lambda>m. mem_Subject m \<noteq> subject) (ws_Members ws), ws_UpdatedAt := now\<rparr> in
          mwrite (s, Some NilMapPanic) name ws (st_Workspaces (state s))
            (\<lambda>m. save e ((state s)\<lparr>st_Workspaces := m\<rparr>) s))"

lemma WorkspaceMemberUpsert_eq:
  "WorkspaceMemberUpsert now e name subject role s =
     (case mget (st_Workspaces (state s)) name of
        None \<Rightarrow> (s, Some (WorkspaceNotFound name))
      | Some ws \<Rightarrow> save e ((state s)\<lparr>st_Workspaces := mput name
          (ws\<lparr>ws_Members := set_member_role subject (if role = [] then ''user'' else role) (ws_Members ws),
              ws_UpdatedAt := now\<rparr>) (st_Workspaces (state s))\<rparr>) s)"
  by (simp add: WorkspaceMemberUpsert_def Let_def mwrite_found split: option.split)

lemma WorkspaceMemberRemove_eq:
  "WorkspaceMemberRemove now e name subject s =
     (case mget (st_Workspaces (state s)) name of
        None \<Rightarrow> (s, Some (WorkspaceNotFound name))
      | Some ws \<Rightarrow> save e ((state s)\<lparr>st_Workspaces := mput name
          (ws\<lparr>ws_Members := filter (\<lambda>m. mem_Subject m \<noteq> subject) (ws_Members ws), ws_UpdatedAt := now\<rparr>)
          (st_Workspaces (state s))\<rparr>) s)"
  by (simp add: WorkspaceMemberRemove_def Let_def mwrite_found split: option.split)

section \<open>The registries\<close>

definition put_service :: "time \<times> flush_env \<Rightarrow> string \<Rightarrow> ServiceRecord \<Rightarrow> Store \<Rightarrow> Store" where
  "put_service e k v s = fst (UpsertService (fst e) (snd e) (v\<lparr>svc_Name := k\<rparr>) s)"

definition put_workspace :: "time \<times> flush_env \<Rightarrow> string \<Rightarrow> WorkspaceRecord \<Rightarrow> Store \<Rightarrow> Store" where
  "put_workspace e k v s = fst (UpsertWorkspace (fst e) (snd e) (v\<lparr>ws_Name := k\<rparr>) s)"

definition merge_workspace :: "time \<times> flush_env \<Rightarrow> string \<Rightarrow> WorkspaceRecord option \<Rightarrow> WorkspaceRecord \<Rightarrow> WorkspaceRecord" where
  "merge_workspace e k old v = (workspace_created (fst e) old (v\<lparr>ws_Name := k\<rparr>))\<lparr>ws_UpdatedAt := fst e\<rparr>"

lemma workspace_created_name [simp]: "ws_Name (workspace_created now old ws) = ws_Name ws"
  by (simp add: workspace_created_def split: option.split)

interpretation services: keyed_registry GetService put_service "\<lambda>e k s. fst (DeleteService (snd e) k s)"
    "\<lambda>e k old v. v\<lparr>svc_Name := k, svc_UpdatedAt := fst e\<rparr>" "\<lambda>s. True"
  by unfold_locales
     (auto simp: fun_eq_iff GetService_def put_service_def UpsertService_def DeleteService_def Let_def flush gomap)

interpretation workspaces: keyed_registry GetWorkspace put_workspace "\<lambda>e k s. fst (DeleteWorkspace (snd e) k s)"
    merge_workspace "\<lambda>s. True"
  by unfold_locales
     (auto simp: fun_eq_iff GetWorkspace_def put_workspace_def merge_workspace_def UpsertWorkspace_def
       DeleteWorkspace_def Let_def flush gomap)

section \<open>Members\<close>

lemma set_member_role_same:
  "subject \<in> set (map mem_Subject ms) \<Longrightarrow> map mem_Subject (set_member_role subject role ms) = map mem_Subject ms"
  by (induction ms) auto

lemma set_member_role_new:
  "subject \<notin> set (map mem_Subject ms) \<Longrightarrow>
     set_member_role subject role ms = ms @ [\<lparr>mem_Subject = subject, mem_Role = role\<rparr>]"
  by (induction ms) auto

lemma set_member_role_distinct:
  "distinct (map mem_Subject ms) \<Longrightarrow> distinct (map mem_Subject (set_member_role subject role ms))"
  by (cases "subject \<in> set (map mem_Subject ms)") (simp_all add: set_member_role_same set_member_role_new)

text \<open>The members as a map from subjects to roles.\<close>

definition role_of :: "WorkspaceMember list \<Rightarrow> string \<Rightarrow> string option" where
  "role_of ms = map_of (map (\<lambda>m. (mem_Subject m, mem_Role m)) ms)"

lemma role_of_set_member_role: "role_of (set_member_role subject role ms) = (role_of ms)(subject \<mapsto> role)"
  by (induction ms) (auto simp: role_of_def fun_eq_iff)

lemma role_of_filter: "role_of (filter (\<lambda>m. mem_Subject m \<noteq> subject) ms) = (role_of ms)(subject := None)"
  by (induction ms) (auto simp: role_of_def fun_eq_iff)

section \<open>Properties\<close>

text \<open>
  C25: workspace membership. On an existing workspace, \<open>WorkspaceMemberUpsert\<close> sets the
  subject's role (\<open>user\<close> when none is given) and \<open>WorkspaceMemberRemove\<close> takes it away;
  both leave every other subject's role alone, and no subject is ever listed twice.
\<close>

theorem workspace_members:
  assumes "GetWorkspace s name = Some ws" and "distinct (map mem_Subject (ws_Members ws))"
  shows "\<exists>ws1 ws2. GetWorkspace (fst (WorkspaceMemberUpsert now e name subject role s)) name = Some ws1 \<and>
    role_of (ws_Members ws1) = (role_of (ws_Members ws))(subject \<mapsto> if role = [] then ''user'' else role) \<and>
    distinct (map mem_Subject (ws_Members ws1)) \<and>
    GetWorkspace (fst (WorkspaceMemberRemove now e name subject s)) name = Some ws2 \<and>
    role_of (ws_Members ws2) = (role_of (ws_Members ws))(subject := None) \<and>
    distinct (map mem_Subject (ws_Members ws2))"
  using assms
  by (simp add: GetWorkspace_def WorkspaceMemberUpsert_eq WorkspaceMemberRemove_eq flush mget_mput
      mget_nonnil role_of_set_member_role role_of_filter set_member_role_distinct distinct_map_filter)

definition ex_workspace :: WorkspaceRecord where
  "ex_workspace = \<lparr>ws_Name = ''team'', ws_Members = [\<lparr>mem_Subject = ''alice'', mem_Role = ''admin''\<rparr>],
     ws_CreatedAt = unix_epoch, ws_UpdatedAt = unix_epoch\<rparr>"

definition ex_team_store :: Store where
  "ex_team_store = put_workspace (unix_epoch, ex_flush) ''team'' ex_workspace ex_store"

lemma ex_team_store_get: "GetWorkspace ex_team_store ''team'' = Some ex_workspace"
  by (simp add: ex_team_store_def workspaces.get_put_same merge_workspace_def workspace_created_def ex_workspace_def
      IsZero_def unix_epoch_def)

theorem workspace_members_witness:
  "\<exists>ws1 ws2. GetWorkspace (fst (WorkspaceMemberUpsert 5 ex_flush ''team'' ''bob'' [] ex_team_store)) ''team'' = Some ws1 \<and>
    role_of (ws_Members ws1) ''bob'' = Some ''user'' \<and> role_of (ws_Members ws1) ''alice'' = Some ''admin'' \<and>
    GetWorkspace (fst (WorkspaceMemberRemove 5 ex_flush ''team'' ''bob'' ex_team_store)) ''team'' = Some ws2"
proof -
  have "distinct (map mem_Subject (ws_Members ex_workspace))" by (simp add: ex_workspace_def)
  from workspace_members [OF ex_team_store_get this, of 5 ex_flush "''bob''" "[]"]
  show ?thesis by (auto simp: role_of_def ex_workspace_def)
qed

text \<open>
  Registering a workspace again drops its members. \<open>UpsertWorkspace\<close> with a record that
  only carries the name, which is what \<open>POST /v1/workspaces\<close> passes, keeps the creation time
  of an existing workspace and removes all of its members.
\<close>

lemma workspace_repost_drops_members:
  assumes "GetWorkspace s name = Some ws" and "\<not> IsZero (ws_CreatedAt ws)"
  shows "GetWorkspace (fst (UpsertWorkspace now e \<lparr>ws_Name = name, ws_Members = [], ws_CreatedAt = 0, ws_UpdatedAt = 0\<rparr> s)) name =
    Some \<lparr>ws_Name = name, ws_Members = [], ws_CreatedAt = ws_CreatedAt ws, ws_UpdatedAt = now\<rparr>"
  using workspaces.get_put_same [where s = s and e = "(now, e)" and k = name
      and v = "\<lparr>ws_Name = name, ws_Members = [], ws_CreatedAt = 0, ws_UpdatedAt = 0\<rparr>"] assms
  by (simp add: put_workspace_def merge_workspace_def workspace_created_def IsZero_def)

end
