(* ===== verification/Parity_Api.thy ===== *)
theory Parity_Api
  imports Auth Store_Records
begin

text \<open>
  \<open>internal/httpapi/parity_api.go\<close> without the provider refresh paths: the inference route,
  settings, templates, \<open>whoami\<close>, the local login, services and workspaces. Every handler is a
  function from the store to the store and an answer. \<open>env\<close> holds what a request takes from
  outside: clock readings, file operations, random bytes and map orders, numbered in the order in
  which the handler uses them. \<open>http.Error\<close> with the text of a Go error is an \<open>Error\<close> with the
  text \<open>err_text\<close>.
\<close>

section \<open>Requests\<close>

record env =
  en_now :: "nat \<Rightarrow> time"
  en_flush :: "nat \<Rightarrow> flush_env"
  en_rnd :: "nat \<Rightarrow> string option"
  en_order :: "nat \<Rightarrow> string list"

definition err_text :: string where
  "err_text = ''error''"

text \<open>The shape \<open>if err := st.Op(...); err != nil { http.Error(w, err.Error(), bad); return }\<close>.\<close>

definition store_reply :: "nat \<Rightarrow> 'a answer \<Rightarrow> Store \<times> err option \<Rightarrow> Store \<times> 'a answer" where
  "store_reply bad ans r = (fst r, case snd r of None \<Rightarrow> ans | Some _ \<Rightarrow> Error bad err_text)"

abbreviation not_allowed :: "'a answer" where
  "not_allowed \<equiv> Error StatusMethodNotAllowed ''method not allowed''"

text \<open>The last segment of a path below a prefix, when it is one.\<close>

definition item_name :: "string \<Rightarrow> string \<Rightarrow> string option" where
  "item_name pre path =
     (let k = Trim (TrimPrefix path pre) ''/'' in if k = [] \<or> CHR ''/'' \<in> set k then None else Some k)"

datatype parity_payload =
    PNone
  | PRoute "InferenceRoute option"
  | PSettings "string gomap"
  | PSetting string string
  | PTemplates "TemplateRecord list"
  | PTemplate TemplateRecord
  | PWhoami string string "string list" string string string
  | PLogin string
  | PRedirect string
  | PServices "ServiceRecord list"
  | PService ServiceRecord
  | PWorkspaces "WorkspaceRecord list"
  | PWorkspace "WorkspaceRecord option"
  | PMembers "WorkspaceMember list"

section \<open>Inference, settings, templates\<close>

text \<open>\<open>body\<close> is the provider, the model and the timeout of the request.\<close>

definition handle_inference ::
    "env \<Rightarrow> Request \<Rightarrow> string + string \<times> string \<times> int \<Rightarrow> Store \<Rightarrow> Store \<times> parity_payload answer" where
  "handle_inference en r body st =
     (if rq_Method r = MethodGet then
        (case GetInferenceRoute st of
           None \<Rightarrow> (st, Error StatusNotFound ''inference route not set'')
         | Some route \<Rightarrow> (st, Reply StatusOK (PRoute (Some route))))
      else if rq_Method r = MethodPut then
        (case body of
           Inl x \<Rightarrow> (st, Error StatusBadRequest x)
         | Inr (prov, model, timeoutSec) \<Rightarrow>
             if TrimSpace prov = [] \<or> TrimSpace model = [] then (st, Error StatusBadRequest ''provider and model required'')
             else if GetProvider st prov = None then (st, Error StatusBadRequest ''provider not found'')
             else
               (case SetInferenceRoute (en_flush en 0)
                       \<lparr>inf_Provider = prov, inf_Model = model, inf_TimeoutSec = timeoutSec, inf_Version = 0\<rparr> st of
                  (st', Some _) \<Rightarrow> (st', Error StatusInternalServerError err_text)
                | (st', None) \<Rightarrow> (st', Reply StatusOK (PRoute (GetInferenceRoute st')))))
      else if rq_Method r = MethodDelete then
        store_reply StatusInternalServerError (Reply StatusNoContent PNone) (ClearInferenceRoute (en_flush en 0) st)
      else (st, not_allowed))"

definition handle_settings :: "Request \<Rightarrow> Store \<Rightarrow> Store \<times> parity_payload answer" where
  "handle_settings r st =
     (if rq_Method r \<noteq> MethodGet then (st, not_allowed) else (st, Reply StatusOK (PSettings (AllSettings st))))"

definition handle_setting :: "env \<Rightarrow> Request \<Rightarrow> string + string \<Rightarrow> Store \<Rightarrow> Store \<times> parity_payload answer" where
  "handle_setting en r body st =
     (case item_name ''/v1/settings/'' (rq_Path r) of
        None \<Rightarrow> (st, Error StatusBadRequest ''bad key'')
      | Some key \<Rightarrow>
          if rq_Method r = MethodGet then
            (case GetSetting st key of
               None \<Rightarrow> (st, Error StatusNotFound ''not found'')
             | Some v \<Rightarrow> (st, Reply StatusOK (PSetting key v)))
          else if rq_Method r = MethodPut then
            (case body of
               Inl x \<Rightarrow> (st, Error StatusBadRequest x)
             | Inr v \<Rightarrow> store_reply StatusInternalServerError (Reply StatusNoContent PNone) (SetSetting (en_flush en 0) key v st))
          else if rq_Method r = MethodDelete then
            store_reply StatusInternalServerError (Reply StatusNoContent PNone) (DeleteSetting (en_flush en 0) key st)
          else (st, not_allowed))"

definition handle_templates :: "env \<Rightarrow> Request \<Rightarrow> Store \<Rightarrow> Store \<times> parity_payload answer" where
  "handle_templates en r st =
     (if rq_Method r \<noteq> MethodGet then (st, not_allowed)
      else (st, Reply StatusOK (PTemplates (ListTemplates (en_order en 0) st))))"

definition handle_template :: "env \<Rightarrow> Request \<Rightarrow> string + TemplateRecord \<Rightarrow> Store \<Rightarrow> Store \<times> parity_payload answer" where
  "handle_template en r body st =
     (case item_name ''/v1/templates/'' (rq_Path r) of
        None \<Rightarrow> (st, Error StatusBadRequest ''bad name'')
      | Some name \<Rightarrow>
          if rq_Method r = MethodGet then
            (case GetTemplate st name of
               None \<Rightarrow> (st, Error StatusNotFound ''not found'')
             | Some t \<Rightarrow> (st, Reply StatusOK (PTemplate t)))
          else if rq_Method r = MethodPut then
            (case body of
               Inl x \<Rightarrow> (st, Error StatusBadRequest x)
             | Inr t \<Rightarrow> store_reply StatusInternalServerError (Reply StatusNoContent PNone)
                          (UpsertTemplate (en_flush en 0) (t\<lparr>tpl_Name := name\<rparr>) st))
          else if rq_Method r = MethodDelete then
            store_reply StatusInternalServerError (Reply StatusNoContent PNone) (DeleteTemplate (en_flush en 0) name st)
          else (st, not_allowed))"

section \<open>Identity and local login\<close>

definition handle_whoami :: "Request \<Rightarrow> Principal \<Rightarrow> Store \<Rightarrow> Store \<times> parity_payload answer" where
  "handle_whoami r p st =
     (if rq_Method r \<noteq> MethodGet then (st, not_allowed)
      else
        let (auth, roles) =
              (case p_Kind p of
                 PrincipalSandbox \<Rightarrow> (''authenticated'', [''sandbox_supervisor''])
               | PrincipalNone \<Rightarrow> (''anonymous'', [''user''])
               | PrincipalUser \<Rightarrow> (''authenticated'', [''platform_admin'']));
            auth = (if p_IDP p = ''none'' then ''unauthenticated_allowed'' else auth) in
        (st, Reply StatusOK (PWhoami (p_Subject p) auth roles (p_IDP p) (p_Sandbox p) (st_GatewayID (Snapshot st)))))"

definition handle_login ::
    "(string \<Rightarrow> URL option) \<Rightarrow> env \<Rightarrow> Request \<Rightarrow> Store \<Rightarrow> Store \<times> parity_payload answer" where
  "handle_login parse en r st =
     (if \<not> isLoopbackRequest r then (st, Error StatusForbidden ''local login is only available from loopback; use OIDC or `whaleshell gateway login --token $(cat <data-dir>/auth_token)`'')
      else
        let redirect = QueryGet r ''redirect_uri'' in
        if redirect \<noteq> [] \<and> \<not> isLoopbackRedirect parse redirect
        then (st, Error StatusBadRequest ''redirect_uri must be an http://127.0.0.1:PORT/ callback'')
        else
          (case EnsureAuthToken (en_rnd en 0) (en_flush en 0) st of
             (st', Inl _) \<Rightarrow> (st', Error StatusInternalServerError err_text)
           | (st', Inr token) \<Rightarrow>
               if redirect \<noteq> []
               then (st', Reply StatusFound (PRedirect
                       (redirect @ (if CHR ''?'' \<in> set redirect then ''&'' else ''?'') @ ''token='' @ token)))
               else (st', Reply StatusOK (PLogin token))))"

section \<open>Services\<close>

definition handle_services :: "env \<Rightarrow> Request \<Rightarrow> Store \<Rightarrow> Store \<times> parity_payload answer" where
  "handle_services en r st =
     (if rq_Method r \<noteq> MethodGet then (st, not_allowed)
      else (st, Reply StatusOK (PServices (ListServices (en_order en 0) st))))"

definition handle_service :: "env \<Rightarrow> Request \<Rightarrow> string + ServiceRecord \<Rightarrow> Store \<Rightarrow> Store \<times> parity_payload answer" where
  "handle_service en r body st =
     (case item_name ''/v1/services/'' (rq_Path r) of
        None \<Rightarrow> (st, Error StatusBadRequest ''bad name'')
      | Some name \<Rightarrow>
          if rq_Method r = MethodGet then
            (case GetService st name of
               None \<Rightarrow> (st, Error StatusNotFound ''not found'')
             | Some rec \<Rightarrow> (st, Reply StatusOK (PService rec)))
          else if rq_Method r = MethodPut then
            (case body of
               Inl x \<Rightarrow> (st, Error StatusBadRequest x)
             | Inr rec \<Rightarrow> store_reply StatusInternalServerError (Reply StatusOK (PService (rec\<lparr>svc_Name := name\<rparr>)))
                            (UpsertService (en_now en 0) (en_flush en 0) (rec\<lparr>svc_Name := name\<rparr>) st))
          else if rq_Method r = MethodDelete then
            store_reply StatusInternalServerError (Reply StatusNoContent PNone) (DeleteService (en_flush en 0) name st)
          else (st, not_allowed))"

section \<open>Workspaces\<close>

definition handle_workspaces :: "env \<Rightarrow> Request \<Rightarrow> string + string \<Rightarrow> Store \<Rightarrow> Store \<times> parity_payload answer" where
  "handle_workspaces en r body st =
     (if rq_Method r = MethodGet then (st, Reply StatusOK (PWorkspaces (ListWorkspaces (en_order en 0) st)))
      else if rq_Method r = MethodPost then
        (case body of
           Inl x \<Rightarrow> (st, Error StatusBadRequest x)
         | Inr raw \<Rightarrow>
             let name = TrimSpace raw in
             if name = [] then (st, Error StatusBadRequest ''name required'')
             else
               (case UpsertWorkspace (en_now en 0) (en_flush en 0)
                       \<lparr>ws_Name = name, ws_Members = [], ws_CreatedAt = 0, ws_UpdatedAt = 0\<rparr> st of
                  (st', Some _) \<Rightarrow> (st', Error StatusInternalServerError err_text)
                | (st', None) \<Rightarrow> (st', Reply StatusCreated (PWorkspace (GetWorkspace st' name)))))
      else (st, not_allowed))"

text \<open>\<open>body\<close> is the subject and the role of the request.\<close>

definition handle_workspace :: "env \<Rightarrow> Request \<Rightarrow> string + string \<times> string \<Rightarrow> Store \<Rightarrow> Store \<times> parity_payload answer" where
  "handle_workspace en r body st =
     (let parts = Split (Trim (TrimPrefix (rq_Path r) ''/v1/workspaces/'') ''/'') CHR ''/'' in
      if parts ! 0 = [] then (st, Error StatusBadRequest ''bad path'')
      else
        let name = parts ! 0 in
        if length parts = 1 then
          (if rq_Method r = MethodGet then
             (case GetWorkspace st name of
                None \<Rightarrow> (st, Error StatusNotFound ''not found'')
              | Some ws \<Rightarrow> (st, Reply StatusOK (PWorkspace (Some ws))))
           else if rq_Method r = MethodDelete then
             store_reply StatusInternalServerError (Reply StatusNoContent PNone) (DeleteWorkspace (en_flush en 0) name st)
           else (st, not_allowed))
        else if parts ! 1 = ''members'' then
          (if length parts = 2 \<and> rq_Method r = MethodGet then
             (case GetWorkspace st name of
                None \<Rightarrow> (st, Error StatusNotFound ''not found'')
              | Some ws \<Rightarrow> (st, Reply StatusOK (PMembers (ws_Members ws))))
           else if length parts = 2 \<and> rq_Method r = MethodPut then
             (case body of
                Inl x \<Rightarrow> (st, Error StatusBadRequest x)
              | Inr (subject, role) \<Rightarrow>
                  if TrimSpace subject = [] then (st, Error StatusBadRequest ''subject required'')
                  else store_reply StatusBadRequest (Reply StatusNoContent PNone)
                         (WorkspaceMemberUpsert (en_now en 0) (en_flush en 0) name subject role st))
           else if length parts = 3 \<and> rq_Method r = MethodDelete then
             store_reply StatusBadRequest (Reply StatusNoContent PNone)
               (WorkspaceMemberRemove (en_now en 0) (en_flush en 0) name (parts ! 2) st)
           else (st, not_allowed))
        else (st, Error StatusNotFound ''not found''))"

end
