(* ===== verification/Oauth.thy ===== *)
theory Oauth
  imports Parity_Api
begin

text \<open>
  \<open>internal/httpapi/oauth_refresh.go\<close> and the provider refresh paths of \<open>parity_api.go\<close>. The
  host's environment variables and the token endpoint are arguments: \<open>http\<close> is the outcome of
  sending a token request, with the decoded body. The secret store of package \<open>secrets\<close> is the
  record \<open>secrets_lib\<close> over an abstract state. \<open>quote\<close> is the JSON encoding of a string.
\<close>

section \<open>Token requests\<close>

record token_request =
  tr_url :: string
  tr_form :: "(string \<times> string) list"
  tr_basic :: "(string \<times> string) option"

datatype token_outcome = TokBadRequest | TokDoError | TokResponse nat "string + string \<times> int"

datatype rotate_err =
    EnvNotSet string
  | MaterialRequired
  | TokenURLRequired
  | RefreshTokenRequired
  | UnsupportedGrant string
  | SecretKeyRequired
  | UnsupportedStrategy string
  | RequestFailed
  | EndpointStatus nat
  | TokenParse string
  | EmptyAccessToken

fun firstNonEmpty :: "string list \<Rightarrow> string" where
  "firstNonEmpty [] = []"
| "firstNonEmpty (v # vs) = (if TrimSpace v \<noteq> [] then v else firstNonEmpty vs)"

text \<open>Reading a key of a map of strings, with the zero value for a missing key.\<close>

definition mstr :: "string gomap \<Rightarrow> string \<Rightarrow> string" where
  "mstr m k = (case mget m k of None \<Rightarrow> [] | Some v \<Rightarrow> v)"

definition lookupEnv :: "(string \<Rightarrow> string option) \<Rightarrow> string \<Rightarrow> string option" where
  "lookupEnv getenv key =
     (case getenv key of None \<Rightarrow> None | Some v \<Rightarrow> if TrimSpace v = [] then None else Some v)"

definition token_form :: "string gomap \<Rightarrow> string \<Rightarrow> rotate_err + (string \<times> string) list" where
  "token_form material grant =
     (let clientID = TrimSpace (mstr material ''client_id'');
          clientSecret = TrimSpace (mstr material ''client_secret'');
          scope = TrimSpace (mstr material ''scope'');
          rest = (if scope \<noteq> [] then [(''scope'', scope)] else []) @
                 (if clientID \<noteq> [] then [(''client_id'', clientID)] else []) @
                 (if clientSecret \<noteq> [] then [(''client_secret'', clientSecret)] else []) in
      if grant = ''refresh_token'' then
        (let rt = TrimSpace (firstNonEmpty [mstr material ''refresh_token'', mstr material ''refresh_token_value'']) in
         if rt = [] then Inl RefreshTokenRequired
         else Inr ([(''grant_type'', grant), (''refresh_token'', rt)] @ rest))
      else if grant = ''client_credentials'' then Inr ((''grant_type'', grant) # rest)
      else Inl (UnsupportedGrant grant))"

definition token_expiry :: "time \<Rightarrow> int \<Rightarrow> int" where
  "token_expiry now expiresIn = (if expiresIn > 0 then UnixMilli (now + int64 (expiresIn * Second)) else 0)"

definition oauth2Token ::
    "(token_request \<Rightarrow> token_outcome) \<Rightarrow> time \<Rightarrow> string gomap \<Rightarrow> string \<Rightarrow> rotate_err + string \<times> int" where
  "oauth2Token http now material grant =
     (if material = None then Inl MaterialRequired
      else
        let tokenURL = TrimSpace (firstNonEmpty [mstr material ''token_url'', mstr material ''token_uri'']);
            clientID = TrimSpace (mstr material ''client_id'');
            clientSecret = TrimSpace (mstr material ''client_secret'') in
        if tokenURL = [] then Inl TokenURLRequired
        else
          (case token_form material grant of
             Inl x \<Rightarrow> Inl x
           | Inr form \<Rightarrow>
               (case http \<lparr>tr_url = tokenURL, tr_form = form,
                          tr_basic = (if clientID \<noteq> [] \<and> clientSecret \<noteq> [] \<and> mstr material ''auth_style'' = ''basic''
                                      then Some (clientID, clientSecret) else None)\<rparr> of
                  TokBadRequest \<Rightarrow> Inl RequestFailed
                | TokDoError \<Rightarrow> Inl RequestFailed
                | TokResponse code body \<Rightarrow>
                    if code \<ge> 300 then Inl (EndpointStatus code)
                    else
                      (case body of
                         Inl x \<Rightarrow> Inl (TokenParse x)
                       | Inr (accessToken, expiresIn) \<Rightarrow>
                           if TrimSpace accessToken = [] then Inl EmptyAccessToken
                           else Inr (accessToken, token_expiry now expiresIn)))))"

section \<open>Rotating a credential\<close>

definition aws_blob :: "(string \<Rightarrow> string) \<Rightarrow> string \<Rightarrow> string \<Rightarrow> string \<Rightarrow> string" where
  "aws_blob quote key secret token =
     ''{'' @ quote ''access_key_id'' @ '':'' @ quote key @ '','' @ quote ''secret_access_key'' @ '':'' @ quote secret @
     '','' @ quote ''session_token'' @ '':'' @ quote token @ ''}''"

record host =
  ho_getenv :: "string \<Rightarrow> string option"
  ho_http :: "token_request \<Rightarrow> token_outcome"
  ho_now :: time
  ho_quote :: "string \<Rightarrow> string"

definition rotateCredential :: "host \<Rightarrow> ProviderRefreshConfig \<Rightarrow> string \<Rightarrow> rotate_err + string \<times> int" where
  "rotateCredential ho cfg key =
     (let strategy = TrimSpace (ref_Strategy cfg);
          strategy = (if strategy = [] then ''env'' else strategy);
          material = ref_Material cfg;
          from_env = (case lookupEnv (ho_getenv ho) key of None \<Rightarrow> Inl (EnvNotSet key) | Some v \<Rightarrow> Inr (v, 0)) in
      if strategy = ''env'' then from_env
      else if strategy = ''oauth2-refresh-token'' then oauth2Token (ho_http ho) (ho_now ho) material ''refresh_token''
      else if strategy = ''oauth2-client-credentials'' then oauth2Token (ho_http ho) (ho_now ho) material ''client_credentials''
      else if strategy = ''aws-sts-assume-role'' then
        (let v = TrimSpace (mstr material ''access_key_id'') in
         if v \<noteq> [] then
           (let secret = TrimSpace (mstr material ''secret_access_key'');
                token = TrimSpace (mstr material ''session_token'') in
            if secret = [] then Inl SecretKeyRequired
            else Inr (aws_blob (ho_quote ho) v secret token, ref_ExpiresAtMS cfg))
         else from_env)
      else Inl (UnsupportedStrategy strategy))"

section \<open>The refresh paths\<close>

record 'sec secrets_lib =
  sl_Get :: "string \<Rightarrow> string list \<Rightarrow> 'sec \<Rightarrow> string + (string, string) fmap"
  sl_Put :: "string \<Rightarrow> (string, string) fmap \<Rightarrow> 'sec \<Rightarrow> 'sec \<times> string option"
  sl_DeletePrefix :: "string \<Rightarrow> 'sec \<Rightarrow> 'sec"

datatype refresh_payload = RNone | RConfigs "ProviderRefreshConfig gomap"

text \<open>The record a \<open>PUT\<close> of a configuration stores.\<close>

definition with_refresh :: "string \<Rightarrow> ProviderRefreshConfig \<Rightarrow> ProviderRecord \<Rightarrow> ProviderRecord" where
  "with_refresh key cfg rec =
     (let cfg = cfg\<lparr>ref_CredentialKey := key\<rparr>;
          cfg = (if ref_Strategy cfg = [] then cfg\<lparr>ref_Strategy := ''env''\<rparr> else cfg);
          rec = rec\<lparr>prov_Refresh := mput key cfg (mmake (prov_Refresh rec))\<rparr> in
      if ref_ExpiresAtMS cfg > 0
      then rec\<lparr>prov_CredentialExpiresAtMS := mput key (ref_ExpiresAtMS cfg) (mmake (prov_CredentialExpiresAtMS rec))\<rparr>
      else rec)"

text \<open>The record a rotation stores when the new credential expires.\<close>

definition rotated :: "string \<Rightarrow> ProviderRefreshConfig \<Rightarrow> int \<Rightarrow> ProviderRecord \<Rightarrow> ProviderRecord" where
  "rotated key cfg expMS rec =
     rec\<lparr>prov_CredentialExpiresAtMS := mput key expMS (mmake (prov_CredentialExpiresAtMS rec)),
         prov_Refresh := mput key (cfg\<lparr>ref_ExpiresAtMS := expMS\<rparr>) (mmake (prov_Refresh rec))\<rparr>"

definition rotate_config :: "string \<Rightarrow> ProviderRecord \<Rightarrow> ProviderRefreshConfig" where
  "rotate_config key rec =
     (case mget (prov_Refresh rec) key of
        Some cfg \<Rightarrow> cfg
      | None \<Rightarrow> \<lparr>ref_CredentialKey = key, ref_Strategy = ''env'', ref_Material = None, ref_ExpiresAtMS = 0\<rparr>)"

definition handle_rotate ::
    "'sec secrets_lib \<Rightarrow> host \<Rightarrow> env \<Rightarrow> string \<Rightarrow> string \<Rightarrow> ProviderRecord \<Rightarrow> Store \<times> 'sec \<Rightarrow> (Store \<times> 'sec) \<times> refresh_payload answer" where
  "handle_rotate sl ho en name key rec g =
     (let cfg = rotate_config key rec in
      case rotateCredential ho cfg key of
        Inl _ \<Rightarrow> (g, Error StatusBadRequest err_text)
      | Inr (v, expMS) \<Rightarrow>
          (case sl_Put sl name (fmupd key v fmempty) (snd g) of
             (sec, Some _) \<Rightarrow> ((fst g, sec), Error StatusInternalServerError err_text)
           | (sec, None) \<Rightarrow>
               let st = (if expMS > 0 then fst (UpsertProvider (en_flush en 0) (rotated key cfg expMS rec) (fst g)) else fst g) in
               ((st, sec), Reply StatusNoContent RNone)))"

text \<open>\<open>None\<close> is the result \<open>false\<close>: the path is not a refresh path.\<close>

definition handleProviderRefreshPath ::
    "'sec secrets_lib \<Rightarrow> host \<Rightarrow> env \<Rightarrow> Request \<Rightarrow> string + ProviderRefreshConfig \<Rightarrow> string \<Rightarrow> string \<Rightarrow> Store \<times> 'sec
     \<Rightarrow> ((Store \<times> 'sec) \<times> refresh_payload answer) option" where
  "handleProviderRefreshPath sl ho en r body name sub g =
     (if \<not> HasPrefix sub ''refresh'' then None
      else Some
        (case GetProvider (fst g) name of
           None \<Rightarrow> (g, Error StatusNotFound ''provider not found'')
         | Some rec \<Rightarrow>
             let parts = Split sub CHR ''/''; meth = rq_Method r;
                 upsert = (\<lambda>rec'. case store_reply StatusInternalServerError (Reply StatusNoContent RNone)
                                     (UpsertProvider (en_flush en 0) rec' (fst g)) of (st, ans) \<Rightarrow> ((st, snd g), ans)) in
             if length parts = 1 \<and> parts ! 0 = ''refresh'' \<and> meth = MethodGet then (g, Reply StatusOK (RConfigs (prov_Refresh rec)))
             else if length parts = 2 \<and> parts ! 0 = ''refresh'' \<and> meth = MethodPut then
               (case body of
                  Inl x \<Rightarrow> (g, Error StatusBadRequest x)
                | Inr cfg \<Rightarrow> upsert (with_refresh (parts ! 1) cfg rec))
             else if length parts = 2 \<and> parts ! 0 = ''refresh'' \<and> meth = MethodDelete then
               upsert (rec\<lparr>prov_Refresh := mdel (parts ! 1) (prov_Refresh rec)\<rparr>)
             else if length parts = 3 \<and> parts ! 0 = ''refresh'' \<and> parts ! 2 = ''rotate'' \<and> meth = MethodPost then
               handle_rotate sl ho en name (parts ! 1) rec g
             else (g, Error StatusNotFound ''not found'')))"

section \<open>Lemmas\<close>

lemma oauth2Token_nonempty: "oauth2Token http now material grant = Inr (v, e) \<Longrightarrow> v \<noteq> []"
  by (auto simp: oauth2Token_def Let_def split: if_splits sum.splits token_outcome.splits)

lemma aws_blob_nonempty: "aws_blob quote a b c \<noteq> []"
  by (simp add: aws_blob_def)

lemma rotateCredential_nonempty:
  assumes "rotateCredential ho cfg key = Inr (v, e)"
  shows "v \<noteq> []"
proof -
  have "lookupEnv getenv k = Some w \<Longrightarrow> w \<noteq> []" for getenv k w
    by (auto simp: lookupEnv_def split: option.splits if_splits)
  then show ?thesis
    using assms oauth2Token_nonempty aws_blob_nonempty
    by (auto simp: rotateCredential_def Let_def split: if_splits option.splits)
qed

lemma rotate_split:
  assumes "CHR ''/'' \<notin> set key"
  shows "Split (''refresh/'' @ key @ ''/rotate'') CHR ''/'' = [''refresh'', key, ''rotate'']"
proof -
  have "Split (''refresh'' @ CHR ''/'' # (key @ CHR ''/'' # ''rotate'')) CHR ''/'' = ''refresh'' # Split (key @ CHR ''/'' # ''rotate'') CHR ''/''"
    by (rule Split_sep_append) simp
  also have "Split (key @ CHR ''/'' # ''rotate'') CHR ''/'' = key # Split ''rotate'' CHR ''/''"
    by (rule Split_sep_append [OF assms])
  also have "Split ''rotate'' CHR ''/'' = [''rotate'']" by (rule Split_no_sep) simp
  finally show ?thesis by simp
qed

lemma rotate_path:
  assumes "CHR ''/'' \<notin> set key" "rq_Method r = MethodPost" "GetProvider st name = Some rec"
  shows "handleProviderRefreshPath sl ho en r b name (''refresh/'' @ key @ ''/rotate'') (st, sec) =
    Some (handle_rotate sl ho en name key rec (st, sec))"
proof -
  have "HasPrefix (''refresh/'' @ key @ ''/rotate'') ''refresh''" by (simp add: HasPrefix_def)
  then show ?thesis
    unfolding handleProviderRefreshPath_def Let_def rotate_split [OF assms(1)] by (simp add: assms(2,3))
qed

lemma rotated_stored:
  assumes "GetProvider st name = Some rec" "prov_Name rec = name"
  shows "\<exists>rec'. GetProvider (fst (UpsertProvider e (rotated key cfg expMS rec) st)) = (GetProvider st)(name \<mapsto> rec') \<and>
    mget (prov_CredentialExpiresAtMS rec') = (mget (prov_CredentialExpiresAtMS rec))(key \<mapsto> expMS) \<and>
    mget (prov_Refresh rec') = (mget (prov_Refresh rec))(key \<mapsto> cfg\<lparr>ref_ExpiresAtMS := expMS\<rparr>) \<and>
    rec' = rec\<lparr>prov_CredentialExpiresAtMS := prov_CredentialExpiresAtMS rec', prov_Refresh := prov_Refresh rec'\<rparr> \<and>
    (\<exists>ps now. state (fst (UpsertProvider e (rotated key cfg expMS rec) st)) = (state st)\<lparr>st_Providers := ps, st_UpdatedAt := now\<rparr>)"
proof -
  let ?rec = "rotated key cfg expMS rec"
  have "inherit_provider rec ?rec = ?rec"
    by (simp add: inherit_provider_def rotated_def)
  with assms have up: "state (fst (UpsertProvider e ?rec st)) =
      (state st)\<lparr>st_Providers := mput name ?rec (mmake (st_Providers (state st))), st_UpdatedAt := fl_now e\<rparr>"
    by (simp add: UpsertProvider_def GetProvider_def Let_def flush rotated_def)
  have "GetProvider (fst (UpsertProvider e ?rec st)) = (GetProvider st)(name \<mapsto> ?rec)"
    by (simp add: fun_eq_iff GetProvider_def up gomap)
  moreover have "mget (prov_CredentialExpiresAtMS ?rec) = (mget (prov_CredentialExpiresAtMS rec))(key \<mapsto> expMS)"
    "mget (prov_Refresh ?rec) = (mget (prov_Refresh rec))(key \<mapsto> cfg\<lparr>ref_ExpiresAtMS := expMS\<rparr>)"
    by (simp_all add: fun_eq_iff rotated_def gomap)
  moreover have "?rec = rec\<lparr>prov_CredentialExpiresAtMS := prov_CredentialExpiresAtMS ?rec, prov_Refresh := prov_Refresh ?rec\<rparr>"
    by (simp add: rotated_def)
  ultimately show ?thesis using up by blast
qed

section \<open>Properties\<close>

text \<open>
  C36: rotating a credential. \<open>POST /v1/providers/NAME/refresh/KEY/rotate\<close> uses the configuration of
  the key (the strategy \<open>env\<close> when there is none). When no new credential can be obtained, the answer
  is 400 and nothing changes. When there is one, it is not empty and is what the secret store is asked
  to keep for that provider and key, alone. If the secret store refuses, the answer is 500 and the
  gateway's own store is as before (the secret store is as its refusal left it). Otherwise the answer is
  204; a credential with an expiry has it recorded in the provider's record, both in the table of expiry
  times and in the key's configuration, and the other keys, the other fields of the record, the other
  providers and the rest of the state are as before; without an expiry nothing else changes.
\<close>
theorem rotate_all_or_nothing:
  assumes "GetProvider st name = Some rec" "prov_Name rec = name"
    and "CHR ''/'' \<notin> set key" "rq_Method r = MethodPost"
    and "handleProviderRefreshPath sl ho en r b name (''refresh/'' @ key @ ''/rotate'') (st, sec) = Some ((st', sec'), ans)"
    and "cfg = (case mget (prov_Refresh rec) key of Some c \<Rightarrow> c
           | None \<Rightarrow> \<lparr>ref_CredentialKey = key, ref_Strategy = ''env'', ref_Material = None, ref_ExpiresAtMS = 0\<rparr>)"
  shows "case rotateCredential ho cfg key of
      Inl _ \<Rightarrow> ans = Error StatusBadRequest err_text \<and> st' = st \<and> sec' = sec
    | Inr (v, expMS) \<Rightarrow>
        v \<noteq> [] \<and> sec' = fst (sl_Put sl name (fmupd key v fmempty) sec) \<and>
        (if snd (sl_Put sl name (fmupd key v fmempty) sec) \<noteq> None
         then ans = Error StatusInternalServerError err_text \<and> st' = st
         else ans = Reply StatusNoContent RNone \<and>
           (if expMS > 0
            then \<exists>rec'. GetProvider st' = (GetProvider st)(name \<mapsto> rec') \<and>
              mget (prov_CredentialExpiresAtMS rec') = (mget (prov_CredentialExpiresAtMS rec))(key \<mapsto> expMS) \<and>
              mget (prov_Refresh rec') = (mget (prov_Refresh rec))(key \<mapsto> cfg\<lparr>ref_ExpiresAtMS := expMS\<rparr>) \<and>
              rec' = rec\<lparr>prov_CredentialExpiresAtMS := prov_CredentialExpiresAtMS rec', prov_Refresh := prov_Refresh rec'\<rparr> \<and>
              (\<exists>ps now. state st' = (state st)\<lparr>st_Providers := ps, st_UpdatedAt := now\<rparr>)
            else st' = st))"
proof -
  have cfg: "rotate_config key rec = cfg" by (simp add: rotate_config_def assms(6) split: option.split)
  have h: "((st', sec'), ans) = handle_rotate sl ho en name key rec (st, sec)"
    using assms(5) unfolding rotate_path [OF assms(3,4,1)] by simp
  show ?thesis
  proof (cases "rotateCredential ho cfg key")
    case (Inl x)
    with h show ?thesis by (simp add: handle_rotate_def cfg)
  next
    case (Inr w)
    obtain v expMS where w: "w = (v, expMS)" by (cases w)
    obtain sec1 y where p: "sl_Put sl name (fmupd key v fmempty) sec = (sec1, y)" by fastforce
    have "v \<noteq> []" using rotateCredential_nonempty Inr w by blast
    then show ?thesis
      using h rotated_stored [OF assms(1,2), of "en_flush en 0" key cfg expMS]
      by (cases y) (auto simp: handle_rotate_def cfg Inr w p Let_def)
  qed
qed

definition ex_vault :: "(string, (string, string) fmap) fmap secrets_lib" where
  "ex_vault = \<lparr>sl_Get = (\<lambda>p ks v. Inr fmempty), sl_Put = (\<lambda>p m v. (fmupd p m v, None)), sl_DeletePrefix = (\<lambda>q v. v)\<rparr>"

definition ex_provider :: ProviderRecord where
  "ex_provider = \<lparr>prov_Name = ''gh'', prov_Type = ''github'', prov_EnvVars = [''TOKEN''], prov_CredentialExpiresAtMS = None,
     prov_RuntimeCredentials = False, prov_Config = None, prov_Refresh = None\<rparr>"

definition ex_rotate_host :: host where
  "ex_rotate_host = \<lparr>ho_getenv = (\<lambda>k. if k = ''TOKEN'' then Some ''s3cret'' else None), ho_http = (\<lambda>_. TokDoError),
     ho_now = unix_epoch, ho_quote = (\<lambda>s. s)\<rparr>"

definition ex_rotate_env :: env where
  "ex_rotate_env = \<lparr>en_now = (\<lambda>_. unix_epoch), en_flush = (\<lambda>_. ex_flush), en_rnd = (\<lambda>_. None), en_order = (\<lambda>_. [])\<rparr>"

text \<open>A provider whose key is refreshed from static AWS credentials with an expiry.\<close>

definition ex_refresh :: ProviderRefreshConfig where
  "ex_refresh = \<lparr>ref_CredentialKey = ''TOKEN'', ref_Strategy = ''aws-sts-assume-role'',
     ref_Material = Some (fmupd ''secret_access_key'' ''s'' (fmupd ''access_key_id'' ''k'' fmempty)), ref_ExpiresAtMS = 1000\<rparr>"

definition ex_sts_provider :: ProviderRecord where
  "ex_sts_provider = ex_provider\<lparr>prov_Refresh := Some (fmupd ''TOKEN'' ex_refresh fmempty)\<rparr>"

definition ex_rotate_store :: Store where
  "ex_rotate_store = fst (UpsertProvider ex_flush ex_sts_provider ex_store)"

theorem rotate_all_or_nothing_witness:
  "\<exists>st' sec' rec'. handleProviderRefreshPath ex_vault ex_rotate_host ex_rotate_env
        \<lparr>rq_Method = MethodPost, rq_Path = [], rq_Query = [], rq_Header = [], rq_Host = [], rq_RemoteAddr = [], rq_TLS = False\<rparr>
        (Inl []) ''gh'' (''refresh/'' @ ''TOKEN'' @ ''/rotate'') (ex_rotate_store, fmempty) =
      Some ((st', sec'), Reply StatusNoContent RNone) \<and>
     GetProvider st' ''gh'' = Some rec' \<and> mget (prov_CredentialExpiresAtMS rec') ''TOKEN'' = Some 1000"
proof -
  let ?r = "\<lparr>rq_Method = MethodPost, rq_Path = [], rq_Query = [], rq_Header = [], rq_Host = [], rq_RemoteAddr = [], rq_TLS = False\<rparr>"
  have prov: "GetProvider ex_rotate_store ''gh'' = Some ex_sts_provider" "prov_Name ex_sts_provider = ''gh''"
    by (simp_all add: ex_rotate_store_def UpsertProvider_def GetProvider_def flush ex_store_def initial_state_def
        ex_sts_provider_def ex_provider_def)
  have blank: "TrimSpace ''aws-sts-assume-role'' = ''aws-sts-assume-role''" "TrimSpace ''k'' = ''k''" "TrimSpace ''s'' = ''s''"
    by code_simp+
  have cred: "\<exists>v. rotateCredential ex_rotate_host ex_refresh ''TOKEN'' = Inr (v, 1000)"
    by (simp add: rotateCredential_def ex_refresh_def mstr_def blank)
  have cfg: "ex_refresh = (case mget (prov_Refresh ex_sts_provider) ''TOKEN'' of Some c \<Rightarrow> c
           | None \<Rightarrow> \<lparr>ref_CredentialKey = ''TOKEN'', ref_Strategy = ''env'', ref_Material = None, ref_ExpiresAtMS = 0\<rparr>)"
    by (simp add: ex_sts_provider_def)
  have slash: "CHR ''/'' \<notin> set ''TOKEN''" by simp
  obtain st' sec' ans where h: "handleProviderRefreshPath ex_vault ex_rotate_host ex_rotate_env ?r (Inl []) ''gh''
      (''refresh/'' @ ''TOKEN'' @ ''/rotate'') (ex_rotate_store, fmempty) = Some ((st', sec'), ans)"
    using rotate_path [OF slash _ prov(1), of ?r ex_vault ex_rotate_host ex_rotate_env "Inl []" fmempty]
    by (cases "handle_rotate ex_vault ex_rotate_host ex_rotate_env ''gh'' ''TOKEN'' ex_sts_provider (ex_rotate_store, fmempty)") auto
  from rotate_all_or_nothing [OF prov slash _ h cfg] cred show ?thesis
    unfolding h by (auto simp: ex_vault_def)
qed

end
