(* ===== verification/Policy.thy ===== *)
theory Policy
  imports Store
begin

text \<open>
  The policy and secret resolution of \<open>internal/httpapi/providers.go\<close>. The packages \<open>policy\<close>,
  \<open>provider\<close> and \<open>yaml\<close>, whose sources are not part of the repository, and the files of the
  built-in profile directory are the fields of the record \<open>policy_lib\<close>; documents and profiles
  are its type parameters. \<open>setSandboxBasePolicy\<close> makes up to two store calls, \<open>SetBasePolicy\<close>
  and the one that rolls back: \<open>(now, e)\<close> and \<open>(now', e')\<close> are their clock readings and file
  operations.
\<close>

section \<open>Interfaces\<close>

datatype api_err = ApiStore err | ApiLib string | ApiSandboxNotFound string | ApiProfileNotFound string
  | ApiProposalNotFound

record ('doc, 'prof) policy_lib =
  pl_Parse :: "string \<Rightarrow> string + 'doc"
  pl_Validate :: "'doc \<Rightarrow> string option"
  pl_Marshal :: "'doc \<Rightarrow> string + string"
  pl_Version1 :: 'doc
  pl_NetworkAllows :: "'doc \<Rightarrow> nat"
  pl_MergeGlobal :: "'doc \<Rightarrow> 'doc \<Rightarrow> string + 'doc"
  pl_OmitProviderComposed :: "'doc \<Rightarrow> 'doc \<times> nat"
  pl_EffectivePolicy :: "'doc \<Rightarrow> (string \<times> 'prof \<times> string list) list \<Rightarrow> bool \<Rightarrow> 'doc"
  pl_ParseProfile :: "string \<Rightarrow> string + 'prof"
  pl_ProfileID :: "'prof \<Rightarrow> string"
  pl_EnvKeys :: "'prof \<Rightarrow> string list"
  pl_LoadFile :: "string \<Rightarrow> string \<Rightarrow> (string + 'prof) option"
  pl_LoadDir :: "string \<Rightarrow> string list option"

section \<open>Profiles\<close>

text \<open>\<open>pl_LoadFile lib dir name\<close> is \<open>None\<close> where \<open>os.Stat\<close> of the file fails.\<close>

definition resolveProfile :: "('doc, 'prof) policy_lib \<Rightarrow> string \<Rightarrow> string \<Rightarrow> Store \<Rightarrow> (api_err + 'prof) \<times> string" where
  "resolveProfile lib builtinDir pid st =
     (case GetProfile st pid of
        Some rec \<Rightarrow>
          (case pl_ParseProfile lib (prof_YAML rec) of
             Inl x \<Rightarrow> (Inl (ApiLib x), ''custom'')
           | Inr p \<Rightarrow> (Inr p, ''custom''))
      | None \<Rightarrow>
          (let builtin = (if builtinDir = [] then None
             else case pl_LoadFile lib builtinDir (pid @ ''.yaml'') of
                    Some x \<Rightarrow> Some x
                  | None \<Rightarrow> pl_LoadFile lib builtinDir (pid @ ''.yml'')) in
           case builtin of
             Some (Inl x) \<Rightarrow> (Inl (ApiLib x), ''builtin'')
           | Some (Inr p) \<Rightarrow> (Inr p, ''builtin'')
           | None \<Rightarrow> (Inl (ApiProfileNotFound pid), [])))"

definition listProfiles :: "('doc, 'prof) policy_lib \<Rightarrow> string list \<Rightarrow> string \<Rightarrow> Store \<Rightarrow> (string \<times> string) list" where
  "listProfiles lib ks builtinDir st =
     (let builtin = (if builtinDir = [] then [] else case pl_LoadDir lib builtinDir of None \<Rightarrow> [] | Some ids \<Rightarrow> ids) in
      map (\<lambda>i. (i, ''builtin'')) builtin @
      map (\<lambda>i. (i, ''custom'')) (filter (\<lambda>i. i \<notin> set builtin) (map fst (mrange ks (st_Profiles (Snapshot st))))))"

section \<open>The effective policy\<close>

fun provider_layers ::
    "('doc, 'prof) policy_lib \<Rightarrow> string \<Rightarrow> Store \<Rightarrow> string list \<Rightarrow> api_err + (string \<times> 'prof \<times> string list) list" where
  "provider_layers lib builtinDir st [] = Inr []"
| "provider_layers lib builtinDir st (name # names) =
     (case GetProvider st name of
        None \<Rightarrow> provider_layers lib builtinDir st names
      | Some inst \<Rightarrow>
          (case fst (resolveProfile lib builtinDir (prov_Type inst) st) of
             Inl x \<Rightarrow> Inl x
           | Inr prof \<Rightarrow>
               (case provider_layers lib builtinDir st names of
                  Inl x \<Rightarrow> Inl x
                | Inr ls \<Rightarrow> Inr ((name, prof, prov_EnvVars inst) # ls))))"

definition base_document :: "('doc, 'prof) policy_lib \<Rightarrow> Sandbox \<Rightarrow> api_err + 'doc" where
  "base_document lib sb =
     (if TrimSpace (sb_BasePolicyYAML sb) \<noteq> []
      then (case pl_Parse lib (sb_BasePolicyYAML sb) of Inl x \<Rightarrow> Inl (ApiLib x) | Inr doc \<Rightarrow> Inr doc)
      else Inr (pl_Version1 lib))"

text \<open>The global policy: the merged base and whether it suppresses provider rules.\<close>

definition merge_global :: "('doc, 'prof) policy_lib \<Rightarrow> string \<Rightarrow> 'doc \<Rightarrow> api_err + 'doc \<times> bool" where
  "merge_global lib globalYAML base =
     (if TrimSpace globalYAML \<noteq> [] then
        (case pl_Parse lib globalYAML of
           Inl x \<Rightarrow> Inl (ApiLib x)
         | Inr gdoc \<Rightarrow>
             (case pl_MergeGlobal lib base gdoc of
                Inl x \<Rightarrow> Inl (ApiLib x)
              | Inr merged \<Rightarrow> Inr (merged, pl_NetworkAllows lib gdoc > 0)))
      else Inr (base, False))"

definition effectivePolicy :: "('doc, 'prof) policy_lib \<Rightarrow> string \<Rightarrow> string \<Rightarrow> Store \<Rightarrow> api_err + 'doc" where
  "effectivePolicy lib builtinDir sandbox st =
     (case GetSandbox st sandbox of
        None \<Rightarrow> Inl (ApiSandboxNotFound sandbox)
      | Some sb \<Rightarrow>
          (case base_document lib sb of
             Inl x \<Rightarrow> Inl x
           | Inr base \<Rightarrow>
               (case merge_global lib (GetGlobalPolicy st) base of
                  Inl x \<Rightarrow> Inl x
                | Inr (base, suppress) \<Rightarrow>
                    (case provider_layers lib builtinDir st (sb_AttachedProviders sb) of
                       Inl x \<Rightarrow> Inl x
                     | Inr layers \<Rightarrow>
                         let out = pl_EffectivePolicy lib base layers suppress in
                         (case pl_Validate lib out of Some x \<Rightarrow> Inl (ApiLib x) | None \<Rightarrow> Inr out)))))"

section \<open>Setting the base policy\<close>

text \<open>What is stored: the body, or the re-encoded document when provider rules were removed.\<close>

definition checked_base :: "('doc, 'prof) policy_lib \<Rightarrow> string \<Rightarrow> api_err + string \<times> nat" where
  "checked_base lib body =
     (case pl_Parse lib body of
        Inl x \<Rightarrow> Inl (ApiLib x)
      | Inr doc \<Rightarrow>
          (case pl_OmitProviderComposed lib doc of
             (doc, stripped) \<Rightarrow>
               (case pl_Validate lib doc of
                  Some x \<Rightarrow> Inl (ApiLib x)
                | None \<Rightarrow>
                    if stripped > 0
                    then (case pl_Marshal lib doc of Inl x \<Rightarrow> Inl (ApiLib x) | Inr y \<Rightarrow> Inr (y, stripped))
                    else Inr (body, stripped))))"

text \<open>The effective policy of the new state, encoded.\<close>

definition effective_yaml :: "('doc, 'prof) policy_lib \<Rightarrow> string \<Rightarrow> string \<Rightarrow> Store \<Rightarrow> api_err + string" where
  "effective_yaml lib builtinDir name st =
     (case effectivePolicy lib builtinDir name st of
        Inl x \<Rightarrow> Inl x
      | Inr doc \<Rightarrow> (case pl_Marshal lib doc of Inl x \<Rightarrow> Inl (ApiLib x) | Inr b \<Rightarrow> Inr b))"

definition setSandboxBasePolicy ::
    "('doc, 'prof) policy_lib \<Rightarrow> time \<times> flush_env \<Rightarrow> time \<times> flush_env \<Rightarrow> string \<Rightarrow> string \<Rightarrow> string \<Rightarrow> Store
     \<Rightarrow> Store \<times> (api_err + string \<times> nat)" where
  "setSandboxBasePolicy lib t t' builtinDir name body st =
     (case GetSandbox st name of
        None \<Rightarrow> (st, Inl (ApiSandboxNotFound name))
      | Some prev \<Rightarrow>
          (case checked_base lib body of
             Inl x \<Rightarrow> (st, Inl x)
           | Inr (storeYAML, stripped) \<Rightarrow>
               (case SetBasePolicy (fst t) (snd t) name storeYAML st of
                  (st1, Some x) \<Rightarrow> (st1, Inl (ApiStore x))
                | (st1, None) \<Rightarrow>
                    (case effective_yaml lib builtinDir name st1 of
                       Inl x \<Rightarrow> (fst (SetBasePolicy (fst t') (snd t') name (sb_BasePolicyYAML prev) st1), Inl x)
                     | Inr b \<Rightarrow> (st1, Inr (b, stripped))))))"

section \<open>Secrets\<close>

definition aliasGitHubTokenKeys :: "(string, string) fmap \<Rightarrow> (string, string) fmap" where
  "aliasGitHubTokenKeys out =
     (let gh = fmlookup out ''GITHUB_TOKEN''; tok = fmlookup out ''GH_TOKEN'';
          out = (case gh of Some v \<Rightarrow> if TrimSpace v \<noteq> [] \<and> tok = None then fmupd ''GH_TOKEN'' v out else out | None \<Rightarrow> out) in
      case tok of Some v \<Rightarrow> if TrimSpace v \<noteq> [] \<and> gh = None then fmupd ''GITHUB_TOKEN'' v out else out | None \<Rightarrow> out)"

text \<open>\<open>creds p keys\<close> stands for \<open>sec.GetProviderCredentials\<close>; no secret store is \<open>None\<close>.\<close>

definition secret_keys :: "('doc, 'prof) policy_lib \<Rightarrow> string \<Rightarrow> Store \<Rightarrow> ProviderRecord \<Rightarrow> string list" where
  "secret_keys lib builtinDir st inst =
     (if prov_EnvVars inst = []
      then (case fst (resolveProfile lib builtinDir (prov_Type inst) st) of Inl _ \<Rightarrow> [] | Inr prof \<Rightarrow> pl_EnvKeys lib prof)
      else prov_EnvVars inst)"

fun collect_secrets ::
    "('doc, 'prof) policy_lib \<Rightarrow> (string \<Rightarrow> string list \<Rightarrow> string + (string, string) fmap) \<Rightarrow> string \<Rightarrow> Store \<Rightarrow>
     string list \<Rightarrow> (string, string) fmap \<Rightarrow> api_err + (string, string) fmap" where
  "collect_secrets lib creds builtinDir st [] out = Inr out"
| "collect_secrets lib creds builtinDir st (pname # pnames) out =
     (case GetProvider st pname of
        None \<Rightarrow> collect_secrets lib creds builtinDir st pnames out
      | Some inst \<Rightarrow>
          (case creds pname (secret_keys lib builtinDir st inst) of
             Inl x \<Rightarrow> Inl (ApiLib x)
           | Inr kv \<Rightarrow> collect_secrets lib creds builtinDir st pnames (out ++\<^sub>f kv)))"

definition resolveSandboxSecrets ::
    "('doc, 'prof) policy_lib \<Rightarrow> (string \<Rightarrow> string list \<Rightarrow> string + (string, string) fmap) option \<Rightarrow> string \<Rightarrow> string \<Rightarrow> Store
     \<Rightarrow> api_err + (string, string) fmap" where
  "resolveSandboxSecrets lib sec builtinDir sandbox st =
     (case GetSandbox st sandbox of
        None \<Rightarrow> Inl (ApiSandboxNotFound sandbox)
      | Some sb \<Rightarrow>
          (case sec of
             None \<Rightarrow> Inr fmempty
           | Some creds \<Rightarrow>
               (case collect_secrets lib creds builtinDir st (sb_AttachedProviders sb) fmempty of
                  Inl x \<Rightarrow> Inl x
                | Inr out \<Rightarrow> Inr (aliasGitHubTokenKeys out))))"

section \<open>Lemmas\<close>

lemma SetBasePolicy_frame [simp]:
  "GetProvider (fst (SetBasePolicy now e n y st)) = GetProvider st"
  "GetProfile (fst (SetBasePolicy now e n y st)) = GetProfile st"
  "GetGlobalPolicy (fst (SetBasePolicy now e n y st)) = GetGlobalPolicy st"
  by (auto simp: fun_eq_iff SetBasePolicy_eq GetProvider_def GetProfile_def GetGlobalPolicy_def Let_def flush split: option.splits)

lemma SetBasePolicy_get:
  "GetSandbox (fst (SetBasePolicy now e n y st)) m =
     (if m = n then map_option (\<lambda>sb. sb\<lparr>sb_BasePolicyYAML := y, sb_UpdatedAt := now,
        sb_PolicyRev := int64 (sb_PolicyRev sb + 1),
        sb_PolicyRevisions := keep_last MaxPolicyRevisions (sb_PolicyRevisions sb @
          [\<lparr>rev_Rev = int64 (sb_PolicyRev sb + 1), rev_UpdatedAt = now, rev_Bytes = int (length y),
            rev_Status = PolicyStatusLoaded, rev_YAML = y\<rparr>])\<rparr>) (GetSandbox st n)
      else GetSandbox st m)"
  by (auto simp: GetSandbox_def SetBasePolicy_eq Let_def flush mget_mput mget_nonnil keep_last_def split: option.splits)

lemma SetBasePolicy_ok: "snd (SetBasePolicy now e n y st) = None \<longleftrightarrow> GetSandbox st n \<noteq> None \<and> flush_ok e"
  by (auto simp: SetBasePolicy_eq GetSandbox_def Let_def save_err split: option.splits)

text \<open>The effective policy reads from a sandbox only its base policy and its providers.\<close>

lemma resolveProfile_cong: "GetProfile st' = GetProfile st \<Longrightarrow> resolveProfile lib d p st' = resolveProfile lib d p st"
  by (simp add: resolveProfile_def)

lemma provider_layers_cong:
  assumes "GetProvider st' = GetProvider st" "GetProfile st' = GetProfile st"
  shows "provider_layers lib d st' ns = provider_layers lib d st ns"
proof (induction ns)
  case (Cons n ns)
  show ?case
    unfolding provider_layers.simps assms(1) resolveProfile_cong [OF assms(2)] Cons.IH by (rule refl)
qed simp

lemma effectivePolicy_cong:
  assumes "map_option (\<lambda>sb. (sb_BasePolicyYAML sb, sb_AttachedProviders sb)) (GetSandbox st' n) =
           map_option (\<lambda>sb. (sb_BasePolicyYAML sb, sb_AttachedProviders sb)) (GetSandbox st n)"
    and "GetProvider st' = GetProvider st" "GetProfile st' = GetProfile st" "GetGlobalPolicy st' = GetGlobalPolicy st"
  shows "effectivePolicy lib d n st' = effectivePolicy lib d n st"
proof (cases "GetSandbox st n")
  case None
  with assms(1) show ?thesis by (simp add: effectivePolicy_def)
next
  case (Some sb)
  with assms(1) obtain sb' where sb': "GetSandbox st' n = Some sb'" and
    eq: "sb_BasePolicyYAML sb' = sb_BasePolicyYAML sb" "sb_AttachedProviders sb' = sb_AttachedProviders sb"
    by auto
  show ?thesis
    unfolding effectivePolicy_def base_document_def assms(4) provider_layers_cong [OF assms(2,3)] Some sb' option.case eq
    by (rule refl)
qed

lemma setSandboxBasePolicy_cases:
  assumes "setSandboxBasePolicy lib t t' d name body st = (st', res)"
  obtains (missing) "GetSandbox st name = None" "st' = st" "res = Inl (ApiSandboxNotFound name)"
  | (refused) prev x where "GetSandbox st name = Some prev" "checked_base lib body = Inl x" "st' = st" "res = Inl x"
  | (unsaved) prev y k x where "GetSandbox st name = Some prev" "checked_base lib body = Inr (y, k)" "\<not> flush_ok (snd t)"
      "st' = fst (SetBasePolicy (fst t) (snd t) name y st)" "res = Inl (ApiStore x)"
  | (rolled_back) prev y k x where "GetSandbox st name = Some prev" "checked_base lib body = Inr (y, k)" "flush_ok (snd t)"
      "effective_yaml lib d name (fst (SetBasePolicy (fst t) (snd t) name y st)) = Inl x"
      "st' = fst (SetBasePolicy (fst t') (snd t') name (sb_BasePolicyYAML prev) (fst (SetBasePolicy (fst t) (snd t) name y st)))"
      "res = Inl x"
  | (stored) prev y k b where "GetSandbox st name = Some prev" "checked_base lib body = Inr (y, k)" "flush_ok (snd t)"
      "st' = fst (SetBasePolicy (fst t) (snd t) name y st)" "effective_yaml lib d name st' = Inr b" "res = Inr (b, k)"
proof (cases "GetSandbox st name")
  case None
  have "st' = st" "res = Inl (ApiSandboxNotFound name)"
    using assms by (simp_all add: setSandboxBasePolicy_def None)
  with None show ?thesis by (rule missing)
next
  case prev: (Some prev)
  note def = assms [unfolded setSandboxBasePolicy_def prev option.case]
  show ?thesis
  proof (cases "checked_base lib body")
    case (Inl x)
    have "st' = st" "res = Inl x" using def by (simp_all add: Inl)
    with prev Inl show ?thesis by (rule refused)
  next
    case (Inr yk)
    obtain y k where yk: "yk = (y, k)" by (cases yk)
    note base = Inr [unfolded yk]
    note def = def [unfolded base sum.case prod.case]
    let ?s = "SetBasePolicy (fst t) (snd t) name y st"
    have ok: "snd ?s = None \<longleftrightarrow> flush_ok (snd t)" using SetBasePolicy_ok [of "fst t" "snd t" name y st] prev by simp
    show ?thesis
    proof (cases "snd ?s")
      case (Some x)
      have "st' = fst ?s" "res = Inl (ApiStore x)"
        using def Some by (simp_all add: case_prod_unfold)
      with prev base ok Some show ?thesis by (intro unsaved) simp_all
    next
      case None
      note def = def [unfolded case_prod_unfold None option.case]
      show ?thesis
      proof (cases "effective_yaml lib d name (fst ?s)")
        case (Inl x)
        have "st' = fst (SetBasePolicy (fst t') (snd t') name (sb_BasePolicyYAML prev) (fst ?s))" "res = Inl x"
          using def by (simp_all add: Inl)
        with prev base ok None Inl show ?thesis by (intro rolled_back) simp_all
      next
        case (Inr b)
        have "st' = fst ?s" "res = Inr (b, k)" using def by (simp_all add: Inr)
        with prev base ok None Inr show ?thesis by (intro stored) simp_all
      qed
    qed
  qed
qed

lemma collect_secrets_source:
  assumes "collect_secrets lib creds d st ps out = Inr out'" "fmlookup out' k = Some v"
  shows "fmlookup out k = Some v \<or>
    (\<exists>p inst kv. p \<in> set ps \<and> GetProvider st p = Some inst \<and> creds p (secret_keys lib d st inst) = Inr kv \<and> fmlookup kv k = Some v)"
  using assms
proof (induction ps arbitrary: out)
  case (Cons p ps)
  show ?case
  proof (cases "GetProvider st p")
    case None
    with Cons.prems Cons.IH [of out] show ?thesis by auto
  next
    case (Some inst)
    with Cons.prems(1) obtain kv where kv: "creds p (secret_keys lib d st inst) = Inr kv"
      "collect_secrets lib creds d st ps (out ++\<^sub>f kv) = Inr out'"
      by (auto split: sum.splits)
    from Cons.IH [OF kv(2) Cons.prems(2)] show ?thesis
    proof
      assume "fmlookup (out ++\<^sub>f kv) k = Some v"
      then have "fmlookup kv k = Some v \<or> fmlookup out k = Some v"
        by (auto simp: fmlookup_add split: if_splits)
      with Some kv(1) show ?thesis by auto
    qed (use Some in auto)
  qed
qed simp

lemma alias_lookup:
  "fmlookup (aliasGitHubTokenKeys out) k =
     (case fmlookup out k of Some v \<Rightarrow> Some v
      | None \<Rightarrow>
          if k = ''GH_TOKEN'' then (case fmlookup out ''GITHUB_TOKEN'' of Some v \<Rightarrow> if TrimSpace v \<noteq> [] then Some v else None | None \<Rightarrow> None)
          else if k = ''GITHUB_TOKEN'' then (case fmlookup out ''GH_TOKEN'' of Some v \<Rightarrow> if TrimSpace v \<noteq> [] then Some v else None | None \<Rightarrow> None)
          else None)"
  by (auto simp: aliasGitHubTokenKeys_def Let_def split: option.splits)

section \<open>Examples\<close>

text \<open>
  Documents and profiles are their own text; the document \<open>!\<close> is invalid, and composing
  \<open>conflict\<close> gives it.
\<close>

definition ex_lib :: "(string, string) policy_lib" where
  "ex_lib = \<lparr>pl_Parse = Inr, pl_Validate = (\<lambda>d. if d = ''!'' then Some ''invalid'' else None), pl_Marshal = Inr,
     pl_Version1 = ''v1'', pl_NetworkAllows = (\<lambda>d. 0), pl_MergeGlobal = (\<lambda>b g. Inr b),
     pl_OmitProviderComposed = (\<lambda>d. (d, 0)), pl_EffectivePolicy = (\<lambda>b ls s. if b = ''conflict'' then ''!'' else b),
     pl_ParseProfile = Inr, pl_ProfileID = (\<lambda>p. p), pl_EnvKeys = (\<lambda>p. [p]), pl_LoadFile = (\<lambda>d f. None),
     pl_LoadDir = (\<lambda>d. None)\<rparr>"

definition ex_bad_flush :: flush_env where
  "ex_bad_flush = ex_flush\<lparr>fl_write := WriteOpenFails\<rparr>"

lemma ex_bad_flush [simp]: "\<not> flush_ok ex_bad_flush"
  by (simp add: ex_bad_flush_def flush_ok_def)

lemma ex_store_demo: "GetSandbox ex_store ''demo'' = Some (ex_sandbox ''demo'')" "GetGlobalPolicy ex_store = []"
  by (simp_all add: GetSandbox_def GetGlobalPolicy_def ex_store_def initial_state_def)

lemma ex_checked: "checked_base ex_lib body = (if body = ''!'' then Inl (ApiLib ''invalid'') else Inr (body, 0))"
  by (simp add: checked_base_def ex_lib_def)

lemma ex_effective:
  assumes "TrimSpace y \<noteq> []"
  shows "effective_yaml ex_lib [] ''demo'' (fst (SetBasePolicy now e ''demo'' y ex_store)) =
     (if y = ''conflict'' \<or> y = ''!'' then Inl (ApiLib ''invalid'') else Inr y)"
proof -
  have "sb_AttachedProviders (ex_sandbox ''demo'') = [''gh'']" "GetProvider ex_store ''gh'' = None"
    by (simp_all add: ex_sandbox_def GetProvider_def ex_store_def initial_state_def)
  then show ?thesis
    using assms
    by (simp add: effective_yaml_def effectivePolicy_def SetBasePolicy_get ex_store_demo base_document_def merge_global_def
        ex_lib_def)
qed

section \<open>Properties\<close>

text \<open>
  C32: a policy that is accepted is the one in force. When \<open>setSandboxBasePolicy\<close> succeeds, the
  checked text is the sandbox's base policy and its newest revision, the answer is the encoding of
  the effective policy computed from exactly that state, and no other sandbox changes.
\<close>
theorem set_policy_success:
  assumes "setSandboxBasePolicy lib t t' d name body st = (st', Inr (b, stripped))"
  shows "\<exists>y sb. checked_base lib body = Inr (y, stripped) \<and> GetSandbox st' name = Some sb \<and>
     sb_BasePolicyYAML sb = y \<and> rev_YAML (last (sb_PolicyRevisions sb)) = y \<and>
     effective_yaml lib d name st' = Inr b \<and> (\<forall>n. n \<noteq> name \<longrightarrow> GetSandbox st' n = GetSandbox st n)"
  using assms
proof (cases rule: setSandboxBasePolicy_cases)
  case (stored prev y k b')
  have "0 < MaxPolicyRevisions" by (simp add: MaxPolicyRevisions_def)
  with stored show ?thesis by (auto simp: SetBasePolicy_get keep_last_snoc)
qed simp_all

theorem set_policy_success_witness:
  "\<exists>y sb. GetSandbox (fst (setSandboxBasePolicy ex_lib (5, ex_flush) (6, ex_flush) [] ''demo'' ''allow'' ex_store)) ''demo'' = Some sb \<and>
     sb_BasePolicyYAML sb = y \<and> checked_base ex_lib ''allow'' = Inr (y, 0)"
proof -
  have t: "TrimSpace ''allow'' \<noteq> []" by code_simp
  obtain st' res where r: "setSandboxBasePolicy ex_lib (5, ex_flush) (6, ex_flush) [] ''demo'' ''allow'' ex_store = (st', res)"
    by (cases "setSandboxBasePolicy ex_lib (5, ex_flush) (6, ex_flush) [] ''demo'' ''allow'' ex_store")
  have "res = Inr (''allow'', 0)"
    using r by (cases rule: setSandboxBasePolicy_cases) (auto simp: ex_store_demo ex_checked ex_effective [OF t])
  from set_policy_success [OF r [unfolded this]] show ?thesis unfolding r by auto
qed

text \<open>
  C33: setting a policy fails closed, as long as the state file can be written. When the first
  write succeeds and \<open>setSandboxBasePolicy\<close> returns an error, whichever, every sandbox has the base
  policy it had, and its effective policy is unchanged, even if writing the rolled back state
  fails.
\<close>
theorem set_policy_fail_closed:
  assumes "setSandboxBasePolicy lib t t' d name body st = (st', Inl x)" and "flush_ok (snd t)"
  shows "map_option sb_BasePolicyYAML (GetSandbox st' n) = map_option sb_BasePolicyYAML (GetSandbox st n) \<and>
         effectivePolicy lib d' n st' = effectivePolicy lib d' n st"
proof -
  have "map_option (\<lambda>sb. (sb_BasePolicyYAML sb, sb_AttachedProviders sb)) (GetSandbox st' n) =
        map_option (\<lambda>sb. (sb_BasePolicyYAML sb, sb_AttachedProviders sb)) (GetSandbox st n) \<and>
        GetProvider st' = GetProvider st \<and> GetProfile st' = GetProfile st \<and> GetGlobalPolicy st' = GetGlobalPolicy st"
    using assms(1)
  proof (cases rule: setSandboxBasePolicy_cases)
    case (rolled_back prev y k x')
    then show ?thesis by (auto simp: SetBasePolicy_get)
  qed (use assms(2) in auto)
  then show ?thesis
    using effectivePolicy_cong [of st' n st lib d'] by (cases "GetSandbox st' n"; cases "GetSandbox st n") auto
qed

theorem set_policy_fail_closed_witness:
  "map_option sb_BasePolicyYAML (GetSandbox (fst (setSandboxBasePolicy ex_lib (5, ex_flush) (6, ex_bad_flush) [] ''demo'' ''conflict'' ex_store)) ''demo'') = Some []"
proof -
  have t: "TrimSpace ''conflict'' \<noteq> []" by code_simp
  obtain st' res where r: "setSandboxBasePolicy ex_lib (5, ex_flush) (6, ex_bad_flush) [] ''demo'' ''conflict'' ex_store = (st', res)"
    by (cases "setSandboxBasePolicy ex_lib (5, ex_flush) (6, ex_bad_flush) [] ''demo'' ''conflict'' ex_store")
  have "res = Inl (ApiLib ''invalid'')"
    using r by (cases rule: setSandboxBasePolicy_cases) (auto simp: ex_store_demo ex_checked ex_effective [OF t])
  from set_policy_fail_closed [OF r [unfolded this], of "''demo''"] show ?thesis
    unfolding r by (simp add: ex_store_demo ex_sandbox_def)
qed

text \<open>
  A policy that is refused is recorded as loaded. When the effective policy cannot be
  composed, the roll back restores the base policy but leaves two new revisions, the refused text
  and the old one, both with the status of a loaded policy, and the revision counter two higher.
\<close>
lemma refused_policy_recorded:
  assumes "GetSandbox st name = Some prev" "checked_base lib body = Inr (y, k)" "flush_ok (snd t)"
    and "effective_yaml lib d name (fst (SetBasePolicy (fst t) (snd t) name y st)) = Inl x"
  shows "\<exists>sb r1 r2. GetSandbox (fst (setSandboxBasePolicy lib t t' d name body st)) name = Some sb \<and>
     sb_PolicyRevisions sb = keep_last MaxPolicyRevisions (sb_PolicyRevisions prev @ [r1, r2]) \<and>
     rev_YAML r1 = y \<and> rev_Status r1 = PolicyStatusLoaded \<and>
     rev_YAML r2 = sb_BasePolicyYAML prev \<and> rev_Status r2 = PolicyStatusLoaded \<and>
     sb_PolicyRev sb = int64 (int64 (sb_PolicyRev prev + 1) + 1)"
proof -
  obtain st' res where r: "setSandboxBasePolicy lib t t' d name body st = (st', res)"
    by (cases "setSandboxBasePolicy lib t t' d name body st")
  have "st' = fst (SetBasePolicy (fst t') (snd t') name (sb_BasePolicyYAML prev) (fst (SetBasePolicy (fst t) (snd t) name y st)))"
    using r by (cases rule: setSandboxBasePolicy_cases) (use assms in auto)
  then show ?thesis
    unfolding r fst_conv
    by (simp add: SetBasePolicy_get assms(1) keep_last_append)
      (intro exI conjI, rule refl, simp_all)
qed

text \<open>
  C34: a policy can be in force although setting it was answered with an error. When the state file
  cannot be written, \<open>setSandboxBasePolicy\<close> returns the error without rolling back: the new text is
  the sandbox's base policy in memory, and the effective policy is computed from it.
\<close>
theorem unsaved_policy_in_force:
  assumes "GetSandbox st name = Some prev" "checked_base lib body = Inr (y, k)" "\<not> flush_ok (snd t)"
  shows "(\<exists>x. snd (setSandboxBasePolicy lib t t' d name body st) = Inl (ApiStore x)) \<and>
     map_option sb_BasePolicyYAML (GetSandbox (fst (setSandboxBasePolicy lib t t' d name body st)) name) = Some y"
proof -
  obtain st' res where r: "setSandboxBasePolicy lib t t' d name body st = (st', res)"
    by (cases "setSandboxBasePolicy lib t t' d name body st")
  have "st' = fst (SetBasePolicy (fst t) (snd t) name y st) \<and> (\<exists>x. res = Inl (ApiStore x))"
    using r by (cases rule: setSandboxBasePolicy_cases) (use assms in auto)
  then show ?thesis unfolding r by (auto simp: SetBasePolicy_get assms(1))
qed

theorem unsaved_policy_in_force_witness:
  "map_option sb_BasePolicyYAML (GetSandbox (fst (setSandboxBasePolicy ex_lib (5, ex_bad_flush) (6, ex_flush) [] ''demo'' ''conflict'' ex_store)) ''demo'') = Some ''conflict''"
proof -
  have c: "checked_base ex_lib ''conflict'' = Inr (''conflict'', 0)" by (simp add: ex_checked)
  from unsaved_policy_in_force [OF ex_store_demo(1) c, of "(5, ex_bad_flush)" "(6, ex_flush)" "[]"] show ?thesis by simp
qed

text \<open>
  C35: a sandbox gets the secrets of its attached providers and no others. Every value
  \<open>resolveSandboxSecrets\<close> returns is a credential of a registered provider attached to that
  sandbox, read under the keys declared for it, and stands under its own key, except that
  \<open>GH_TOKEN\<close> and \<open>GITHUB_TOKEN\<close> each stand in for the other when only one of them is there.
\<close>
theorem secrets_of_attached_only:
  assumes "resolveSandboxSecrets lib (Some creds) d sandbox st = Inr out" "fmlookup out k = Some v"
  shows "\<exists>sb p inst kv k'. GetSandbox st sandbox = Some sb \<and> p \<in> set (sb_AttachedProviders sb) \<and>
     GetProvider st p = Some inst \<and> creds p (secret_keys lib d st inst) = Inr kv \<and> fmlookup kv k' = Some v \<and>
     (k' = k \<or> (k, k') \<in> {(''GH_TOKEN'', ''GITHUB_TOKEN''), (''GITHUB_TOKEN'', ''GH_TOKEN'')})"
proof -
  obtain sb where sb: "GetSandbox st sandbox = Some sb"
    using assms(1) by (auto simp: resolveSandboxSecrets_def split: option.splits)
  then obtain o1 where o1: "collect_secrets lib creds d st (sb_AttachedProviders sb) fmempty = Inr o1"
    and out: "out = aliasGitHubTokenKeys o1"
    using assms(1) by (auto simp: resolveSandboxSecrets_def split: sum.splits)
  obtain k' where k': "fmlookup o1 k' = Some v" "k' = k \<or> (k, k') \<in> {(''GH_TOKEN'', ''GITHUB_TOKEN''), (''GITHUB_TOKEN'', ''GH_TOKEN'')}"
    using assms(2) unfolding out alias_lookup by (auto split: option.splits if_splits)
  from collect_secrets_source [OF o1 k'(1)] sb k'(2) show ?thesis by auto
qed

definition ex_gh_provider :: ProviderRecord where
  "ex_gh_provider = \<lparr>prov_Name = ''gh'', prov_Type = ''github'', prov_EnvVars = [''GH_TOKEN''], prov_CredentialExpiresAtMS = None,
     prov_RuntimeCredentials = False, prov_Config = None, prov_Refresh = None\<rparr>"

definition ex_gh_store :: Store where
  "ex_gh_store = put_provider ex_flush ''gh'' ex_gh_provider ex_store"

definition ex_creds :: "string \<Rightarrow> string list \<Rightarrow> string + (string, string) fmap" where
  "ex_creds p ks = Inr (fmupd ''GH_TOKEN'' ''t0ken'' fmempty)"

lemma ex_gh_store_get:
  "GetProvider ex_gh_store ''gh'' = Some ex_gh_provider" "GetSandbox ex_gh_store ''demo'' = Some (ex_sandbox ''demo'')"
  by (simp_all add: ex_gh_store_def put_provider_def UpsertProvider_def GetProvider_def GetSandbox_def flush
      ex_store_def initial_state_def ex_gh_provider_def)

lemma ex_secrets:
  "resolveSandboxSecrets ex_lib (Some ex_creds) [] ''demo'' ex_gh_store =
     Inr (fmupd ''GITHUB_TOKEN'' ''t0ken'' (fmupd ''GH_TOKEN'' ''t0ken'' fmempty))"
proof -
  have "TrimSpace ''t0ken'' \<noteq> []" by code_simp
  then show ?thesis
    by (simp add: resolveSandboxSecrets_def ex_gh_store_get ex_creds_def ex_sandbox_def aliasGitHubTokenKeys_def)
qed

theorem secrets_of_attached_only_witness:
  "\<exists>sb p inst. GetSandbox ex_gh_store ''demo'' = Some sb \<and> p \<in> set (sb_AttachedProviders sb) \<and> GetProvider ex_gh_store p = Some inst"
  using secrets_of_attached_only [OF ex_secrets, of "''GITHUB_TOKEN''" "''t0ken''"] by auto

end
