(* ===== verification/Store_Proposals.thy ===== *)
theory Store_Proposals
  imports Store
begin

text \<open>
  \<open>internal/storage/store/proposals.go\<close>: policy proposals, keyed by their id. \<open>now\<close> is the
  reading for \<open>CreatedAt\<close> or \<open>DecidedAt\<close>, \<open>now'\<close> the one for the state's own
  \<open>UpdatedAt\<close>, which \<open>flushLocked\<close> sets again.
\<close>

definition PutProposal :: "time \<Rightarrow> time \<Rightarrow> flush_env \<Rightarrow> Proposal \<Rightarrow> Store \<Rightarrow> Store \<times> err option" where
  "PutProposal now now' e p s =
     (let s = s\<lparr>state := (state s)\<lparr>st_Proposals := mmake (st_Proposals (state s))\<rparr>\<rparr> in
      if pr_ID p = [] then (s, Some ProposalIDRequired)
      else if pr_Sandbox p = [] then (s, Some ProposalSandboxRequired)
      else
        let p = (if pr_Status p = [] then p\<lparr>pr_Status := ''pending''\<rparr> else p);
            p = (if IsZero (pr_CreatedAt p) then p\<lparr>pr_CreatedAt := now\<rparr> else p) in
        mwrite (s, Some NilMapPanic) (pr_ID p) p (st_Proposals (state s))
          (\<lambda>m. save e ((state s)\<lparr>st_Proposals := m, st_UpdatedAt := now'\<rparr>) s))"

definition GetProposal :: "Store \<Rightarrow> string \<Rightarrow> Proposal option" where
  "GetProposal s pid = mget (st_Proposals (state s)) pid"

definition ListProposals :: "string list \<Rightarrow> string \<Rightarrow> string \<Rightarrow> Store \<Rightarrow> Proposal list" where
  "ListProposals ks sandbox status s =
     filter (\<lambda>p. \<not> (sandbox \<noteq> [] \<and> pr_Sandbox p \<noteq> sandbox) \<and> \<not> (status \<noteq> [] \<and> pr_Status p \<noteq> status))
       (map snd (mrange ks (st_Proposals (state s))))"

definition DecideProposal ::
    "time \<Rightarrow> time \<Rightarrow> flush_env \<Rightarrow> string \<Rightarrow> string \<Rightarrow> string \<Rightarrow> Store \<Rightarrow> Store \<times> (err + Proposal)" where
  "DecideProposal now now' e pid status reason s =
     (case mget (st_Proposals (state s)) pid of
        None \<Rightarrow> (s, Inl ProposalNotFound)
      | Some p \<Rightarrow>
          if status \<noteq> ''approved'' \<and> status \<noteq> ''rejected'' then (s, Inl BadProposalStatus)
          else
            let p = p\<lparr>pr_Status := status, pr_RejectionReason := reason, pr_DecidedAt := now\<rparr> in
            mwrite (s, Inl NilMapPanic) pid p (st_Proposals (state s))
              (\<lambda>m. case save e ((state s)\<lparr>st_Proposals := m, st_UpdatedAt := now'\<rparr>) s of
                 (s', Some x) \<Rightarrow> (s', Inl x)
               | (s', None) \<Rightarrow> (s', Inr p)))"

lemma DecideProposal_eq:
  "DecideProposal now now' e pid status reason s =
     (case mget (st_Proposals (state s)) pid of
        None \<Rightarrow> (s, Inl ProposalNotFound)
      | Some p \<Rightarrow>
          if status \<noteq> ''approved'' \<and> status \<noteq> ''rejected'' then (s, Inl BadProposalStatus)
          else
            let p = p\<lparr>pr_Status := status, pr_RejectionReason := reason, pr_DecidedAt := now\<rparr> in
            (case save e ((state s)\<lparr>st_Proposals := mput pid p (st_Proposals (state s)), st_UpdatedAt := now'\<rparr>) s of
               (s', Some x) \<Rightarrow> (s', Inl x)
             | (s', None) \<Rightarrow> (s', Inr p)))"
  by (simp add: DecideProposal_def Let_def mwrite_found split: option.split)

end
