(* ===== verification/Proposals_Api.thy ===== *)
theory Proposals_Api
  imports Http Policy Store_Proposals
begin

text \<open>
  \<open>internal/httpapi/proposals.go\<close>: the review of policy proposals. The fields of
  \<open>rule_lib\<close> stand for what the code uses of \<open>policy.NetworkPolicy\<close> and of decoding a rule
  fragment; \<open>ks\<close> is the order in which the fragment's map is ranged over. A request's body is
  the outcome of decoding it. The clock readings and file operations of the store calls a request
  makes are grouped in \<open>review_env\<close>.
\<close>

section \<open>Merging a rule\<close>

record ('doc, 'np) rule_lib =
  np_Unmarshal :: "string \<Rightarrow> string + 'np gomap"
  np_Policies :: "'doc \<Rightarrow> 'np gomap"
  np_SetPolicies :: "'np gomap \<Rightarrow> 'doc \<Rightarrow> 'doc"
  np_SetName :: "string \<Rightarrow> 'np \<Rightarrow> 'np"

fun merge_rules :: "('doc, 'np) rule_lib \<Rightarrow> string \<Rightarrow> (string \<times> 'np) list \<Rightarrow> 'np gomap \<Rightarrow> 'np gomap" where
  "merge_rules nl ruleName [] m = m"
| "merge_rules nl ruleName ((k, v) # kvs) m =
     (if ruleName \<noteq> [] then merge_rules nl ruleName kvs (mput ruleName (np_SetName nl ruleName v) m)
      else merge_rules nl ruleName kvs (mput k v m))"

definition mergeProposalYAML ::
    "('doc, 'prof) policy_lib \<Rightarrow> ('doc, 'np) rule_lib \<Rightarrow> string list \<Rightarrow> string \<Rightarrow> string \<Rightarrow> string \<Rightarrow> api_err + string" where
  "mergeProposalYAML lib nl ks baseYAML ruleName ruleYAML =
     (case pl_Parse lib baseYAML of
        Inl x \<Rightarrow> Inl (ApiLib x)
      | Inr baseDoc \<Rightarrow>
          (case np_Unmarshal nl ruleYAML of
             Inl x \<Rightarrow> Inl (ApiLib x)
           | Inr frag \<Rightarrow>
               let doc = np_SetPolicies nl
                     (merge_rules nl ruleName (mrange ks frag) (mmake (np_Policies nl baseDoc))) baseDoc in
               (case pl_Validate lib doc of
                  Some x \<Rightarrow> Inl (ApiLib x)
                | None \<Rightarrow> (case pl_Marshal lib doc of Inl x \<Rightarrow> Inl (ApiLib x) | Inr b \<Rightarrow> Inr b))))"

section \<open>Approving\<close>

record review_env =
  rv_set :: "time \<times> flush_env"
  rv_rollback :: "time \<times> flush_env"
  rv_now :: time
  rv_now' :: time
  rv_flush :: flush_env
  rv_order :: "string list"

definition empty_base :: string where
  "empty_base = ''version: 1'' @ [CHR 0x0A] @ ''network_policies: {}'' @ [CHR 0x0A]"

definition approveProposal ::
    "('doc, 'prof) policy_lib \<Rightarrow> ('doc, 'np) rule_lib \<Rightarrow> review_env \<Rightarrow> string \<Rightarrow> string \<Rightarrow> string \<Rightarrow> Store \<Rightarrow> Store \<times> api_err option" where
  "approveProposal lib nl v builtinDir sandbox pid st =
     (case GetProposal st pid of
        None \<Rightarrow> (st, Some ApiProposalNotFound)
      | Some p \<Rightarrow>
          if pr_Sandbox p \<noteq> sandbox then (st, Some ApiProposalNotFound)
          else if pr_Status p = ''approved'' then (st, None)
          else
            (case GetSandbox st sandbox of
               None \<Rightarrow> (st, Some (ApiSandboxNotFound sandbox))
             | Some sb \<Rightarrow>
                 let base = (if TrimSpace (sb_BasePolicyYAML sb) = [] then empty_base else sb_BasePolicyYAML sb) in
                 (case mergeProposalYAML lib nl (rv_order v) base (pr_RuleName p) (pr_RuleYAML p) of
                    Inl x \<Rightarrow> (st, Some x)
                  | Inr merged \<Rightarrow>
                      (case setSandboxBasePolicy lib (rv_set v) (rv_rollback v) builtinDir sandbox merged st of
                         (st1, Inl x) \<Rightarrow> (st1, Some x)
                       | (st1, Inr _) \<Rightarrow>
                           (case DecideProposal (rv_now v) (rv_now' v) (rv_flush v) pid ''approved'' [] st1 of
                              (st2, Inl x) \<Rightarrow> (st2, Some (ApiStore x))
                            | (st2, Inr _) \<Rightarrow> (st2, None))))))"

section \<open>The handler\<close>

datatype proposal_payload = ProposalList "Proposal list" | ProposalItem "Proposal option"

text \<open>
  \<open>body\<close> is the outcome of decoding a posted proposal, \<open>reason\<close> the reason in the body of a
  rejection (empty when it cannot be decoded). Error texts are not modelled further.
\<close>

definition posted_proposal :: "review_env \<Rightarrow> string \<Rightarrow> Proposal \<Rightarrow> Proposal" where
  "posted_proposal v name p =
     (let p = p\<lparr>pr_Sandbox := name\<rparr>;
          p = (if IsZero (pr_CreatedAt p) then p\<lparr>pr_CreatedAt := rv_now v\<rparr> else p) in
      if pr_Status p = [] then p\<lparr>pr_Status := ''pending''\<rparr> else p)"

definition create_proposal :: "review_env \<Rightarrow> string \<Rightarrow> (string + Proposal) \<Rightarrow> Store \<Rightarrow> Store \<times> proposal_payload answer" where
  "create_proposal v name body st =
     (case body of
        Inl x \<Rightarrow> (st, Error StatusBadRequest x)
      | Inr p \<Rightarrow>
          (case PutProposal (rv_now v) (rv_now' v) (rv_flush v) (posted_proposal v name p) st of
             (st', Some _) \<Rightarrow> (st', Error StatusBadRequest ''failed to store proposal'')
           | (st', None) \<Rightarrow> (st', Reply StatusAccepted (ProposalItem (Some (posted_proposal v name p))))))"

definition reject_proposal :: "review_env \<Rightarrow> string \<Rightarrow> string \<Rightarrow> string \<Rightarrow> Store \<Rightarrow> Store \<times> proposal_payload answer" where
  "reject_proposal v name pid reason st =
     (case DecideProposal (rv_now v) (rv_now' v) (rv_flush v) pid ''rejected'' reason st of
        (st', Inl _) \<Rightarrow> (st', Error StatusBadRequest ''failed to reject proposal'')
      | (st', Inr p) \<Rightarrow>
          if pr_Sandbox p \<noteq> name then (st', Error StatusNotFound ''not found'')
          else (st', Reply StatusOK (ProposalItem (Some p))))"

definition handleSandboxProposals ::
    "('doc, 'prof) policy_lib \<Rightarrow> ('doc, 'np) rule_lib \<Rightarrow> review_env \<Rightarrow> Request \<Rightarrow> (string + Proposal) \<Rightarrow> string \<Rightarrow>
     string \<Rightarrow> string \<Rightarrow> string \<Rightarrow> Store \<Rightarrow> Store \<times> proposal_payload answer" where
  "handleSandboxProposals lib nl v r body reason builtinDir name rest st =
     (let rest = Trim rest ''/'' in
      if rest = [] \<and> rq_Method r = MethodGet then
        (st, Reply StatusOK (ProposalList (ListProposals (rv_order v) name (QueryGet r ''status'') st)))
      else if rest = [] \<and> rq_Method r = MethodPost then create_proposal v name body st
      else if rest \<noteq> [] \<and> CHR ''/'' \<notin> set rest \<and> rq_Method r = MethodGet then
        (case GetProposal st rest of
           None \<Rightarrow> (st, Error StatusNotFound ''not found'')
         | Some p \<Rightarrow> if pr_Sandbox p \<noteq> name then (st, Error StatusNotFound ''not found'')
                     else (st, Reply StatusOK (ProposalItem (Some p))))
      else if HasSuffix rest ''/approve'' \<and> rq_Method r = MethodPost then
        let pid = Trim (TrimSuffix rest ''/approve'') ''/'' in
        (case approveProposal lib nl v builtinDir name pid st of
           (st', Some _) \<Rightarrow> (st', Error StatusBadRequest ''failed to approve proposal'')
         | (st', None) \<Rightarrow> (st', Reply StatusOK (ProposalItem (GetProposal st' pid))))
      else if HasSuffix rest ''/reject'' \<and> rq_Method r = MethodPost then
        reject_proposal v name (Trim (TrimSuffix rest ''/reject'') ''/'') reason st
      else (st, Error StatusNotFound ''not found''))"

section \<open>Lemmas\<close>

text \<open>What merging leaves in the map of rules, with a rule name and without one.\<close>

lemma merge_rules_nonnil [simp]: "m \<noteq> None \<Longrightarrow> merge_rules nl n kvs m \<noteq> None"
  by (induction nl n kvs m rule: merge_rules.induct) auto

lemma merge_rules_named:
  "m \<noteq> None \<Longrightarrow> n \<noteq> [] \<Longrightarrow> mget (merge_rules nl n kvs m) r =
     (if r = n \<and> kvs \<noteq> [] then Some (np_SetName nl n (snd (last kvs))) else mget m r)"
  by (induction nl n kvs m rule: merge_rules.induct) (auto simp: gomap)

lemma merge_rules_own:
  "m \<noteq> None \<Longrightarrow> \<forall>(k, v)\<in>set kvs. f k = Some v \<Longrightarrow>
   mget (merge_rules nl [] kvs m) r = (if r \<in> fst ` set kvs then f r else mget m r)"
proof (induction kvs arbitrary: m)
  case (Cons kv kvs)
  then show ?case by (cases kv) (auto simp: gomap)
qed simp

text \<open>The rules of a base policy after a proposal was merged into it.\<close>

lemma merged_rules:
  assumes "is_order ks frag" and "m = merge_rules nl n (mrange ks frag) (mmake base)"
  shows "if n = []
    then \<forall>r. mget m r = (case mget frag r of Some rule \<Rightarrow> Some rule | None \<Rightarrow> mget base r)
    else (\<forall>r. r \<noteq> n \<longrightarrow> mget m r = mget base r) \<and>
         (\<forall>k rule. mget frag k = Some rule \<longrightarrow>
            (\<exists>k' rule'. mget frag k' = Some rule' \<and> mget m n = Some (np_SetName nl n rule')))"
proof (cases "n = []")
  case True
  have "mget m r = (case mget frag r of Some rule \<Rightarrow> Some rule | None \<Rightarrow> mget base r)" for r
    using True merge_rules_own [of "mmake base" "mrange ks frag" "mget frag" nl r]
    by (auto simp: assms(2) set_mrange [OF assms(1)] image_iff split: option.splits)
  with True show ?thesis by simp
next
  case False
  have "\<exists>k' rule'. mget frag k' = Some rule' \<and> mget m n = Some (np_SetName nl n rule')" if "mget frag k = Some rule" for k rule
  proof -
    have ne: "mrange ks frag \<noteq> []" using that set_mrange [OF assms(1)] by auto
    obtain k' rule' where l: "last (mrange ks frag) = (k', rule')" by (cases "last (mrange ks frag)")
    with last_in_set [OF ne] set_mrange [OF assms(1)] have "mget frag k' = Some rule'" by auto
    then show ?thesis using False ne l by (auto simp: assms(2) merge_rules_named)
  qed
  with False show ?thesis by (auto simp: assms(2) merge_rules_named)
qed

lemma mergeProposalYAML_Inr:
  assumes "mergeProposalYAML lib nl ks base n y = Inr merged"
  obtains doc frag where "pl_Parse lib base = Inr doc" "np_Unmarshal nl y = Inr frag"
    "pl_Validate lib (np_SetPolicies nl (merge_rules nl n (mrange ks frag) (mmake (np_Policies nl doc))) doc) = None"
    "pl_Marshal lib (np_SetPolicies nl (merge_rules nl n (mrange ks frag) (mmake (np_Policies nl doc))) doc) = Inr merged"
  using assms by (auto simp: mergeProposalYAML_def Let_def split: sum.splits option.splits)

lemma DecideProposal_ok:
  "DecideProposal now now' e pid status reason s = (s', Inr q) \<longleftrightarrow>
     (\<exists>p. GetProposal s pid = Some p \<and> (status = ''approved'' \<or> status = ''rejected'') \<and> flush_ok e \<and>
        q = p\<lparr>pr_Status := status, pr_RejectionReason := reason, pr_DecidedAt := now\<rparr> \<and>
        s' = fst (save e ((state s)\<lparr>st_Proposals := mput pid q (st_Proposals (state s)), st_UpdatedAt := now'\<rparr>) s))"
  by (auto simp: DecideProposal_eq GetProposal_def Let_def save_result split: option.splits if_splits)

lemma DecideProposal_get:
  assumes "GetProposal s pid = Some p" "status = ''approved'' \<or> status = ''rejected''"
  shows "GetProposal (fst (DecideProposal now now' e pid status reason s)) q =
     (if q = pid then Some (p\<lparr>pr_Status := status, pr_RejectionReason := reason, pr_DecidedAt := now\<rparr>) else GetProposal s q)"
  using assms by (auto simp: DecideProposal_eq GetProposal_def Let_def save_result flush mget_mput mget_nonnil)

lemma DecideProposal_sandboxes [simp]: "GetSandbox (fst (DecideProposal now now' e pid status reason s)) = GetSandbox s"
  by (auto simp: fun_eq_iff DecideProposal_eq GetSandbox_def Let_def save_result flush split: option.splits)

lemma SetBasePolicy_proposals [simp]: "GetProposal (fst (SetBasePolicy now e n y st)) = GetProposal st"
  by (auto simp: fun_eq_iff SetBasePolicy_eq GetProposal_def Let_def flush split: option.splits)

lemma setSandboxBasePolicy_proposals:
  assumes "setSandboxBasePolicy lib t t' d name body st = (st', res)"
  shows "GetProposal st' = GetProposal st"
  using assms by (cases rule: setSandboxBasePolicy_cases) simp_all

lemma PutProposal_get:
  assumes "pr_ID p \<noteq> []" "pr_Sandbox p \<noteq> []"
  shows "GetProposal (fst (PutProposal now now' e p s)) q =
     (if q = pr_ID p then Some (p\<lparr>pr_Status := (if pr_Status p = [] then ''pending'' else pr_Status p),
        pr_CreatedAt := (if IsZero (pr_CreatedAt p) then now else pr_CreatedAt p)\<rparr>) else GetProposal s q)"
  using assms by (auto simp: PutProposal_def GetProposal_def Let_def flush gomap)

lemma create_proposal_fst:
  "fst (create_proposal v name (Inr p) st) = fst (PutProposal (rv_now v) (rv_now' v) (rv_flush v) (posted_proposal v name p) st)"
  by (simp add: create_proposal_def split: prod.split option.split)

lemma approve_cases:
  assumes "approveProposal lib nl v d sandbox pid st = (st', None)" "GetProposal st pid = Some p" "pr_Status p \<noteq> ''approved''"
  obtains sb merged b k st1 q where "pr_Sandbox p = sandbox" "GetSandbox st sandbox = Some sb"
    "mergeProposalYAML lib nl (rv_order v)
       (if TrimSpace (sb_BasePolicyYAML sb) = [] then empty_base else sb_BasePolicyYAML sb) (pr_RuleName p) (pr_RuleYAML p) = Inr merged"
    "setSandboxBasePolicy lib (rv_set v) (rv_rollback v) d sandbox merged st = (st1, Inr (b, k))"
    "DecideProposal (rv_now v) (rv_now' v) (rv_flush v) pid ''approved'' [] st1 = (st', Inr q)"
proof -
  note def = assms(1) [unfolded approveProposal_def assms(2) option.case Let_def]
  have sb: "pr_Sandbox p = sandbox" using def by (auto split: if_splits)
  obtain rec where rec: "GetSandbox st sandbox = Some rec"
    using def sb assms(3) by (cases "GetSandbox st sandbox") auto
  note def = def [unfolded sb rec option.case]
  let ?base = "if TrimSpace (sb_BasePolicyYAML rec) = [] then empty_base else sb_BasePolicyYAML rec"
  obtain merged where m: "mergeProposalYAML lib nl (rv_order v) ?base (pr_RuleName p) (pr_RuleYAML p) = Inr merged"
    using def assms(3) by (cases "mergeProposalYAML lib nl (rv_order v) ?base (pr_RuleName p) (pr_RuleYAML p)") auto
  note def = def [unfolded m sum.case]
  obtain st1 res where s1: "setSandboxBasePolicy lib (rv_set v) (rv_rollback v) d sandbox merged st = (st1, res)"
    by (cases "setSandboxBasePolicy lib (rv_set v) (rv_rollback v) d sandbox merged st")
  note def = def [unfolded s1 prod.case]
  obtain b k where bk: "res = Inr (b, k)" using def assms(3) by (cases res) auto
  note def = def [unfolded bk sum.case]
  obtain r where r: "DecideProposal (rv_now v) (rv_now' v) (rv_flush v) pid ''approved'' [] st1 = (st', Inr r)"
    using def assms(3)
    by (cases "DecideProposal (rv_now v) (rv_now' v) (rv_flush v) pid ''approved'' [] st1"; cases "snd (DecideProposal (rv_now v) (rv_now' v) (rv_flush v) pid ''approved'' [] st1)")
      auto
  from that [OF sb rec m s1 [unfolded bk] r] show ?thesis .
qed

lemma Trim_proposal_action:
  assumes "pid \<noteq> []" "CHR ''/'' \<notin> set pid"
  shows "Trim (pid @ ''/reject'') ''/'' = pid @ ''/reject''" "Trim pid ''/'' = pid"
proof -
  have "hd pid \<noteq> CHR ''/''" "last pid \<noteq> CHR ''/''" using assms by (metis hd_in_set, metis last_in_set)
  then show "Trim (pid @ ''/reject'') ''/'' = pid @ ''/reject''" "Trim pid ''/'' = pid"
    using assms(1) by (auto intro!: Trim_id)
qed

lemma not_approve: "\<not> HasSuffix (pid @ ''/reject'') ''/approve''"
proof
  assume "HasSuffix (pid @ ''/reject'') ''/approve''"
  then obtain t where "pid @ ''/reject'' = t @ ''/approve''" by (rule HasSuffixE)
  then have "rev (pid @ ''/reject'') = rev (t @ ''/approve'')" by simp
  then show False by simp
qed

section \<open>Examples\<close>

definition ex_rules :: "(string, string) rule_lib" where
  "ex_rules = \<lparr>np_Unmarshal = (\<lambda>y. Inr (Some (fmupd ''rule'' y fmempty))), np_Policies = (\<lambda>d. None),
     np_SetPolicies = (\<lambda>m d. case mget m ''rule'' of None \<Rightarrow> d | Some y \<Rightarrow> y), np_SetName = (\<lambda>n v. v)\<rparr>"

definition ex_review :: review_env where
  "ex_review = \<lparr>rv_set = (5, ex_flush), rv_rollback = (6, ex_flush), rv_now = 7, rv_now' = 8, rv_flush = ex_flush,
     rv_order = [''rule'']\<rparr>"

definition ex_proposal :: "string \<Rightarrow> Proposal" where
  "ex_proposal sandbox = \<lparr>pr_ID = ''p1'', pr_Sandbox = sandbox, pr_Status = ''pending'', pr_IntentSummary = [], pr_RuleName = [],
     pr_RuleYAML = ''allow'', pr_Hosts = [], pr_RejectionReason = [], pr_ValidationResult = [], pr_CreatedAt = 1, pr_DecidedAt = 0\<rparr>"

definition ex_proposal_store :: Store where
  "ex_proposal_store = fst (PutProposal 1 1 ex_flush (ex_proposal ''demo'') ex_store)"

lemma ex_proposal_get: "GetProposal ex_proposal_store ''p1'' = Some (ex_proposal ''demo'')"
  by (simp add: ex_proposal_store_def PutProposal_get ex_proposal_def IsZero_def)

definition ex_post :: Request where
  "ex_post = \<lparr>rq_Method = MethodPost, rq_Path = [], rq_Query = [], rq_Header = [], rq_Host = [], rq_RemoteAddr = [], rq_TLS = False\<rparr>"

section \<open>Properties\<close>

text \<open>
  C38: approving a proposal applies it. When \<open>approveProposal\<close> succeeds on a proposal that was not
  approved yet, the proposal belongs to that sandbox, and the sandbox's new base policy (after the same
  check as for a policy set by hand) is the old one with this change to its rules: without a rule name,
  every rule of the proposal is there under its own key and every other rule of the base policy is as it
  was; with a rule name, a rule of the proposal is there under that name, if the proposal has any, and
  every other rule of the base policy is as it was. The resulting policy is valid, the effective policy
  composed from it too, the proposal is marked approved, and no other proposal changes. (The map of the
  proposal's rules is ranged over in any order.)
\<close>
theorem approve_applies:
  assumes "approveProposal lib nl v d sandbox pid st = (st', None)" "GetProposal st pid = Some p" "pr_Status p \<noteq> ''approved''"
    and "\<forall>frag. np_Unmarshal nl (pr_RuleYAML p) = Inr frag \<longrightarrow> is_order (rv_order v) frag"
  shows "\<exists>sb doc frag m merged y k sb' b. pr_Sandbox p = sandbox \<and> GetSandbox st sandbox = Some sb \<and>
     pl_Parse lib (if TrimSpace (sb_BasePolicyYAML sb) = [] then empty_base else sb_BasePolicyYAML sb) = Inr doc \<and>
     np_Unmarshal nl (pr_RuleYAML p) = Inr frag \<and>
     (if pr_RuleName p = []
      then \<forall>r. mget m r = (case mget frag r of Some rule \<Rightarrow> Some rule | None \<Rightarrow> mget (np_Policies nl doc) r)
      else (\<forall>r. r \<noteq> pr_RuleName p \<longrightarrow> mget m r = mget (np_Policies nl doc) r) \<and>
           (\<forall>k rule. mget frag k = Some rule \<longrightarrow>
              (\<exists>k' rule'. mget frag k' = Some rule' \<and> mget m (pr_RuleName p) = Some (np_SetName nl (pr_RuleName p) rule')))) \<and>
     pl_Validate lib (np_SetPolicies nl m doc) = None \<and> pl_Marshal lib (np_SetPolicies nl m doc) = Inr merged \<and>
     checked_base lib merged = Inr (y, k) \<and> GetSandbox st' sandbox = Some sb' \<and> sb_BasePolicyYAML sb' = y \<and>
     effective_yaml lib d sandbox (fst (setSandboxBasePolicy lib (rv_set v) (rv_rollback v) d sandbox merged st)) = Inr b \<and>
     (\<forall>q. GetProposal st' q = (if q = pid then Some (p\<lparr>pr_Status := ''approved'', pr_RejectionReason := [], pr_DecidedAt := rv_now v\<rparr>)
                              else GetProposal st q))"
proof -
  obtain sb merged b k st1 q where 1: "pr_Sandbox p = sandbox" "GetSandbox st sandbox = Some sb"
    and merge: "mergeProposalYAML lib nl (rv_order v)
       (if TrimSpace (sb_BasePolicyYAML sb) = [] then empty_base else sb_BasePolicyYAML sb) (pr_RuleName p) (pr_RuleYAML p) = Inr merged"
    and s1: "setSandboxBasePolicy lib (rv_set v) (rv_rollback v) d sandbox merged st = (st1, Inr (b, k))"
    and dec: "DecideProposal (rv_now v) (rv_now' v) (rv_flush v) pid ''approved'' [] st1 = (st', Inr q)"
    using approve_cases [OF assms(1-3)] .
  have p1: "GetProposal st1 = GetProposal st" using setSandboxBasePolicy_proposals [OF s1] .
  have st': "st' = fst (DecideProposal (rv_now v) (rv_now' v) (rv_flush v) pid ''approved'' [] st1)" using dec by simp
  have decided: "\<forall>i. GetProposal st' i = (if i = pid then Some (p\<lparr>pr_Status := ''approved'', pr_RejectionReason := [], pr_DecidedAt := rv_now v\<rparr>)
      else GetProposal st i)"
    unfolding st' using DecideProposal_get [OF trans [OF fun_cong [OF p1] assms(2)] disjI1 [OF refl]] p1 by simp
  have "GetSandbox st' = GetSandbox st1" unfolding st' by simp
  moreover from s1 obtain y where "checked_base lib merged = Inr (y, k)"
      "map_option sb_BasePolicyYAML (GetSandbox st1 sandbox) = Some y" "effective_yaml lib d sandbox st1 = Inr b"
    by (cases rule: setSandboxBasePolicy_cases) (auto simp: SetBasePolicy_get)
  ultimately obtain sb' where stored: "checked_base lib merged = Inr (y, k)" "GetSandbox st' sandbox = Some sb'"
      "sb_BasePolicyYAML sb' = y"
      "effective_yaml lib d sandbox (fst (setSandboxBasePolicy lib (rv_set v) (rv_rollback v) d sandbox merged st)) = Inr b"
    using s1 by auto
  obtain doc frag where doc: "pl_Parse lib (if TrimSpace (sb_BasePolicyYAML sb) = [] then empty_base else sb_BasePolicyYAML sb) = Inr doc"
    "np_Unmarshal nl (pr_RuleYAML p) = Inr frag"
    and valid: "let m = merge_rules nl (pr_RuleName p) (mrange (rv_order v) frag) (mmake (np_Policies nl doc)) in
      pl_Validate lib (np_SetPolicies nl m doc) = None \<and> pl_Marshal lib (np_SetPolicies nl m doc) = Inr merged"
    using mergeProposalYAML_Inr [OF merge] by (metis (no_types, lifting))
  define m where "m = merge_rules nl (pr_RuleName p) (mrange (rv_order v) frag) (mmake (np_Policies nl doc))"
  note rules = merged_rules [OF assms(4) [rule_format, OF doc(2)] m_def]
  have "pl_Validate lib (np_SetPolicies nl m doc) = None" "pl_Marshal lib (np_SetPolicies nl m doc) = Inr merged"
    using valid by (simp_all add: Let_def m_def)
  with rules show ?thesis
    using 1 doc stored decided by (intro exI conjI) assumption+
qed

theorem approve_applies_witness:
  "\<exists>sb'. GetSandbox (fst (approveProposal ex_lib ex_rules ex_review [] ''demo'' ''p1'' ex_proposal_store)) ''demo'' = Some sb' \<and>
     sb_BasePolicyYAML sb' = ''allow''"
proof -
  have sb: "GetSandbox ex_proposal_store = GetSandbox ex_store" "GetProvider ex_proposal_store = GetProvider ex_store"
    "GetProfile ex_proposal_store = GetProfile ex_store" "GetGlobalPolicy ex_proposal_store = GetGlobalPolicy ex_store"
    by (auto simp: fun_eq_iff ex_proposal_store_def PutProposal_def ex_proposal_def GetSandbox_def GetProvider_def
        GetProfile_def GetGlobalPolicy_def Let_def flush)
  have m: "mergeProposalYAML ex_lib ex_rules [''rule''] base [] ''allow'' = Inr ''allow''" for base
    by (simp add: mergeProposalYAML_def ex_lib_def ex_rules_def mmake_def)
  have t: "TrimSpace ''allow'' \<noteq> []" by code_simp
  obtain st1 res where s1: "setSandboxBasePolicy ex_lib (5, ex_flush) (6, ex_flush) [] ''demo'' ''allow'' ex_proposal_store = (st1, res)"
    by (cases "setSandboxBasePolicy ex_lib (5, ex_flush) (6, ex_flush) [] ''demo'' ''allow'' ex_proposal_store")
  have e: "effective_yaml ex_lib [] ''demo'' (fst (SetBasePolicy 5 ex_flush ''demo'' ''allow'' ex_proposal_store)) =
      effective_yaml ex_lib [] ''demo'' (fst (SetBasePolicy 5 ex_flush ''demo'' ''allow'' ex_store))"
    unfolding effective_yaml_def by (subst effectivePolicy_cong) (simp_all add: SetBasePolicy_get sb)
  have res: "res = Inr (''allow'', 0)"
    using s1 by (cases rule: setSandboxBasePolicy_cases) (auto simp: sb ex_store_demo ex_checked e ex_effective [OF t])
  have "GetProposal st1 ''p1'' = Some (ex_proposal ''demo'')"
    using setSandboxBasePolicy_proposals [OF s1] ex_proposal_get by simp
  then obtain st2 q where d: "DecideProposal 7 8 ex_flush ''p1'' ''approved'' [] st1 = (st2, Inr q)"
    using DecideProposal_ok [of 7 8 ex_flush "''p1''" "''approved''" "[]" st1] by auto
  have approved: "approveProposal ex_lib ex_rules ex_review [] ''demo'' ''p1'' ex_proposal_store = (st2, None)"
    by (simp add: approveProposal_def ex_proposal_get ex_proposal_def sb ex_store_demo m s1 res d ex_review_def)
  moreover have "is_order [''rule''] (Some (fmupd ''rule'' y fmempty))" for y :: string
    by (auto simp: is_order_def mdom_def)
  then have "\<forall>frag. np_Unmarshal ex_rules (pr_RuleYAML (ex_proposal ''demo'')) = Inr frag \<longrightarrow> is_order (rv_order ex_review) frag"
    by (simp add: ex_rules_def ex_review_def)
  ultimately obtain doc frag m merged y k sb' where
    "np_Unmarshal ex_rules ''allow'' = Inr frag"
    "\<forall>r. mget m r = (case mget frag r of Some rule \<Rightarrow> Some rule | None \<Rightarrow> mget (np_Policies ex_rules doc) r)"
    "pl_Marshal ex_lib (np_SetPolicies ex_rules m doc) = Inr merged" "checked_base ex_lib merged = Inr (y, k)"
    "GetSandbox st2 ''demo'' = Some sb'" "sb_BasePolicyYAML sb' = y"
    using approve_applies [OF _ ex_proposal_get, of ex_lib ex_rules ex_review "[]" "''demo''" st2]
    by (auto simp: ex_proposal_def)
  moreover from this have "np_SetPolicies ex_rules m doc = ''allow''" by (auto simp: ex_rules_def)
  moreover have "pl_Marshal ex_lib x = Inr x" for x by (simp add: ex_lib_def)
  ultimately have "y = ''allow''" by (auto simp: ex_checked)
  then show ?thesis
    using \<open>GetSandbox st2 ''demo'' = Some sb'\<close> \<open>sb_BasePolicyYAML sb' = y\<close> approved by simp
qed

text \<open>
  C39: rejecting crosses sandboxes. \<open>POST /v1/sandboxes/A/proposals/ID/reject\<close> for a proposal of
  another sandbox is answered 404, but only after the proposal has been rejected and the decision
  saved.
\<close>
theorem reject_crosses_sandboxes:
  assumes "GetProposal st pid = Some p" "pr_Sandbox p \<noteq> name" "flush_ok (rv_flush v)"
    and "pid \<noteq> []" "CHR ''/'' \<notin> set pid" "rq_Method r = MethodPost"
  shows "\<exists>st' p'. handleSandboxProposals lib nl v r body reason d name (pid @ ''/reject'') st = (st', Error StatusNotFound ''not found'') \<and>
     GetProposal st' pid = Some p' \<and> pr_Sandbox p' = pr_Sandbox p \<and> pr_Status p' = ''rejected''"
proof -
  let ?d = "DecideProposal (rv_now v) (rv_now' v) (rv_flush v) pid ''rejected'' reason st"
  let ?q = "p\<lparr>pr_Status := ''rejected'', pr_RejectionReason := reason, pr_DecidedAt := rv_now v\<rparr>"
  have d: "?d = (fst ?d, Inr ?q)"
    using assms(1,3) DecideProposal_ok [of "rv_now v" "rv_now' v" "rv_flush v" pid "''rejected''" reason st "fst ?d" ?q]
    by (auto simp: DecideProposal_eq GetProposal_def Let_def save_result)
  have s: "HasSuffix (pid @ ''/reject'') ''/reject''" by (simp add: HasSuffix_def suffix_def)
  have id: "Trim (TrimSuffix (pid @ ''/reject'') ''/reject'') ''/'' = pid"
    unfolding TrimSuffix_append by (rule Trim_proposal_action(2) [OF assms(4,5)])
  have "handleSandboxProposals lib nl v r body reason d name (pid @ ''/reject'') st = reject_proposal v name pid reason st"
    unfolding handleSandboxProposals_def Let_def Trim_proposal_action(1) [OF assms(4,5)] id
    using not_approve [of pid] s assms(6) by simp
  moreover have "reject_proposal v name pid reason st = (fst ?d, Error StatusNotFound ''not found'')"
    unfolding reject_proposal_def by (subst d) (simp add: assms(2))
  moreover have "GetProposal (fst ?d) pid = Some ?q"
    using DecideProposal_get [OF assms(1) disjI2 [OF refl]] by simp
  ultimately show ?thesis by auto
qed

theorem reject_crosses_sandboxes_witness:
  "\<exists>st' p'. handleSandboxProposals ex_lib ex_rules ex_review ex_post (Inl []) [] [] ''other'' (''p1'' @ ''/reject'') ex_proposal_store =
       (st', Error 404 ''not found'') \<and>
     GetProposal st' ''p1'' = Some p' \<and> pr_Sandbox p' = ''demo'' \<and> pr_Status p' = ''rejected''"
  using reject_crosses_sandboxes [OF ex_proposal_get, of "''other''" ex_review ex_post ex_lib ex_rules "Inl []" "[]" "[]"]
  by (simp add: ex_proposal_def ex_review_def ex_post_def)

text \<open>
  C40: a sandbox can take over another sandbox's proposal. Proposals are keyed by their id alone, and
  the id and the status come from the posted body: posting a proposal with the id of a proposal of
  another sandbox replaces it, under any status, approved included, and the other sandbox no
  longer finds its own.
\<close>
theorem proposal_takeover:
  assumes "GetProposal st pid = Some q" "pr_Sandbox q \<noteq> name" "name \<noteq> []" "pid \<noteq> []" "pr_ID p = pid" "rq_Method r = MethodPost"
    and "pr_Status p \<noteq> []"
  shows "\<exists>p'. GetProposal (fst (handleSandboxProposals lib nl v r (Inr p) reason d name [] st)) pid = Some p' \<and>
     pr_Sandbox p' = name \<and> pr_Status p' = pr_Status p \<and> pr_RuleYAML p' = pr_RuleYAML p"
proof -
  have "handleSandboxProposals lib nl v r (Inr p) reason d name [] st = create_proposal v name (Inr p) st"
    using assms(6) by (simp add: handleSandboxProposals_def Trim_def)
  moreover have "pr_ID (posted_proposal v name p) = pid" "pr_Sandbox (posted_proposal v name p) = name"
      "pr_Status (posted_proposal v name p) = pr_Status p" "pr_RuleYAML (posted_proposal v name p) = pr_RuleYAML p"
    using assms(5,7) by (simp_all add: posted_proposal_def Let_def)
  ultimately show ?thesis using assms(3,4,7) by (simp add: create_proposal_fst PutProposal_get)
qed

theorem proposal_takeover_witness:
  "\<exists>p'. GetProposal (fst (handleSandboxProposals ex_lib ex_rules ex_review ex_post
       (Inr ((ex_proposal [])\<lparr>pr_Status := ''approved'', pr_RuleYAML := ''evil''\<rparr>)) [] [] ''other'' [] ex_proposal_store)) ''p1'' = Some p' \<and>
     pr_Sandbox p' = ''other'' \<and> pr_Status p' = ''approved'' \<and> pr_RuleYAML p' = ''evil''"
  using proposal_takeover [OF ex_proposal_get, of "''other''" "(ex_proposal [])\<lparr>pr_Status := ''approved'', pr_RuleYAML := ''evil''\<rparr>"
      ex_post ex_lib ex_rules ex_review "[]" "[]"]
  by (simp add: ex_proposal_def ex_post_def)

end
