(* ===== verification/Logbuf.thy ===== *)
theory Logbuf
  imports Interfaces
begin

text \<open>
  \<open>internal/logbuf/logbuf.go\<close>: the hub of bounded per-sandbox log buffers, and the two
  loops of \<open>internal/httpapi\<close> that follow a buffer (\<open>handleSandboxLogs\<close> and the fleet
  variant of \<open>/v1/logs\<close>). A buffer is one step per call under its mutex. A waiter is a
  channel with room for one value: the hub numbers the channels in the order they are made, and
  \<open>h_signalled\<close> holds those that have been sent a value, also after the buffer that knew the
  channel is gone. \<open>append\<close> reads the clock once per line without a timestamp: \<open>nows i\<close> is the
  reading for the \<open>i\<close>-th line.
\<close>

section \<open>Buffers\<close>

record Line =
  ln_TS :: time
  ln_Source :: string
  ln_Level :: string
  ln_Text :: string

record Buffer =
  b_max :: nat
  b_lines :: "Line list"
  b_waiters :: "nat list"

definition new_buffer :: "nat \<Rightarrow> Buffer" where
  "new_buffer m = \<lparr>b_max = m, b_lines = [], b_waiters = []\<rparr>"

definition stamp :: "time \<Rightarrow> Line \<Rightarrow> Line" where
  "stamp now ln = (if IsZero (ln_TS ln) then ln\<lparr>ln_TS := now\<rparr> else ln)"

definition stamp_all :: "(nat \<Rightarrow> time) \<Rightarrow> Line list \<Rightarrow> Line list" where
  "stamp_all nows lines = map (\<lambda>(i, ln). stamp (nows i) ln) (enumerate 0 lines)"

text \<open>Besides the buffer, \<open>append\<close> changes the channels of its waiters: each is sent a value.\<close>

definition buffer_append :: "(nat \<Rightarrow> time) \<Rightarrow> Line list \<Rightarrow> Buffer \<times> nat set \<Rightarrow> Buffer \<times> nat set" where
  "buffer_append nows lines bs =
     (let b = fst bs;
          ls = b_lines b @ stamp_all nows lines;
          ls = (if length ls > b_max b then drop (length ls - b_max b) ls else ls) in
      (b\<lparr>b_lines := ls, b_waiters := []\<rparr>, snd bs \<union> set (b_waiters b)))"

text \<open>\<open>ch\<close> is the channel \<open>make\<close> returns.\<close>

definition buffer_subscribe :: "nat \<Rightarrow> Buffer \<Rightarrow> Buffer" where
  "buffer_subscribe ch b = b\<lparr>b_waiters := b_waiters b @ [ch]\<rparr>"

definition levelMatch :: "string \<Rightarrow> string \<Rightarrow> bool" where
  "levelMatch got want \<longleftrightarrow>
     (if got = want then True
      else if want = ''warn'' \<or> want = ''warning'' then got = ''MED'' \<or> got = ''WARN'' \<or> got = ''HIGH''
      else if want = ''error'' then got = ''HIGH'' \<or> got = ''CRIT'' \<or> got = ''FATAL'' \<or> got = ''ERROR''
      else if want = ''debug'' \<or> want = ''info'' then got = ''INFO'' \<or> got = ''LOW'' \<or> got = ''OCSF'' \<or> got = ''''
      else False)"

definition line_selected :: "time \<Rightarrow> string \<Rightarrow> string \<Rightarrow> Line \<Rightarrow> bool" where
  "line_selected since source level ln \<longleftrightarrow>
     \<not> (\<not> IsZero since \<and> ln_TS ln < since) \<and>
     \<not> (source \<noteq> '''' \<and> ln_Source ln \<noteq> source) \<and>
     \<not> (level \<noteq> '''' \<and> \<not> levelMatch (ln_Level ln) level)"

definition buffer_snapshot :: "time \<Rightarrow> string \<Rightarrow> string \<Rightarrow> int \<Rightarrow> Buffer \<Rightarrow> Line list" where
  "buffer_snapshot since source level limit b =
     (let out = filter (line_selected since source level) (b_lines b) in
      if limit > 0 \<and> int (length out) > limit then drop (length out - nat limit) out else out)"

section \<open>The hub\<close>

record Hub =
  h_max :: nat
  h_buffers :: "(string, Buffer) fmap"
  h_next :: nat
  h_signalled :: "nat set"

definition NewHub :: "int \<Rightarrow> Hub" where
  "NewHub m = \<lparr>h_max = (if m \<le> 0 then 4096 else nat m), h_buffers = fmempty, h_next = 0, h_signalled = {}\<rparr>"

text \<open>\<open>Hub.buf\<close> creates the buffer of a name it does not know.\<close>

definition hub_buf :: "Hub \<Rightarrow> string \<Rightarrow> Buffer" where
  "hub_buf h name = (case fmlookup (h_buffers h) name of None \<Rightarrow> new_buffer (h_max h) | Some b \<Rightarrow> b)"

definition hub_set :: "string \<Rightarrow> Buffer \<Rightarrow> Hub \<Rightarrow> Hub" where
  "hub_set name b h = h\<lparr>h_buffers := fmupd name b (h_buffers h)\<rparr>"

definition hub_Append :: "(nat \<Rightarrow> time) \<Rightarrow> string \<Rightarrow> Line list \<Rightarrow> Hub \<Rightarrow> Hub" where
  "hub_Append nows sandbox lines h =
     (if sandbox = '''' \<or> length lines = 0 then h
      else (case buffer_append nows lines (hub_buf h sandbox, h_signalled h) of
              (b, sg) \<Rightarrow> (hub_set sandbox b h)\<lparr>h_signalled := sg\<rparr>))"

definition hub_Snapshot :: "string \<Rightarrow> time \<Rightarrow> string \<Rightarrow> string \<Rightarrow> int \<Rightarrow> Hub \<Rightarrow> Hub \<times> Line list" where
  "hub_Snapshot sandbox since source level limit h =
     (let b = hub_buf h sandbox in (hub_set sandbox b h, buffer_snapshot since source level limit b))"

definition hub_Subscribe :: "string \<Rightarrow> Hub \<Rightarrow> Hub \<times> nat" where
  "hub_Subscribe sandbox h =
     (let ch = h_next h in
      ((hub_set sandbox (buffer_subscribe ch (hub_buf h sandbox)) h)\<lparr>h_next := Suc ch\<rparr>, ch))"

definition hub_Names :: "string list \<Rightarrow> Hub \<Rightarrow> string list" where
  "hub_Names ks h = map fst (mrange ks (Some (h_buffers h)))"

definition hub_Remove :: "string \<Rightarrow> Hub \<Rightarrow> Hub" where
  "hub_Remove sandbox h = (if sandbox = '''' then h else h\<lparr>h_buffers := fmdrop sandbox (h_buffers h)\<rparr>)"

text \<open>The operations on a hub.\<close>

datatype hub_op =
    HAppend "nat \<Rightarrow> time" string "Line list"
  | HSnapshot string time string string int
  | HSubscribe string
  | HRemove string

fun hub_step :: "hub_op \<Rightarrow> Hub \<Rightarrow> Hub" where
  "hub_step (HAppend nows n lines) h = hub_Append nows n lines h"
| "hub_step (HSnapshot n since source level limit) h = fst (hub_Snapshot n since source level limit h)"
| "hub_step (HSubscribe n) h = fst (hub_Subscribe n h)"
| "hub_step (HRemove n) h = hub_Remove n h"

section \<open>Following a buffer\<close>

text \<open>
  One pass of the loop in \<open>handleSandboxLogs\<close> (and of the one in \<open>/v1/logs\<close>): every line of
  the snapshot is written unless its timestamp is not after the last one written.
\<close>

fun follow_pass :: "time \<Rightarrow> Line list \<Rightarrow> Line list \<times> time" where
  "follow_pass sent [] = ([], sent)"
| "follow_pass sent (ln # lns) =
     (if \<not> IsZero sent \<and> \<not> ln_TS ln > sent then follow_pass sent lns
      else (case follow_pass (ln_TS ln) lns of (out, sent') \<Rightarrow> (ln # out, sent')))"

text \<open>One pass with the snapshot it reads: the hub (a buffer the name did not have is created), the
  lines written and the last timestamp sent.\<close>

definition follow :: "string \<Rightarrow> string \<Rightarrow> string \<Rightarrow> time \<Rightarrow> Hub \<Rightarrow> Hub \<times> Line list \<times> time" where
  "follow sandbox source level sent h =
     (case hub_Snapshot sandbox sent source level 0 h of (h', lines) \<Rightarrow> (h', follow_pass sent lines))"

definition formatLogLine :: "Line \<Rightarrow> string" where
  "formatLogLine ln = ''['' @ (if ln_Source ln = '''' then ''proxy'' else ln_Source ln) @ ''] '' @ ln_Text ln"

text \<open>What the stream consists of: a \<open>data:\<close> event per line, and the comment of a keepalive.\<close>

datatype frame = Data Line | Keepalive

definition frame_text :: "frame \<Rightarrow> string" where
  "frame_text f = (case f of
     Data ln \<Rightarrow> ''data: '' @ formatLogLine ln @ [CHR 0x0A, CHR 0x0A]
   | Keepalive \<Rightarrow> '': keepalive'' @ [CHR 0x0A, CHR 0x0A])"

text \<open>
  The loop itself runs interleaved with the other requests. Each turn has the operations of
  others on the hub that come before the pass and those that come between the pass and the
  \<open>select\<close>, which subscribes, and how the \<open>select\<close> ends: the request is over, the channel is
  signalled, or 15 seconds have passed. Operations while the loop waits come before the next
  pass. Several batches of lines may arrive before a pass.
\<close>

datatype wake = RequestOver | Signalled | After15s

type_synonym turn = "hub_op list \<times> hub_op list \<times> wake"

fun follow_run :: "string \<Rightarrow> string \<Rightarrow> string \<Rightarrow> time \<Rightarrow> turn list \<Rightarrow> Hub \<Rightarrow> Hub \<times> frame list" where
  "follow_run sandbox source level sent [] h = (h, [])"
| "follow_run sandbox source level sent ((before, between, w) # turns) h =
     (case follow sandbox source level sent (fold hub_step before h) of
        (h, out, sent) \<Rightarrow>
          (let h = fst (hub_Subscribe sandbox (fold hub_step between h)) in
           case w of
             RequestOver \<Rightarrow> (h, map Data out)
           | Signalled \<Rightarrow> (case follow_run sandbox source level sent turns h of (h, rest) \<Rightarrow> (h, map Data out @ rest))
           | After15s \<Rightarrow>
               (case follow_run sandbox source level sent turns h of
                  (h, rest) \<Rightarrow> (h, map Data out @ Keepalive # rest))))"

section \<open>Lemmas\<close>

lemma length_stamp_all [simp]: "length (stamp_all nows lines) = length lines"
  by (simp add: stamp_all_def)

lemma buffer_append_lines:
  "b_lines (fst (buffer_append nows lines bs)) = keep_last (b_max (fst bs)) (b_lines (fst bs) @ stamp_all nows lines)"
  by (simp add: buffer_append_def Let_def keep_last_def)

lemma buffer_append_fields [simp]:
  "b_max (fst (buffer_append nows lines bs)) = b_max (fst bs)" "b_waiters (fst (buffer_append nows lines bs)) = []"
  "snd (buffer_append nows lines bs) = snd bs \<union> set (b_waiters (fst bs))"
  by (simp_all add: buffer_append_def Let_def)

lemma buffer_subscribe_fields [simp]:
  "b_max (buffer_subscribe c b) = b_max b" "b_lines (buffer_subscribe c b) = b_lines b"
  "b_waiters (buffer_subscribe c b) = b_waiters b @ [c]"
  by (simp_all add: buffer_subscribe_def)

lemma snapshot_keep_last:
  "buffer_snapshot since source level limit b =
     (let out = filter (line_selected since source level) (b_lines b) in
      if limit > 0 then keep_last (nat limit) out else out)"
  by (auto simp: buffer_snapshot_def keep_last_def Let_def)

lemma hub_buf_set [simp]: "hub_buf (hub_set n b h) m = (if m = n then b else hub_buf h m)"
  by (simp add: hub_buf_def hub_set_def split: option.split)

lemma hub_buf_channels [simp]:
  "hub_buf (h\<lparr>h_signalled := sg\<rparr>) n = hub_buf h n" "hub_buf (h\<lparr>h_next := c\<rparr>) n = hub_buf h n"
  by (simp_all add: hub_buf_def split: option.split)

lemma hub_set_fields [simp]:
  "h_max (hub_set n b h) = h_max h" "h_next (hub_set n b h) = h_next h" "h_signalled (hub_set n b h) = h_signalled h"
  by (simp_all add: hub_set_def)

lemma new_buffer_fields [simp]:
  "b_lines (new_buffer m) = []" "b_max (new_buffer m) = m" "b_waiters (new_buffer m) = []"
  by (simp_all add: new_buffer_def)

text \<open>All buffers of a hub have its capacity.\<close>

definition hub_ok :: "Hub \<Rightarrow> bool" where
  "hub_ok h \<longleftrightarrow> 0 < h_max h \<and>
     (\<forall>n b. fmlookup (h_buffers h) n = Some b \<longrightarrow> b_max b = h_max h \<and> length (b_lines b) \<le> h_max h)"

lemma hub_ok_buf: "hub_ok h \<Longrightarrow> b_max (hub_buf h n) = h_max h \<and> length (b_lines (hub_buf h n)) \<le> h_max h"
  by (auto simp: hub_ok_def hub_buf_def split: option.splits)

lemma hub_ok_set:
  "hub_ok h \<Longrightarrow> b_max b = h_max h \<Longrightarrow> length (b_lines b) \<le> h_max h \<Longrightarrow> hub_ok (hub_set n b h)"
  by (auto simp: hub_ok_def hub_set_def)

lemma hub_ok_channels [simp]:
  "hub_ok (h\<lparr>h_signalled := sg\<rparr>) \<longleftrightarrow> hub_ok h" "hub_ok (h\<lparr>h_next := c\<rparr>) \<longleftrightarrow> hub_ok h"
  by (simp_all add: hub_ok_def)

lemma hub_step_ok: "hub_ok h \<Longrightarrow> hub_ok (hub_step x h)"
proof (cases x)
  case (HAppend nows n lines)
  assume "hub_ok h"
  then show ?thesis
    using hub_ok_buf [of h n]
    by (auto simp: HAppend hub_Append_def case_prod_beta buffer_append_lines length_keep_last intro!: hub_ok_set)
next
  case (HRemove n)
  assume "hub_ok h"
  then show ?thesis by (auto simp: HRemove hub_ok_def hub_Remove_def split: if_splits)
qed (use hub_ok_buf [of h] in \<open>auto simp: hub_Snapshot_def hub_Subscribe_def Let_def intro!: hub_ok_set\<close>)

lemma NewHub_ok: "hub_ok (NewHub m)"
  by (simp add: hub_ok_def NewHub_def)

interpretation hub_sys: transition_system "\<lambda>h. \<exists>m. h = NewHub m" "\<lambda>h h'. \<exists>x. h' = hub_step x h" hub_ok
  by unfold_locales (auto simp: NewHub_ok hub_step_ok)

interpretation log_lines: capped_log "\<lambda>h. b_lines (hub_buf h n)" cap
    "\<lambda>e h. if n = '''' then [] else stamp_all (fst e) (snd e)" "\<lambda>e. hub_Append (fst e) n (snd e)"
    "\<lambda>h. hub_ok h \<and> h_max h = cap" for n cap
proof (unfold_locales, goal_cases)
  case (1 h e)
  then show ?case
    using hub_ok_buf [of h n]
    by (auto simp: hub_Append_def case_prod_beta buffer_append_lines keep_last_short stamp_all_def)
next
  case (2 h e)
  then show ?case
    using hub_step_ok [of h "HAppend (fst e) n (snd e)"] by (simp add: hub_Append_def case_prod_beta)
qed

lemma hub_step_max [simp]: "h_max (hub_step x h) = h_max h"
  by (cases x) (simp_all add: hub_Append_def case_prod_beta hub_Snapshot_def hub_Subscribe_def hub_Remove_def Let_def)

lemma hub_run_max [simp]: "h_max (fold hub_step xs h) = h_max h"
  by (induction xs arbitrary: h) simp_all

lemma hub_run_ok: "hub_ok h \<Longrightarrow> hub_ok (fold hub_step xs h)"
  by (induction xs arbitrary: h) (simp_all add: hub_step_ok)

subsection \<open>Waiters\<close>

text \<open>Every channel a buffer waits on, and every one that was signalled, has been made.\<close>

definition hub_chan_ok :: "Hub \<Rightarrow> bool" where
  "hub_chan_ok h \<longleftrightarrow> (\<forall>c\<in>h_signalled h. c < h_next h) \<and> (\<forall>n. \<forall>c\<in>set (b_waiters (hub_buf h n)). c < h_next h)"

lemma hub_buf_Remove: "hub_buf (hub_Remove n h) m = (if m = n \<and> n \<noteq> [] then new_buffer (h_max h) else hub_buf h m)"
  by (simp add: hub_buf_def hub_Remove_def split: option.split)

lemma hub_Remove_fields [simp]:
  "h_next (hub_Remove n h) = h_next h" "h_signalled (hub_Remove n h) = h_signalled h"
  by (simp_all add: hub_Remove_def)

lemma hub_step_chan_ok: "hub_chan_ok h \<Longrightarrow> hub_chan_ok (hub_step x h)"
  by (cases x)
    (auto simp: hub_chan_ok_def hub_Append_def case_prod_beta hub_Snapshot_def hub_Subscribe_def
      hub_buf_Remove Let_def less_Suc_eq)

interpretation hub_channels: transition_system "\<lambda>h. \<exists>m. h = NewHub m" "\<lambda>h h'. \<exists>x. h' = hub_step x h" hub_chan_ok
  by unfold_locales (auto simp: hub_step_chan_ok, auto simp: hub_chan_ok_def NewHub_def hub_buf_def)

lemma reach_run: "reach (\<lambda>h. \<exists>m. h = NewHub m) (\<lambda>h h'. \<exists>x. h' = hub_step x h) (fold hub_step xs (NewHub m))"
  by (induction xs rule: rev_induct) (auto intro: reach.intros)

text \<open>What an operation means for one name: lines arrive for it, or its buffer is discarded.\<close>

fun wakes :: "string \<Rightarrow> hub_op \<Rightarrow> bool" where
  "wakes n (HAppend nows m lines) \<longleftrightarrow> m = n \<and> n \<noteq> [] \<and> lines \<noteq> []"
| "wakes n _ \<longleftrightarrow> False"

fun removes :: "string \<Rightarrow> hub_op \<Rightarrow> bool" where
  "removes n (HRemove m) \<longleftrightarrow> m = n \<and> n \<noteq> []"
| "removes n _ \<longleftrightarrow> False"

text \<open>The channel is not signalled; the buffers in \<open>ns\<close> are those that wait on it.\<close>

definition waiting :: "nat \<Rightarrow> string set \<Rightarrow> Hub \<Rightarrow> bool" where
  "waiting c ns h \<longleftrightarrow> c \<notin> h_signalled h \<and> c < h_next h \<and> {n. c \<in> set (b_waiters (hub_buf h n))} = ns"

lemma waiting_alt:
  "waiting c ns h \<longleftrightarrow> c \<notin> h_signalled h \<and> c < h_next h \<and> (\<forall>n. c \<in> set (b_waiters (hub_buf h n)) \<longleftrightarrow> n \<in> ns)"
  by (auto simp: waiting_def)

lemma hub_step_waiting:
  assumes "waiting c {n} h"
  shows "if wakes n x then c \<in> h_signalled (hub_step x h)
         else waiting c (if removes n x then {} else {n}) (hub_step x h)"
  using assms
  by (cases x) (auto simp: waiting_alt hub_Append_def case_prod_beta hub_Snapshot_def hub_Subscribe_def
      hub_buf_Remove Let_def)

lemma hub_step_lost: "waiting c {} h \<Longrightarrow> waiting c {} (hub_step x h)"
  by (cases x) (auto simp: waiting_alt hub_Append_def case_prod_beta hub_Snapshot_def hub_Subscribe_def
      hub_buf_Remove Let_def)

lemma hub_run_lost: "waiting c {} h \<Longrightarrow> c \<notin> h_signalled (fold hub_step xs h)"
  by (induction xs arbitrary: h) (simp add: waiting_def, simp add: hub_step_lost)

lemma hub_step_signalled: "c \<in> h_signalled h \<Longrightarrow> c \<in> h_signalled (hub_step x h)"
  by (cases x) (auto simp: hub_Append_def case_prod_beta hub_Snapshot_def hub_Subscribe_def Let_def)

lemma hub_run_signalled: "c \<in> h_signalled h \<Longrightarrow> c \<in> h_signalled (fold hub_step xs h)"
  by (induction xs arbitrary: h) (simp_all add: hub_step_signalled)

text \<open>Lines arrive for the name before its buffer is discarded.\<close>

fun woken :: "string \<Rightarrow> hub_op list \<Rightarrow> bool" where
  "woken n [] \<longleftrightarrow> False"
| "woken n (x # xs) \<longleftrightarrow> wakes n x \<or> \<not> removes n x \<and> woken n xs"

lemma woken_append: "woken n (xs @ ys) \<longleftrightarrow> woken n xs \<or> (\<forall>x\<in>set xs. \<not> removes n x) \<and> woken n ys"
  by (induction xs) auto

lemma woken_iff: "woken n xs \<longleftrightarrow> (\<exists>before x after. xs = before @ x # after \<and> wakes n x \<and> (\<forall>y\<in>set before. \<not> removes n y))"
proof
  show "woken n xs \<Longrightarrow> \<exists>before x after. xs = before @ x # after \<and> wakes n x \<and> (\<forall>y\<in>set before. \<not> removes n y)"
  proof (induction xs)
    case (Cons y ys)
    show ?case
    proof (cases "wakes n y")
      case True
      then have "y # ys = [] @ y # ys \<and> wakes n y \<and> (\<forall>z\<in>set []. \<not> removes n z)" by simp
      then show ?thesis by blast
    next
      case False
      with Cons obtain before x after where "ys = before @ x # after" "wakes n x" "\<forall>z\<in>set (y # before). \<not> removes n z"
        by auto
      then have "y # ys = (y # before) @ x # after \<and> wakes n x \<and> (\<forall>z\<in>set (y # before). \<not> removes n z)" by simp
      then show ?thesis by blast
    qed
  qed simp
qed (auto simp: woken_append)

lemma hub_run_waiting: "waiting c {n} h \<Longrightarrow> c \<in> h_signalled (fold hub_step xs h) \<longleftrightarrow> woken n xs"
proof (induction xs arbitrary: h)
  case Nil
  then show ?case by (simp add: waiting_def)
next
  case (Cons x xs)
  then show ?case
    using hub_step_waiting [of c n h x]
    by (cases "wakes n x"; cases "removes n x") (simp_all add: hub_run_signalled hub_run_lost)
qed

lemma Subscribe_waiting:
  assumes "hub_chan_ok h" "hub_Subscribe n h = (h', c)"
  shows "waiting c {n} h'"
proof -
  have "h_next h \<notin> h_signalled h" "h_next h \<notin> set (b_waiters (hub_buf h m))" for m
    using assms(1) unfolding hub_chan_ok_def by blast+
  then show ?thesis
    using assms(2) by (auto simp: hub_Subscribe_def Let_def waiting_alt split: if_splits)
qed

subsection \<open>The follow loop\<close>

lemma follow_pass_skip:
  "\<forall>ln\<in>set old. ln_TS ln \<le> sent \<Longrightarrow> sent \<noteq> 0 \<Longrightarrow> follow_pass sent (old @ new) = follow_pass sent new"
  by (induction old) (auto simp: IsZero_def)

lemma follow_pass_fresh:
  "sorted_wrt (<) (map ln_TS new) \<Longrightarrow> \<forall>ln\<in>set new. sent < ln_TS ln \<Longrightarrow> 0 \<le> sent \<Longrightarrow>
   follow_pass sent new = (new, if new = [] then sent else ln_TS (last new))"
  by (induction new arbitrary: sent) auto

lemma line_selected_mono:
  "line_selected 0 source level ln \<Longrightarrow> sent \<le> ln_TS ln \<Longrightarrow> line_selected sent source level ln"
  "line_selected sent source level ln \<Longrightarrow> line_selected 0 source level ln"
  by (auto simp: line_selected_def IsZero_def)

lemma last_greatest:
  "sorted_wrt (<) (map ln_TS ls) \<Longrightarrow> ln \<in> set ls \<Longrightarrow> ln_TS ln \<le> ln_TS (last ls)"
  by (induction ls) (auto intro: less_imp_le)

definition caught_up :: "string \<Rightarrow> string \<Rightarrow> time \<Rightarrow> Line list \<Rightarrow> bool" where
  "caught_up source level sent ls \<longleftrightarrow> 0 \<le> sent \<and>
     (if sent = 0 then filter (line_selected 0 source level) ls = []
      else \<forall>ln\<in>set ls. line_selected 0 source level ln \<longrightarrow> ln_TS ln \<le> sent)"

lemma follow_pass_batch:
  assumes up: "caught_up source level sent old"
    and inc: "sorted_wrt (<) (map ln_TS new)" and gt: "\<forall>ln\<in>set new. sent < ln_TS ln"
  shows "\<exists>sent'. follow_pass sent (filter (line_selected sent source level) (old @ new)) =
           (filter (line_selected 0 source level) new, sent') \<and> caught_up source level sent' (old @ new) \<and>
           sent' \<in> insert sent (set (map ln_TS new))"
proof -
  let ?new = "filter (line_selected 0 source level) new"
  have new: "filter (line_selected sent source level) new = ?new"
    using gt by (auto intro!: filter_cong dest: line_selected_mono(2) simp: line_selected_mono(1) less_imp_le)
  have sent0: "0 \<le> sent" using up by (simp add: caught_up_def)
  let ?sent' = "if ?new = [] then sent else ln_TS (last ?new)"
  have fresh: "follow_pass sent ?new = (?new, ?sent')"
  proof (rule follow_pass_fresh)
    show "sorted_wrt (<) (map ln_TS ?new)"
      using inc by (simp add: sorted_wrt_map sorted_wrt_filter)
  qed (use gt sent0 in auto)
  have pass: "follow_pass sent (filter (line_selected sent source level) (old @ new)) = (?new, ?sent')"
  proof (cases "sent = 0")
    case True
    then show ?thesis using up new fresh by (simp add: caught_up_def)
  next
    case False
    have "\<forall>ln\<in>set (filter (line_selected sent source level) old). ln_TS ln \<le> sent"
      using up False by (auto simp: caught_up_def dest: line_selected_mono(2))
    from follow_pass_skip [OF this False] show ?thesis
      unfolding filter_append new using fresh by simp
  qed
  have last_le: "ln_TS ln \<le> ln_TS (last ?new)" if "ln \<in> set ?new" for ln
    using last_greatest [OF _ that] inc by (simp add: sorted_wrt_map sorted_wrt_filter)
  have last_in: "last ?new \<in> set new" if "?new \<noteq> []"
    using last_in_set [OF that] by simp
  have "caught_up source level ?sent' (old @ new)"
  proof (cases "?new = []")
    case True
    then show ?thesis using up gt by (auto simp: caught_up_def filter_empty_conv)
  next
    case False
    then have "sent < ln_TS (last ?new)" using gt last_in by auto
    moreover have "ln_TS ln \<le> ln_TS (last ?new)" if "ln \<in> set (old @ new)" "line_selected 0 source level ln" for ln
      using that up last_le [of ln] \<open>sent < ln_TS (last ?new)\<close>
      by (cases "sent = 0") (auto simp: caught_up_def filter_empty_conv)
    ultimately show ?thesis using False sent0 by (auto simp: caught_up_def)
  qed
  then show ?thesis using pass last_in by auto
qed

lemma keep_last_append2: "keep_last n (xs @ ys) = keep_last (n - length ys) xs @ keep_last n ys"
  by (cases "length ys \<le> n") (simp_all add: keep_last_def)

lemma caught_up_subset: "caught_up source level sent ls \<Longrightarrow> set ls' \<subseteq> set ls \<Longrightarrow> caught_up source level sent ls'"
  by (auto simp: caught_up_def filter_empty_conv)

lemma hub_Append_buf:
  assumes "hub_ok h" "n \<noteq> []"
  shows "b_lines (hub_buf (hub_Append nows n lines h) n) = keep_last (h_max h) (b_lines (hub_buf h n) @ stamp_all nows lines)"
  using hub_ok_buf [OF assms(1), of n] assms(2)
  by (auto simp: hub_Append_def case_prod_beta buffer_append_lines keep_last_short stamp_all_def)

lemma hub_Append_ok: "hub_ok h \<Longrightarrow> hub_ok (hub_Append nows n lines h)"
  and hub_Append_max [simp]: "h_max (hub_Append nows n lines h) = h_max h"
  using hub_step_ok [of h "HAppend nows n lines"] hub_step_max [of "HAppend nows n lines" h] by simp_all

text \<open>The lines that arrive for a name, with the timestamps they are stored with.\<close>

fun op_lines :: "string \<Rightarrow> hub_op \<Rightarrow> Line list" where
  "op_lines n (HAppend nows m lines) = (if m = n then stamp_all nows lines else [])"
| "op_lines n _ = []"

definition arrived :: "string \<Rightarrow> hub_op list \<Rightarrow> Line list" where
  "arrived n xs = concat (map (op_lines n) xs)"

lemma hub_step_lines:
  assumes "hub_ok h" "n \<noteq> []" "\<not> removes n x"
  shows "b_lines (hub_buf (hub_step x h) n) = keep_last (h_max h) (b_lines (hub_buf h n) @ op_lines n x)"
proof (cases x)
  case (HAppend nows m lines)
  have "b_lines (hub_buf h n) = keep_last (h_max h) (b_lines (hub_buf h n))"
    using hub_ok_buf [OF assms(1), of n] by (simp add: keep_last_short)
  moreover have "hub_buf (hub_Append nows m lines h) n = hub_buf h n" if "m \<noteq> n"
    using that by (simp add: hub_Append_def case_prod_beta)
  ultimately show ?thesis using assms by (simp add: HAppend hub_Append_buf)
qed (use hub_ok_buf [OF assms(1), of n] assms(2,3) in
    \<open>auto simp: hub_Snapshot_def hub_Subscribe_def hub_buf_Remove Let_def keep_last_short\<close>)

lemma hub_run_lines:
  "hub_ok h \<Longrightarrow> n \<noteq> [] \<Longrightarrow> \<forall>x\<in>set xs. \<not> removes n x \<Longrightarrow>
   b_lines (hub_buf (fold hub_step xs h) n) = keep_last (h_max h) (b_lines (hub_buf h n) @ arrived n xs)"
proof (induction xs arbitrary: h)
  case Nil
  then show ?case using hub_ok_buf [of h n] by (simp add: arrived_def keep_last_short)
next
  case (Cons x xs)
  then show ?case
    by (simp add: hub_step_ok hub_step_lines arrived_def keep_last_append)
qed

lemma follow_snapshot:
  "follow n source level sent h =
     (hub_set n (hub_buf h n) h, follow_pass sent (filter (line_selected sent source level) (b_lines (hub_buf h n))))"
  by (simp add: follow_def hub_Snapshot_def snapshot_keep_last Let_def)

lemma follow_hub: "fst (follow n source level sent h) = hub_step (HSnapshot n sent source level 0) h"
  by (simp add: follow_def case_prod_beta)

text \<open>What arrives for the name between one pass and the next, turn by turn; \<open>pending\<close> are the
  lines that arrived after the last pass.\<close>

fun arrivals :: "string \<Rightarrow> Line list \<Rightarrow> turn list \<Rightarrow> Line list list" where
  "arrivals n pending [] = []"
| "arrivals n pending ((before, between, w) # turns) = (pending @ arrived n before) # arrivals n (arrived n between) turns"

text \<open>The lines of a stream.\<close>

fun frame_lines :: "frame list \<Rightarrow> Line list" where
  "frame_lines [] = []"
| "frame_lines (Data ln # fs) = ln # frame_lines fs"
| "frame_lines (Keepalive # fs) = frame_lines fs"

lemma frame_lines_append [simp]: "frame_lines (map Data out @ fs) = out @ frame_lines fs"
  by (induction out) simp_all

lemma follow_pass_arrivals:
  assumes h: "hub_ok h" "n \<noteq> []"
    and buf: "b_lines (hub_buf h n) = keep_last (h_max h) (old @ new)" and up: "caught_up source level sent old"
    and new: "sorted_wrt (<) (map ln_TS new)" "\<forall>ln\<in>set new. sent < ln_TS ln"
  shows "\<exists>sent'. follow n source level sent h =
           (hub_set n (hub_buf h n) h, filter (line_selected 0 source level) (keep_last (h_max h) new), sent') \<and>
         caught_up source level sent' (b_lines (hub_buf h n)) \<and> sent' \<in> insert sent (set (map ln_TS new))"
proof -
  let ?old = "keep_last (h_max h - length new) old" and ?new = "keep_last (h_max h) new"
  have ls: "b_lines (hub_buf h n) = ?old @ ?new" using buf by (simp add: keep_last_append2)
  have "caught_up source level sent ?old" using up set_keep_last by (rule caught_up_subset)
  moreover have "sorted_wrt (<) (map ln_TS ?new)" using new(1) by (simp add: keep_last_def drop_map [symmetric] sorted_wrt_drop)
  moreover have sub: "set ?new \<subseteq> set new" by (rule set_keep_last)
  then have "\<forall>ln\<in>set ?new. sent < ln_TS ln" using new(2) by blast
  ultimately obtain sent' where "follow_pass sent (filter (line_selected sent source level) (?old @ ?new)) =
        (filter (line_selected 0 source level) ?new, sent')" "caught_up source level sent' (?old @ ?new)"
      "sent' \<in> insert sent (set (map ln_TS ?new))"
    using follow_pass_batch by blast
  then show ?thesis using sub by (auto simp: follow_snapshot ls)
qed

lemma increasing_split:
  assumes "sorted_wrt (<) (sent # map ln_TS (xs @ ys))"
  shows "sorted_wrt (<) (map ln_TS xs)" "\<forall>ln\<in>set xs. sent < ln_TS ln"
    "sorted_wrt (<) (map ln_TS ys)" "\<forall>ln\<in>set ys. sent < ln_TS ln"
    "\<forall>ln\<in>set xs. \<forall>ln'\<in>set ys. ln_TS ln < ln_TS ln'"
  using assms by (auto simp: sorted_wrt_append)

lemma follow_run_all:
  assumes "hub_ok h" "n \<noteq> []" "\<forall>(before, between, w)\<in>set turns. \<forall>x\<in>set before \<union> set between. \<not> removes n x"
    and "\<forall>(before, between, w)\<in>set (butlast turns). w \<noteq> RequestOver"
    and "b_lines (hub_buf h n) = keep_last (h_max h) (old @ pending)" "caught_up source level sent old"
    and "sorted_wrt (<) (sent # map ln_TS (concat (arrivals n pending turns)))"
  shows "frame_lines (snd (follow_run n source level sent turns h)) =
           concat (map (\<lambda>new. filter (line_selected 0 source level) (keep_last (h_max h) new)) (arrivals n pending turns))"
  using assms
proof (induction turns arbitrary: h sent old pending)
  case Nil
  then show ?case by simp
next
  case (Cons t turns)
  obtain before between w where t: "t = (before, between, w)" by (cases t)
  let ?new = "pending @ arrived n before" and ?rest = "concat (arrivals n (arrived n between) turns)"
  let ?h1 = "fold hub_step before h"
  have "sorted_wrt (<) (sent # map ln_TS (?new @ ?rest))" using Cons.prems(7) by (simp add: t)
  note sorted = increasing_split [OF this]
  have h1: "hub_ok ?h1" "h_max ?h1 = h_max h" using Cons.prems(1) by (simp_all add: hub_run_ok)
  have "b_lines (hub_buf ?h1 n) = keep_last (h_max h) (keep_last (h_max h) (old @ pending) @ arrived n before)"
    using hub_run_lines [OF Cons.prems(1,2), of before] Cons.prems(3,5) by (auto simp: t)
  then have "b_lines (hub_buf ?h1 n) = keep_last (h_max ?h1) (old @ ?new)"
    by (simp add: keep_last_append h1)
  from follow_pass_arrivals [OF h1(1) Cons.prems(2) this Cons.prems(6) sorted(1,2)] obtain sent' where
    pass: "follow n source level sent ?h1 = (hub_set n (hub_buf ?h1 n) ?h1,
        filter (line_selected 0 source level) (keep_last (h_max h) ?new), sent')"
      "caught_up source level sent' (b_lines (hub_buf ?h1 n))" "sent' \<in> insert sent (set (map ln_TS ?new))"
    by (auto simp: h1)
  let ?h2 = "hub_set n (hub_buf ?h1 n) ?h1"
  have h2: "hub_ok ?h2" using hub_step_ok [OF h1(1), of "HSnapshot n sent source level 0"] by (simp add: hub_Snapshot_def Let_def)
  let ?h3 = "fst (hub_Subscribe n (fold hub_step between ?h2))"
  have h3: "hub_ok ?h3" "h_max ?h3 = h_max h"
    using hub_step_ok [OF hub_run_ok [OF h2], of "HSubscribe n" between]
      hub_step_max [of "HSubscribe n" "fold hub_step between ?h2"] by (simp_all add: h1)
  have buf: "b_lines (hub_buf ?h3 n) = keep_last (h_max ?h3) (b_lines (hub_buf ?h1 n) @ arrived n between)"
    using hub_run_lines [OF h2 Cons.prems(2), of between] Cons.prems(3)
    by (auto simp: t h1 h3 hub_Subscribe_def Let_def)
  have "frame_lines (snd (follow_run n source level sent' turns ?h3)) =
      concat (map (\<lambda>new. filter (line_selected 0 source level) (keep_last (h_max h) new)) (arrivals n (arrived n between) turns))"
  proof (subst h3(2) [symmetric], rule Cons.IH [OF h3(1) Cons.prems(2) _ _ buf pass(2)])
    show "sorted_wrt (<) (sent' # map ln_TS ?rest)" using pass(3) sorted by auto
    show "\<forall>(before, between, w)\<in>set (butlast turns). w \<noteq> RequestOver"
      using Cons.prems(4) by (cases turns) auto
  qed (use Cons.prems(3) in auto)
  moreover have "turns = []" if "w = RequestOver"
    using Cons.prems(4) that by (cases turns) (auto simp: t)
  ultimately show ?case
    using frame_lines_append [of _ "[]"]
    by (cases w) (auto simp: t pass(1) Let_def case_prod_beta)
qed

section \<open>Examples\<close>

definition ex_line :: "time \<Rightarrow> string \<Rightarrow> string \<Rightarrow> Line" where
  "ex_line t source s = \<lparr>ln_TS = t, ln_Source = source, ln_Level = ''INFO'', ln_Text = s\<rparr>"

section \<open>Properties\<close>

text \<open>
  Whatever the sequence of appends, snapshots, subscriptions and removals, and whatever
  the name, no buffer of a hub ever holds more lines than the capacity the hub was created
  with (4096 when that is not positive).
\<close>
lemma log_bounded:
  "length (b_lines (hub_buf (fold hub_step ops (NewHub m)) n)) \<le> (if m \<le> 0 then 4096 else nat m)"
proof -
  have "hub_ok (fold hub_step ops (NewHub m))"
    using hub_sys.reach_inv [OF reach_run] .
  from hub_ok_buf [OF this, of n] show ?thesis by (simp add: NewHub_def)
qed

text \<open>
  C22: a sequence of appends leaves exactly the newest lines of everything appended, in order,
  each with the time of its append where it came without one, and a snapshot without filters
  and with a limit returns the newest of those.
\<close>
theorem log_keeps_newest:
  assumes "n \<noteq> []"
    and "h = fold (\<lambda>(nows, lines). hub_Append nows n lines) es (NewHub m)"
    and "newest = keep_last (if m \<le> 0 then 4096 else nat m) (concat (map (\<lambda>(nows, lines). stamp_all nows lines) es))"
  shows "b_lines (hub_buf h n) = newest \<and>
         snd (hub_Snapshot n 0 [] [] limit h) = (if limit > 0 then keep_last (nat limit) newest else newest)"
proof -
  have "hub_ok (fold (\<lambda>(nows, lines). hub_Append nows n lines) es (NewHub m)) \<and>
        h_max (fold (\<lambda>(nows, lines). hub_Append nows n lines) es (NewHub m)) = h_max (NewHub m) \<and>
        b_lines (hub_buf (fold (\<lambda>(nows, lines). hub_Append nows n lines) es (NewHub m)) n) =
          keep_last (h_max (NewHub m)) (concat (map (\<lambda>(nows, lines). stamp_all nows lines) es))"
  proof (induction es rule: rev_induct)
    case Nil
    then show ?case by (simp add: NewHub_ok keep_last_def) (simp add: NewHub_def hub_buf_def)
  next
    case (snoc e es)
    then show ?case
      by (cases e) (simp add: hub_Append_ok hub_Append_buf assms(1) keep_last_append)
  qed
  then show ?thesis
    by (simp add: assms(2,3) hub_Snapshot_def snapshot_keep_last line_selected_def IsZero_def Let_def NewHub_def)
qed

theorem log_keeps_newest_witness:
  "b_lines (hub_buf (fold (\<lambda>(nows, lines). hub_Append nows ''a'' lines)
     [(\<lambda>i. 7, [ex_line 1 [] ''x'', ex_line 0 [] ''y'']), (\<lambda>i. 9, [ex_line 0 [] ''z''])] (NewHub 2)) ''a'') =
   [ex_line 7 [] ''y'', ex_line 9 [] ''z'']"
  using log_keeps_newest [OF _ refl refl, of "''a''" "[(\<lambda>i. 7, [ex_line 1 [] ''x'', ex_line 0 [] ''y'']), (\<lambda>i. 9, [ex_line 0 [] ''z''])]" 2]
  by (simp add: stamp_all_def stamp_def IsZero_def ex_line_def enumerate_eq_zip keep_last_def)

text \<open>
  C23: a waiter is woken exactly by new lines. In any state of the hub, the channel returned by
  \<open>Subscribe\<close> has received its value, after any further operations, if and only if one of them
  appended a line to that sandbox before the sandbox's buffer was removed. (Lines that arrive after
  \<open>Remove\<close> go to a new buffer, which does not know the channel.)
\<close>
theorem subscriber_woken:
  assumes "hub_Subscribe n (fold hub_step before (NewHub m)) = (h, ch)"
  shows "ch \<in> h_signalled (fold hub_step after h) \<longleftrightarrow>
    (\<exists>pre x post. after = pre @ x # post \<and> wakes n x \<and> (\<forall>y\<in>set pre. \<not> removes n y))"
  unfolding woken_iff [symmetric]
  by (rule hub_run_waiting [OF Subscribe_waiting [OF hub_channels.reach_inv [OF reach_run] assms]])

theorem subscriber_woken_witness:
  "snd (hub_Subscribe ''a'' (NewHub 2)) \<in>
     h_signalled (fold hub_step [HAppend (\<lambda>i. 1) ''b'' [ex_line 1 [] ''x''], HAppend (\<lambda>i. 1) ''a'' [ex_line 1 [] ''x'']]
       (fst (hub_Subscribe ''a'' (NewHub 2)))) \<and>
   snd (hub_Subscribe ''a'' (NewHub 2)) \<notin>
     h_signalled (fold hub_step [HRemove ''a'', HAppend (\<lambda>i. 1) ''a'' [ex_line 1 [] ''x'']]
       (fst (hub_Subscribe ''a'' (NewHub 2))))"
proof -
  have s: "hub_Subscribe ''a'' (fold hub_step [] (NewHub 2)) =
      (fst (hub_Subscribe ''a'' (NewHub 2)), snd (hub_Subscribe ''a'' (NewHub 2)))" by simp
  show ?thesis
    unfolding subscriber_woken [OF s] woken_iff [symmetric] by simp
qed

text \<open>
  C24: following a sandbox's log. Whatever the other requests do to the hub before and during the
  stream, several batches of lines between two passes included, each pass of the loop writes
  exactly the lines that arrived since the pass before it and that the source and level filters
  select, in order and each once; of more lines than the buffer holds, the newest that fit. Lines
  read again by a later pass or evicted after they were written make no difference. (The request
  has no \<open>since\<close>, the timestamps are positive and strictly increasing, and the sandbox's buffer is
  not removed.)
\<close>
theorem follow_exactly_once:
  assumes "n \<noteq> []"
    and "\<forall>(before, between, w)\<in>set turns. \<forall>x\<in>set before \<union> set between. \<not> removes n x"
    and "\<forall>(before, between, w)\<in>set (butlast turns). w \<noteq> RequestOver"
    and "sorted_wrt (<) (0 # map ln_TS (concat (arrivals n [] turns)))"
  shows "frame_lines (snd (follow_run n source level 0 turns (NewHub m))) =
    concat (map (\<lambda>new. filter (line_selected 0 source level) (keep_last (if m \<le> 0 then 4096 else nat m) new)) (arrivals n [] turns))"
proof -
  have cap: "h_max (NewHub m) = (if m \<le> 0 then 4096 else nat m)" by (simp add: NewHub_def)
  have "b_lines (hub_buf (NewHub m) n) = keep_last (h_max (NewHub m)) ([] @ [])"
    by (simp add: NewHub_def hub_buf_def keep_last_def)
  from follow_run_all [OF NewHub_ok assms(1-3) this _ assms(4)] show ?thesis
    by (simp add: cap caught_up_def)
qed

text \<open>Three \<open>POST\<close>s of one line each before the first pass of a buffer for two lines, one after it.\<close>

theorem follow_exactly_once_witness:
  "frame_lines (snd (follow_run ''a'' ''proxy'' [] 0
     [([HAppend (\<lambda>i. 5) ''a'' [ex_line 1 ''proxy'' ''x''], HAppend (\<lambda>i. 5) ''a'' [ex_line 2 ''proc'' ''y''],
        HAppend (\<lambda>i. 5) ''b'' [ex_line 2 ''proc'' ''other''], HAppend (\<lambda>i. 5) ''a'' [ex_line 3 ''proxy'' ''z'']], [], After15s),
      ([HAppend (\<lambda>i. 5) ''a'' [ex_line 0 ''proxy'' ''w'']], [], RequestOver)] (NewHub 2))) =
   [ex_line 3 ''proxy'' ''z'', ex_line 5 ''proxy'' ''w'']"
  using follow_exactly_once [of "''a''"
      "[([HAppend (\<lambda>i. 5) ''a'' [ex_line 1 ''proxy'' ''x''], HAppend (\<lambda>i. 5) ''a'' [ex_line 2 ''proc'' ''y''],
         HAppend (\<lambda>i. 5) ''b'' [ex_line 2 ''proc'' ''other''], HAppend (\<lambda>i. 5) ''a'' [ex_line 3 ''proxy'' ''z'']], [], After15s),
        ([HAppend (\<lambda>i. 5) ''a'' [ex_line 0 ''proxy'' ''w'']], [], RequestOver)]" "''proxy''" "[]" 2]
  by (simp add: arrived_def stamp_all_def stamp_def IsZero_def ex_line_def enumerate_eq_zip line_selected_def keep_last_def)

text \<open>
  The hypothesis on the timestamps is needed. Of two lines with the same timestamp that
  arrive before different passes, the follow loop writes only the first: the second one is in the
  buffer and in every snapshot, but is not after the last timestamp sent.
\<close>
lemma follow_loses_equal_timestamps:
  assumes "n \<noteq> []" "ln_TS a = ln_TS b" "ln_TS a \<noteq> 0"
    and "line_selected 0 source level a" "line_selected 0 source level b"
  shows "snd (follow_run n source level 0 [([HAppend nows n [a]], [], Signalled), ([HAppend nows' n [b]], [], RequestOver)] (NewHub 2)) = [Data a]"
proof -
  have buf: "b_lines (hub_buf (hub_Append nows n [a] (NewHub 2)) n) = [a]"
    using assms
    by (simp add: hub_Append_buf hub_Append_ok NewHub_ok stamp_all_def stamp_def IsZero_def keep_last_def)
      (simp add: NewHub_def hub_buf_def)
  let ?h = "fst (hub_Subscribe n (hub_set n (hub_buf (hub_Append nows n [a] (NewHub 2)) n) (hub_Append nows n [a] (NewHub 2))))"
  have ok: "hub_ok ?h"
    using hub_run_ok [OF NewHub_ok, of "[HAppend nows n [a], HSnapshot n 0 [] [] 0, HSubscribe n]" 2] by (simp add: hub_Snapshot_def Let_def)
  have max: "h_max ?h = 2" by (simp add: hub_Subscribe_def Let_def) (simp add: NewHub_def)
  have "b_lines (hub_buf ?h n) = [a]" by (simp add: hub_Subscribe_def Let_def buf)
  then have "b_lines (hub_buf (hub_Append nows' n [b] ?h) n) = [a, b]"
    using assms ok by (simp add: hub_Append_buf max stamp_all_def stamp_def IsZero_def keep_last_def)
  then show ?thesis
    using assms by (simp add: follow_snapshot buf IsZero_def line_selected_mono(1) Let_def)
qed

end
