(* ===== verification/Providers_Api.thy ===== *)
theory Providers_Api
  imports Oauth Proposals_Api Logbuf
begin

text \<open>
  The handlers of \<open>internal/httpapi/providers.go\<close>: profiles, providers, and the paths below one
  sandbox. \<open>lib\<close>, \<open>nl\<close> and \<open>sl\<close> are the packages outside the repository; the state is the
  store, the secret store and the log hub. The body of a request is given by the outcomes of
  decoding it, one for each type some handler decodes it to.
\<close>

section \<open>State and bodies\<close>

record providerWriteBody =
  pw_Type :: string
  pw_EnvVars :: "string list"
  pw_Credentials :: "string gomap"
  pw_CredentialExpiresAtMS :: "int gomap"
  pw_RuntimeCredentials :: bool
  pw_Config :: "string gomap"

record bodies =
  bd_raw :: "string + string"
  bd_provider :: "string + providerWriteBody"
  bd_refresh :: "string + ProviderRefreshConfig"
  bd_proposal :: "string + Proposal"
  bd_reason :: string
  bd_lines :: "string + Line list"

record 'sec papi =
  pa_store :: Store
  pa_sec :: 'sec
  pa_logs :: Hub

datatype 'prof papi_payload =
    ANone
  | AProfiles "(string \<times> string) list"
  | AProfile 'prof string
  | AProviders "ProviderRecord list"
  | AProvider ProviderRecord
  | ARefresh refresh_payload
  | AYaml string
  | APolicy string nat
  | ARevisions "(int \<times> time \<times> int \<times> string) list"
  | AAttached "(string \<times> string \<times> string list) list"
  | ASecrets "(string, string) fmap"
  | ALines "Line list"
  | AStream string "Line list" time
  | AProposals proposal_payload

definition on_store :: "'sec papi \<Rightarrow> Store \<times> 'a \<Rightarrow> 'sec papi \<times> 'a" where
  "on_store g r = (g\<lparr>pa_store := fst r\<rparr>, snd r)"

section \<open>Profiles and providers\<close>

definition handle_profiles ::
    "('doc, 'prof) policy_lib \<Rightarrow> string \<Rightarrow> env \<Rightarrow> Request \<Rightarrow> 'sec papi \<Rightarrow> 'sec papi \<times> 'prof papi_payload answer" where
  "handle_profiles lib d en r g =
     (if rq_Method r \<noteq> MethodGet then (g, not_allowed)
      else (g, Reply StatusOK (AProfiles (listProfiles lib (en_order en 0) d (pa_store g)))))"

definition handle_profile ::
    "('doc, 'prof) policy_lib \<Rightarrow> string \<Rightarrow> env \<Rightarrow> Request \<Rightarrow> bodies \<Rightarrow> 'sec papi \<Rightarrow> 'sec papi \<times> 'prof papi_payload answer" where
  "handle_profile lib d en r b g =
     (case item_name ''/v1/profiles/'' (rq_Path r) of
        None \<Rightarrow> (g, Error StatusBadRequest ''bad id'')
      | Some pid \<Rightarrow>
          if rq_Method r = MethodGet then
            (case resolveProfile lib d pid (pa_store g) of
               (Inl _, _) \<Rightarrow> (g, Error StatusNotFound err_text)
             | (Inr p, src) \<Rightarrow> (g, Reply StatusOK (AProfile p src)))
          else if rq_Method r = MethodPut then
            (case bd_raw b of
               Inl x \<Rightarrow> (g, Error StatusBadRequest x)
             | Inr body \<Rightarrow>
                 (case pl_ParseProfile lib body of
                    Inl x \<Rightarrow> (g, Error StatusBadRequest x)
                  | Inr p \<Rightarrow>
                      if pl_ProfileID lib p \<noteq> pid then (g, Error StatusBadRequest ''id mismatch'')
                      else on_store g (store_reply StatusInternalServerError (Reply StatusNoContent ANone)
                             (UpsertProfile (en_flush en 0) pid body (pa_store g)))))
          else if rq_Method r = MethodDelete then
            on_store g (store_reply StatusInternalServerError (Reply StatusNoContent ANone)
              (DeleteProfile (en_flush en 0) pid (pa_store g)))
          else (g, not_allowed))"

definition handle_providers :: "env \<Rightarrow> Request \<Rightarrow> 'sec papi \<Rightarrow> 'sec papi \<times> 'prof papi_payload answer" where
  "handle_providers en r g =
     (if rq_Method r = MethodGet
      then (g, Reply StatusOK (AProviders (map snd (mrange (en_order en 0) (st_Providers (Snapshot (pa_store g)))))))
      else (g, not_allowed))"

text \<open>The record stored for a body; \<open>ks\<close> is the order of its credentials.\<close>

definition provider_record :: "string list \<Rightarrow> string \<Rightarrow> providerWriteBody \<Rightarrow> ProviderRecord" where
  "provider_record ks name b =
     \<lparr>prov_Name = name, prov_Type = pw_Type b,
      prov_EnvVars = (if pw_EnvVars b = [] \<and> mlen (pw_Credentials b) > 0 then map fst (mrange ks (pw_Credentials b))
                      else pw_EnvVars b),
      prov_CredentialExpiresAtMS = pw_CredentialExpiresAtMS b, prov_RuntimeCredentials = pw_RuntimeCredentials b,
      prov_Config = pw_Config b, prov_Refresh = None\<rparr>"

definition put_provider_body ::
    "('doc, 'prof) policy_lib \<Rightarrow> 'sec secrets_lib \<Rightarrow> string \<Rightarrow> env \<Rightarrow> string \<Rightarrow> providerWriteBody \<Rightarrow> 'sec papi
     \<Rightarrow> 'sec papi \<times> 'prof papi_payload answer" where
  "put_provider_body lib sl d en name body g =
     (if TrimSpace (pw_Type body) = [] then (g, Error StatusBadRequest ''type (profile id) required'')
      else
        (case fst (resolveProfile lib d (pw_Type body) (pa_store g)) of
           Inl _ \<Rightarrow> (g, Error StatusBadRequest (''unknown profile type: '' @ err_text))
         | Inr _ \<Rightarrow>
             (case UpsertProvider (en_flush en 0) (provider_record (en_order en 0) name body) (pa_store g) of
                (st, Some _) \<Rightarrow> (g\<lparr>pa_store := st\<rparr>, Error StatusInternalServerError err_text)
              | (st, None) \<Rightarrow>
                  (case pw_Credentials body of
                     None \<Rightarrow> (g\<lparr>pa_store := st\<rparr>, Reply StatusNoContent ANone)
                   | Some creds \<Rightarrow>
                       if creds = fmempty then (g\<lparr>pa_store := st\<rparr>, Reply StatusNoContent ANone)
                       else
                         (case sl_Put sl name creds (pa_sec g) of
                            (sec, Some _) \<Rightarrow> (g\<lparr>pa_store := st, pa_sec := sec\<rparr>, Error StatusInternalServerError (''store credentials: '' @ err_text))
                          | (sec, None) \<Rightarrow> (g\<lparr>pa_store := st, pa_sec := sec\<rparr>, Reply StatusNoContent ANone))))))"

definition handle_provider ::
    "('doc, 'prof) policy_lib \<Rightarrow> 'sec secrets_lib \<Rightarrow> host \<Rightarrow> string \<Rightarrow> env \<Rightarrow> Request \<Rightarrow> bodies \<Rightarrow> 'sec papi
     \<Rightarrow> 'sec papi \<times> 'prof papi_payload answer" where
  "handle_provider lib sl ho d en r b g =
     (let rest = Trim (TrimPrefix (rq_Path r) ''/v1/providers/'') ''/'' in
      if rest = [] then (g, Error StatusBadRequest ''bad name'')
      else
        (case Cut rest CHR ''/'' of
           (name, sub, hasSub) \<Rightarrow>
             if name = [] then (g, Error StatusBadRequest ''bad name'')
             else if hasSub then
               (case handleProviderRefreshPath sl ho en r (bd_refresh b) name sub (pa_store g, pa_sec g) of
                  None \<Rightarrow> (g, Error StatusNotFound ''not found'')
                | Some ((st, sec), ans) \<Rightarrow>
                    (g\<lparr>pa_store := st, pa_sec := sec\<rparr>,
                     case ans of Error c m \<Rightarrow> Error c m | Reply c v \<Rightarrow> Reply c (ARefresh v)))
             else if rq_Method r = MethodGet then
               (case GetProvider (pa_store g) name of
                  None \<Rightarrow> (g, Error StatusNotFound ''not found'')
                | Some p \<Rightarrow> (g, Reply StatusOK (AProvider p)))
             else if rq_Method r = MethodPut then
               (case bd_provider b of
                  Inl x \<Rightarrow> (g, Error StatusBadRequest x)
                | Inr body \<Rightarrow> put_provider_body lib sl d en name body g)
             else if rq_Method r = MethodDelete then
               (case DeleteProvider (en_flush en 0) name (pa_store g) of
                  (st, Some _) \<Rightarrow> (g\<lparr>pa_store := st\<rparr>, Error StatusInternalServerError err_text)
                | (st, None) \<Rightarrow> (g\<lparr>pa_store := st, pa_sec := sl_DeletePrefix sl (''provider/'' @ name @ ''/'') (pa_sec g)\<rparr>,
                                 Reply StatusNoContent ANone))
             else (g, not_allowed)))"

section \<open>Below one sandbox\<close>

definition reply_yaml :: "('doc, 'prof) policy_lib \<Rightarrow> api_err + 'doc \<Rightarrow> 'prof papi_payload answer" where
  "reply_yaml lib x =
     (case x of
        Inl _ \<Rightarrow> Error StatusBadRequest err_text
      | Inr doc \<Rightarrow> (case pl_Marshal lib doc of Inl _ \<Rightarrow> Error StatusInternalServerError err_text | Inr y \<Rightarrow> Reply StatusOK (AYaml y)))"

definition handleSandboxPolicy ::
    "('doc, 'prof) policy_lib \<Rightarrow> string \<Rightarrow> env \<Rightarrow> Request \<Rightarrow> bodies \<Rightarrow> string \<Rightarrow> 'sec papi \<Rightarrow> 'sec papi \<times> 'prof papi_payload answer" where
  "handleSandboxPolicy lib d en r b name g =
     (if rq_Method r = MethodGet then
        let view = ToLower (TrimSpace (QueryGet r ''view''));
            view = (if view = [] then (if HasSuffix (rq_Path r) ''/base-policy'' then ''base'' else ''full'') else view) in
        (case GetSandbox (pa_store g) name of
           None \<Rightarrow> (g, Error StatusNotFound ''sandbox not found'')
         | Some sb \<Rightarrow>
             if view = ''base'' then (g, Reply StatusOK (AYaml (sb_BasePolicyYAML sb)))
             else if view = ''full'' \<or> view = ''effective'' then (g, reply_yaml lib (effectivePolicy lib d name (pa_store g)))
             else (g, Error StatusBadRequest ''view must be \"base\" or \"full\"''))
      else if rq_Method r = MethodPut \<or> rq_Method r = MethodPost then
        (case bd_raw b of
           Inl x \<Rightarrow> (g, Error StatusBadRequest x)
         | Inr body \<Rightarrow>
             (case setSandboxBasePolicy lib (en_now en 0, en_flush en 0) (en_now en 1, en_flush en 1) d name body (pa_store g) of
                (st, Inl _) \<Rightarrow> (g\<lparr>pa_store := st\<rparr>, Error StatusBadRequest err_text)
              | (st, Inr (eff, stripped)) \<Rightarrow> (g\<lparr>pa_store := st\<rparr>, Reply StatusOK (APolicy eff stripped))))
      else (g, not_allowed))"

text \<open>
  \<open>GET\<close> without \<open>follow\<close> answers a snapshot of at most 500 lines; with it, the handler enters the
  loop modelled by \<open>follow_run\<close>, starting after \<open>since\<close>, the parsed query parameter: here is its
  first turn, with the lines written and the subscription it leaves; the later turns are interleaved
  with other requests.
\<close>

definition handleSandboxLogs ::
    "env \<Rightarrow> time \<Rightarrow> Request \<Rightarrow> bodies \<Rightarrow> string \<Rightarrow> 'sec papi \<Rightarrow> 'sec papi \<times> 'prof papi_payload answer" where
  "handleSandboxLogs en since r b name g =
     (if rq_Method r = MethodPost then
        (case bd_lines b of
           Inl x \<Rightarrow> (g, Error StatusBadRequest x)
         | Inr lines \<Rightarrow> (g\<lparr>pa_logs := hub_Append (en_now en) name lines (pa_logs g)\<rparr>, Reply StatusNoContent ANone))
      else if rq_Method r = MethodGet then
        let q = QueryGet r in
        if q ''follow'' = ''1'' \<or> q ''follow'' = ''true'' then
          (case follow name (q ''source'') (q ''level'') since (pa_logs g) of
             (h, out, sent) \<Rightarrow> (g\<lparr>pa_logs := fst (hub_Subscribe name h)\<rparr>, Reply StatusOK (AStream name out sent)))
        else (case hub_Snapshot name since (q ''source'') (q ''level'') 500 (pa_logs g) of
                (h, lines) \<Rightarrow> (g\<lparr>pa_logs := h\<rparr>, Reply StatusOK (ALines lines)))
      else (g, not_allowed))"

text \<open>\<open>fmt.Sscanf(s, "%d", &n)\<close>: an optional sign and the longest run of digits.\<close>

definition Sscanf_d :: "string \<Rightarrow> int option" where
  "Sscanf_d s =
     (let neg = (s \<noteq> [] \<and> hd s = CHR ''-'');
          s = (if s \<noteq> [] \<and> (hd s = CHR ''-'' \<or> hd s = CHR ''+'') then tl s else s);
          digits = takeWhile (\<lambda>c. digit_val c \<noteq> None) s in
      if digits = [] then None
      else case number 10 digit_val 0 digits of
             None \<Rightarrow> None
           | Some n \<Rightarrow> let v = (if neg then - int n else int n) in
                       if - (2 ^ 63) \<le> v \<and> v < 2 ^ 63 then Some v else None)"

definition handle_revisions :: "Request \<Rightarrow> string \<Rightarrow> 'sec papi \<Rightarrow> 'prof papi_payload answer" where
  "handle_revisions r name g =
     (let rev_str = TrimSpace (QueryGet r ''rev'') in
      if rev_str \<noteq> [] then
        (case Sscanf_d rev_str of
           None \<Rightarrow> Error StatusBadRequest ''invalid rev''
         | Some n \<Rightarrow>
             if n \<le> 0 then Error StatusBadRequest ''invalid rev''
             else (case GetPolicyRevision (pa_store g) name n of
                     Inl _ \<Rightarrow> Error StatusNotFound err_text
                   | Inr rec \<Rightarrow> Reply StatusOK (AYaml (rev_YAML rec))))
      else
        (case ListPolicyRevisions (pa_store g) name of
           Inl _ \<Rightarrow> Error StatusNotFound err_text
         | Inr revs \<Rightarrow> Reply StatusOK (ARevisions (map (\<lambda>x. (rev_Rev x, rev_UpdatedAt x, rev_Bytes x, rev_Status x)) revs))))"

definition attached_rows :: "Store \<Rightarrow> Sandbox \<Rightarrow> (string \<times> string \<times> string list) list" where
  "attached_rows st sb =
     map (\<lambda>pn. case GetProvider st pn of None \<Rightarrow> (pn, [], []) | Some rec \<Rightarrow> (pn, prov_Type rec, prov_EnvVars rec))
       (sb_AttachedProviders sb)"

definition review_of :: "env \<Rightarrow> review_env" where
  "review_of en = \<lparr>rv_set = (en_now en 0, en_flush en 0), rv_rollback = (en_now en 1, en_flush en 1),
     rv_now = en_now en 2, rv_now' = en_now en 3, rv_flush = en_flush en 2, rv_order = en_order en 0\<rparr>"

definition handleSandboxSubpath ::
    "('doc, 'prof) policy_lib \<Rightarrow> ('doc, 'np) rule_lib \<Rightarrow> 'sec secrets_lib \<Rightarrow> string \<Rightarrow> env \<Rightarrow> time \<Rightarrow> Request \<Rightarrow> bodies \<Rightarrow>
     string \<Rightarrow> string \<Rightarrow> 'sec papi \<Rightarrow> 'sec papi \<times> 'prof papi_payload answer" where
  "handleSandboxSubpath lib nl sl d en since r b name rest g =
     (let parts = Split (Trim rest ''/'') CHR ''/''; meth = rq_Method r; st = pa_store g in
      if parts = [''effective-policy''] \<and> meth = MethodGet then (g, reply_yaml lib (effectivePolicy lib d name st))
      else if parts = [''policy''] then handleSandboxPolicy lib d en r b name g
      else if parts = [''policy-revisions''] \<and> meth = MethodGet then (g, handle_revisions r name g)
      else if parts = [''providers''] \<and> meth = MethodGet then
        (case GetSandbox st name of
           None \<Rightarrow> (g, Error StatusNotFound ''sandbox not found'')
         | Some sb \<Rightarrow> (g, Reply StatusOK (AAttached (attached_rows st sb))))
      else if parts = [''base-policy''] \<and> meth = MethodGet then handleSandboxPolicy lib d en r b name g
      else if parts = [''secrets''] \<and> meth = MethodGet then
        (case resolveSandboxSecrets lib (Some (\<lambda>p ks. sl_Get sl p ks (pa_sec g))) d name st of
           Inl _ \<Rightarrow> (g, Error StatusBadRequest err_text)
         | Inr out \<Rightarrow> (g, Reply StatusOK (ASecrets out)))
      else if parts = [''logs''] then handleSandboxLogs en since r b name g
      else if parts ! 0 = ''proposals'' then
        (case handleSandboxProposals lib nl (review_of en) r (bd_proposal b) (bd_reason b) d name (Join (tl parts) CHR ''/'') st of
           (st', ans) \<Rightarrow> (g\<lparr>pa_store := st'\<rparr>, case ans of Error c m \<Rightarrow> Error c m | Reply c v \<Rightarrow> Reply c (AProposals v)))
      else if length parts = 2 \<and> parts ! 0 = ''providers'' then
        let prov = parts ! 1 in
        if meth = MethodPut \<or> meth = MethodPost then
          (if GetProvider st prov = None then (g, Error StatusNotFound ''provider not found'')
           else on_store g (store_reply StatusBadRequest (Reply StatusNoContent ANone)
                  (AttachProvider (en_now en 0) (en_flush en 0) name prov st)))
        else if meth = MethodDelete then
          on_store g (store_reply StatusBadRequest (Reply StatusNoContent ANone)
            (DetachProvider (en_now en 0) (en_flush en 0) name prov st))
        else (g, not_allowed)
      else (g, Error StatusNotFound ''not found''))"

end
