(* ===== verification/Startup.thy ===== *)
theory Startup
  imports Providers_Api
begin

text \<open>
  How a gateway process gets its configuration: the command line of \<open>Run\<close> in
  \<open>internal/httpapi/gateway.go\<close>, the environment variables (\<open>oidc_auth.go\<close>, \<open>authFromEnv\<close>,
  \<open>defaultDataDir\<close>, \<open>internal/config/config.go\<close>) and the life time of SSH sessions. The
  environment is a function \<open>getenv\<close> with the empty string for a variable that is not set.
\<close>

section \<open>Options\<close>

record OIDCOptions =
  oi_Issuer :: string
  oi_Audience :: string
  oi_ClientID :: string
  oi_AllowInsecureHTTP :: bool

record Options =
  opt_Listen :: string
  opt_DataDir :: string
  opt_TLSCert :: string
  opt_TLSKey :: string
  opt_OIDC :: OIDCOptions
  opt_SSHSessionTTL :: duration
  opt_AllowUnauthenticated :: bool

datatype flag_err = NeedsValue string | BadTTL string | UnknownFlag string

definition parseTTLSecs :: "string \<Rightarrow> flag_err + duration" where
  "parseTTLSecs s =
     (case Sscanf_d (TrimSpace s) of
        None \<Rightarrow> Inl (BadTTL s)
      | Some n \<Rightarrow>
          if n < 0 then Inl (BadTTL s)
          else if n = 0 then Inr (-1)
          else Inr (int64 (n * Second)))"

section \<open>The command line\<close>

text \<open>The flags that take the next argument, and what they do with it.\<close>

definition value_flag :: "string \<Rightarrow> (string \<Rightarrow> Options \<Rightarrow> flag_err + Options) option" where
  "value_flag a =
     (if a = ''--listen'' then Some (\<lambda>v opt. Inr (opt\<lparr>opt_Listen := v\<rparr>))
      else if a = ''--data-dir'' then Some (\<lambda>v opt. Inr (opt\<lparr>opt_DataDir := v\<rparr>))
      else if a = ''--tls-cert'' then Some (\<lambda>v opt. Inr (opt\<lparr>opt_TLSCert := v\<rparr>))
      else if a = ''--tls-key'' then Some (\<lambda>v opt. Inr (opt\<lparr>opt_TLSKey := v\<rparr>))
      else if a = ''--oidc-issuer'' then Some (\<lambda>v opt. Inr (opt\<lparr>opt_OIDC := (opt_OIDC opt)\<lparr>oi_Issuer := v\<rparr>\<rparr>))
      else if a = ''--oidc-audience'' then Some (\<lambda>v opt. Inr (opt\<lparr>opt_OIDC := (opt_OIDC opt)\<lparr>oi_Audience := v\<rparr>\<rparr>))
      else if a = ''--oidc-client-id'' then Some (\<lambda>v opt. Inr (opt\<lparr>opt_OIDC := (opt_OIDC opt)\<lparr>oi_ClientID := v\<rparr>\<rparr>))
      else if a = ''--ssh-session-ttl-secs'' then
        Some (\<lambda>v opt. case parseTTLSecs v of Inl x \<Rightarrow> Inl x | Inr ttl \<Rightarrow> Inr (opt\<lparr>opt_SSHSessionTTL := ttl\<rparr>))
      else None)"

text \<open>The loop over the arguments; \<open>None\<close> is the return without an error after \<open>--help\<close>.\<close>

fun run_flags :: "string list \<Rightarrow> Options \<Rightarrow> flag_err + Options option" where
  "run_flags [] opt = Inr (Some opt)"
| "run_flags (a # rest) opt =
     (case value_flag a of
        Some set_opt \<Rightarrow>
          (case rest of
             [] \<Rightarrow> Inl (NeedsValue a)
           | v # rest' \<Rightarrow> (case set_opt v opt of Inl x \<Rightarrow> Inl x | Inr opt' \<Rightarrow> run_flags rest' opt'))
      | None \<Rightarrow>
          if a = ''--oidc-allow-insecure-http'' then
            run_flags rest (opt\<lparr>opt_OIDC := (opt_OIDC opt)\<lparr>oi_AllowInsecureHTTP := True\<rparr>\<rparr>)
          else if a = ''--allow-unauthenticated-users'' then run_flags rest (opt\<lparr>opt_AllowUnauthenticated := True\<rparr>)
          else if a = ''-h'' \<or> a = ''--help'' then Inr None
          else Inl (UnknownFlag a))"

section \<open>The environment\<close>

definition env_true :: "(string \<Rightarrow> string) \<Rightarrow> string \<Rightarrow> bool" where
  "env_true getenv k = (ToLower (TrimSpace (getenv k)) \<in> {''1'', ''true'', ''yes''})"

fun firstNonEmptyEnv :: "(string \<Rightarrow> string) \<Rightarrow> string list \<Rightarrow> string" where
  "firstNonEmptyEnv getenv [] = []"
| "firstNonEmptyEnv getenv (k # ks) =
     (let v = TrimSpace (getenv k) in if v \<noteq> [] then v else firstNonEmptyEnv getenv ks)"

definition oidcFromEnvAndFlags :: "(string \<Rightarrow> string) \<Rightarrow> OIDCOptions \<Rightarrow> OIDCOptions" where
  "oidcFromEnvAndFlags getenv o1 =
     (let o2 = (if oi_Issuer o1 = [] then o1\<lparr>oi_Issuer := TrimSpace (getenv ''WHALESHELL_OIDC_ISSUER'')\<rparr> else o1);
          o3 = (if oi_Audience o2 = [] then o2\<lparr>oi_Audience := TrimSpace (getenv ''WHALESHELL_OIDC_AUDIENCE'')\<rparr> else o2);
          o4 = (if oi_ClientID o3 = []
                then o3\<lparr>oi_ClientID := TrimSpace (firstNonEmptyEnv getenv [''WHALESHELL_OIDC_CLIENT_ID'', ''OPENSHELL_OIDC_CLIENT_ID''])\<rparr>
                else o3) in
      if \<not> oi_AllowInsecureHTTP o4
      then o4\<lparr>oi_AllowInsecureHTTP := env_true getenv ''WHALESHELL_OIDC_ALLOW_INSECURE_HTTP''\<rparr> else o4)"

definition authFromEnv :: "(string \<Rightarrow> string) \<Rightarrow> Options \<Rightarrow> flag_err + Options" where
  "authFromEnv getenv opt =
     (let opt = (if env_true getenv ''WHALESHELL_GATEWAY_ALLOW_UNAUTHENTICATED''
                 then opt\<lparr>opt_AllowUnauthenticated := True\<rparr> else opt);
          v = TrimSpace (getenv ''WHALESHELL_SSH_SESSION_TTL_SECS'') in
      if opt_SSHSessionTTL opt = 0 \<and> v \<noteq> [] then
        (case parseTTLSecs v of Inl x \<Rightarrow> Inl x | Inr ttl \<Rightarrow> Inr (opt\<lparr>opt_SSHSessionTTL := ttl\<rparr>))
      else Inr opt)"

text \<open>\<open>home\<close> is the result of \<open>os.UserHomeDir\<close>, \<open>None\<close> for an error.\<close>

definition defaultDataDir :: "(string \<Rightarrow> string) \<Rightarrow> string option \<Rightarrow> string \<Rightarrow> string" where
  "defaultDataDir getenv home tmp =
     (let xdg = getenv ''XDG_STATE_HOME'' in
      if xdg \<noteq> [] then path_Join [xdg, ''whaleshell'', ''gateway'']
      else case home of
             None \<Rightarrow> path_Join [tmp, ''whaleshell-gateway'']
           | Some h \<Rightarrow> path_Join [h, ''.local'', ''state'', ''whaleshell'', ''gateway''])"

text \<open>\<open>Run\<close> up to the call of \<open>Serve\<close>, with the address of package \<open>defaults\<close>.\<close>

definition Run :: "(string \<Rightarrow> string) \<Rightarrow> string option \<Rightarrow> string \<Rightarrow> string \<Rightarrow> string list \<Rightarrow> flag_err + Options option" where
  "Run getenv home tmp listen args =
     (case run_flags args
             \<lparr>opt_Listen = listen, opt_DataDir = defaultDataDir getenv home tmp, opt_TLSCert = [], opt_TLSKey = [],
              opt_OIDC = \<lparr>oi_Issuer = [], oi_Audience = [], oi_ClientID = [], oi_AllowInsecureHTTP = False\<rparr>,
              opt_SSHSessionTTL = 0, opt_AllowUnauthenticated = False\<rparr> of
        Inl x \<Rightarrow> Inl x
      | Inr None \<Rightarrow> Inr None
      | Inr (Some opt) \<Rightarrow>
          (case authFromEnv getenv (opt\<lparr>opt_OIDC := oidcFromEnvAndFlags getenv (opt_OIDC opt)\<rparr>) of
             Inl x \<Rightarrow> Inl x
           | Inr opt' \<Rightarrow> Inr (Some opt')))"

definition newGatewayID :: "string \<Rightarrow> string" where
  "newGatewayID b = ''gw-'' @ EncodeToString b"

definition DefaultSSHSessionTTL :: duration where
  "DefaultSSHSessionTTL = int64 (24 * Hour)"

definition session_ttl :: "Options \<Rightarrow> duration" where
  "session_ttl opt =
     (let ttl = opt_SSHSessionTTL opt;
          ttl = (if ttl = 0 then DefaultSSHSessionTTL else ttl) in
      if ttl < 0 then 0 else ttl)"

text \<open>The validator of package \<open>idp\<close> for an issuer; its constructor may fail.\<close>

definition newOIDCValidator ::
    "(OIDCOptions \<Rightarrow> string + (string \<Rightarrow> Claims option)) \<Rightarrow> OIDCOptions \<Rightarrow> string + (string \<Rightarrow> Claims option) option" where
  "newOIDCValidator new_oidc opts =
     (if TrimSpace (oi_Issuer opts) = [] then Inr None
      else case new_oidc opts of Inl x \<Rightarrow> Inl x | Inr v \<Rightarrow> Inr (Some v))"

record Config =
  cf_Listen :: string
  cf_DataDir :: string
  cf_TLSCert :: string
  cf_TLSKey :: string
  cf_LogLevel :: string

definition Load :: "(string \<Rightarrow> string) \<Rightarrow> string \<Rightarrow> Config" where
  "Load getenv home =
     (let d = TrimSpace (getenv ''WHALESHELL_GATEWAY_DATA'') in
      \<lparr>cf_Listen = TrimSpace (getenv ''WHALESHELL_GATEWAY_LISTEN''),
       cf_DataDir = (if d = [] then path_Join [home, ''.local'', ''share'', ''whaleshell-gateway''] else d),
       cf_TLSCert = TrimSpace (getenv ''WHALESHELL_GATEWAY_TLS_CERT''),
       cf_TLSKey = TrimSpace (getenv ''WHALESHELL_GATEWAY_TLS_KEY''),
       cf_LogLevel = TrimSpace (getenv ''WHALESHELL_LOG_LEVEL'')\<rparr>)"

section \<open>Lemmas\<close>

text \<open>
  A number of seconds as a 64-bit number of nanoseconds. \<open>10 ^ 9\<close> has nine factors 2, so a positive
  number of seconds below \<open>2 ^ 55\<close> does not wrap around to 0.
\<close>

lemma int64_seconds: "0 < n \<Longrightarrow> n \<le> 9223372036 \<Longrightarrow> int64 (n * Second) = n * Second"
  by (rule int64_id) (simp_all add: Second_def)

lemma int64_eq_0: "int64 x = 0 \<Longrightarrow> 2 ^ 64 dvd x"
proof -
  assume "int64 x = 0"
  then have "(x + 2 ^ 63) mod 2 ^ 64 = (2 ^ 63 :: int)" by (simp add: int64_def)
  then have "(x + 2 ^ 63) mod 2 ^ 64 = (0 + 2 ^ 63 :: int) mod 2 ^ 64" by simp
  then show ?thesis by (metis add_diff_cancel_right diff_zero mod_eq_dvd_iff)
qed

lemma int64_seconds_nonzero:
  assumes "0 < n" "n < 2 ^ 55"
  shows "int64 (n * Second) \<noteq> 0"
proof
  assume "int64 (n * Second) = 0"
  then have "2 ^ 64 dvd n * Second" by (rule int64_eq_0)
  moreover have "n * Second = 2 ^ 9 * (n * 5 ^ 9)" "(2 ^ 64 :: int) = 2 ^ 9 * 2 ^ 55" by (simp_all add: Second_def)
  ultimately have "2 ^ 55 dvd n * 5 ^ 9" by (metis dvd_mult_cancel_left zero_neq_numeral power_not_zero)
  moreover have "coprime (2 :: int) (5 ^ 9)" by simp
  then have "coprime (2 ^ 55 :: int) (5 ^ 9)" by (simp only: coprime_power_left_iff simp_thms)
  ultimately have "2 ^ 55 dvd n" by (metis coprime_dvd_mult_left_iff)
  with assms show False by (meson zdvd_not_zless)
qed

lemma parseTTLSecs_value:
  assumes "Sscanf_d (TrimSpace s) = Some n" "0 \<le> n"
  shows "parseTTLSecs s = Inr (if n = 0 then -1 else int64 (n * Second))"
  using assms by (simp add: parseTTLSecs_def)

lemma ttl_flag: "value_flag ''--ssh-session-ttl-secs'' =
  Some (\<lambda>v opt. case parseTTLSecs v of Inl x \<Rightarrow> Inl x | Inr ttl \<Rightarrow> Inr (opt\<lparr>opt_SSHSessionTTL := ttl\<rparr>))"
  by (simp add: value_flag_def)

text \<open>The environment does not replace a life time that was set on the command line.\<close>

lemma authFromEnv_ttl:
  "opt_SSHSessionTTL opt \<noteq> 0 \<Longrightarrow> authFromEnv getenv opt = Inr opt' \<Longrightarrow> opt_SSHSessionTTL opt' = opt_SSHSessionTTL opt"
  by (auto simp: authFromEnv_def Let_def split: if_splits)

section \<open>Properties\<close>

text \<open>
  C37: the life time of SSH sessions. Started with \<open>--ssh-session-ttl-secs\<close> and \<open>n\<close> seconds, the
  gateway's sessions live exactly \<open>n\<close> seconds, whatever the environment says, for \<open>n\<close> up to
  9223372036, and forever for 0. For larger numbers (below \<open>2 ^ 55\<close>) the multiplication wraps around in
  64 bits: where the result is negative the sessions never expire, and where it is positive they live
  that many nanoseconds.
\<close>
theorem ttl_flag_seconds:
  assumes "Run getenv home tmp listen [''--ssh-session-ttl-secs'', s] = Inr (Some opt)"
    and "Sscanf_d (TrimSpace s) = Some n" "0 \<le> n" "n < 2 ^ 55"
  shows "session_ttl opt =
    (if n = 0 then 0 else if n \<le> 9223372036 then n * Second else max 0 (int64 (n * Second)))"
proof -
  let ?d = "if n = 0 then -1 else int64 (n * Second)"
  have ne: "?d \<noteq> 0" using assms(3,4) int64_seconds_nonzero [of n] by auto
  have "opt_SSHSessionTTL opt = ?d"
    using assms(1) unfolding Run_def
    by (auto simp: ttl_flag parseTTLSecs_value [OF assms(2,3)] split: sum.splits dest!: authFromEnv_ttl [rotated])
      (use ne in auto)
  then show ?thesis
    using ne assms(3) int64_seconds [of n] by (auto simp: session_ttl_def Let_def Second_def)
qed

text \<open>18446744074 seconds, more than five centuries, become less than a third of a second.\<close>

theorem ttl_flag_seconds_witness:
  "\<exists>opt. Run (\<lambda>_. []) None ''/tmp'' ''127.0.0.1:8080'' [''--ssh-session-ttl-secs'', ''18446744074''] = Inr (Some opt) \<and>
     session_ttl opt = 290448384"
proof -
  have "TrimSpace ''18446744074'' = ''18446744074''" by code_simp
  then have n: "Sscanf_d (TrimSpace ''18446744074'') = Some 18446744074" by (simp add: Sscanf_d_def digit_val_def)
  have d: "int64 (18446744074 * Second) = 290448384" by (simp add: int64_def Second_def)
  have "\<exists>opt. Run (\<lambda>_. []) None ''/tmp'' ''127.0.0.1:8080'' [''--ssh-session-ttl-secs'', ''18446744074''] = Inr (Some opt)"
    unfolding Run_def run_flags.simps ttl_flag option.case list.case parseTTLSecs_value [OF n, simplified] d sum.case
    by (simp add: authFromEnv_def Let_def)
  then obtain opt where "Run (\<lambda>_. []) None ''/tmp'' ''127.0.0.1:8080'' [''--ssh-session-ttl-secs'', ''18446744074''] = Inr (Some opt)" ..
  with ttl_flag_seconds [OF this n] d show ?thesis by auto
qed

end
