(* ===== verification/Relay_Hub.thy ===== *)
theory Relay_Hub
  imports Interfaces
begin

text \<open>
  \<open>internal/sshrelay/hub.go\<close>: the supervisor sessions and the channels opened through them.
  The methods run in concurrent goroutines, so each is split at its blocking points and mutex
  sections, one definition per section, and \<open>hub_trans\<close> interleaves the sections of any number
  of calls. A call of \<open>OpenChannel\<close> is an \<open>opener\<close>: its local \<open>pending\<close> value (the channel
  \<open>ready\<close> with room for one connection), its session and its position. A call of \<open>ServeRelay\<close>
  that found its channel is a \<open>relay\<close>. Sessions, openers, relays and data connections are
  numbered in order of creation. Timers, cancelled requests, failing writes and failing upgrades
  are choices of the environment; the channel id of \<open>newChannelID\<close> is an argument.
\<close>

section \<open>State\<close>

record session =
  ses_sandbox :: string
  ses_done :: bool

datatype open_err = ErrNotConnected | ErrOpenTimeout | ErrCtx

datatype opener_pc =
    Registered
  | Waiting
  | Leaving "open_err + nat"
  | Draining "open_err + nat"
  | Returned "open_err + nat"

record opener =
  op_sandbox :: string
  op_id :: string
  op_session :: nat
  op_ready :: "nat option"
  op_pc :: opener_pc

datatype relay_pc = RTaken | RAccepted nat | REnded

record relay =
  rl_sandbox :: string
  rl_opener :: nat
  rl_pc :: relay_pc

record conn =
  cn_relay :: nat
  cn_closed :: bool

record RelayHub =
  rh_sessions :: "(string, nat) fmap"
  rh_pending :: "(string, nat) fmap"
  rh_sess :: "session list"
  rh_openers :: "opener list"
  rh_relays :: "relay list"
  rh_conns :: "conn list"

definition NewRelayHub :: RelayHub where
  "NewRelayHub = \<lparr>rh_sessions = fmempty, rh_pending = fmempty, rh_sess = [], rh_openers = [],
     rh_relays = [], rh_conns = []\<rparr>"

section \<open>Supervisor sessions\<close>

definition session_close :: "nat \<Rightarrow> RelayHub \<Rightarrow> RelayHub" where
  "session_close k h = h\<lparr>rh_sess := (rh_sess h)[k := (rh_sess h ! k)\<lparr>ses_done := True\<rparr>]\<rparr>"

definition Connected :: "string \<Rightarrow> RelayHub \<Rightarrow> bool" where
  "Connected sandbox h \<longleftrightarrow> fmlookup (rh_sessions h) sandbox \<noteq> None"

definition Disconnect :: "string \<Rightarrow> RelayHub \<Rightarrow> RelayHub" where
  "Disconnect sandbox h =
     (let s = fmlookup (rh_sessions h) sandbox;
          h = h\<lparr>rh_sessions := fmdrop sandbox (rh_sessions h)\<rparr> in
      case s of None \<Rightarrow> h | Some k \<Rightarrow> session_close k h)"

text \<open>Registering the control stream (lines 104 to 111), and the deferred function at its end.\<close>

definition ServeSupervisor_start :: "string \<Rightarrow> RelayHub \<Rightarrow> RelayHub" where
  "ServeSupervisor_start sandbox h =
     (let s = length (rh_sess h);
          prev = fmlookup (rh_sessions h) sandbox;
          h = h\<lparr>rh_sess := rh_sess h @ [\<lparr>ses_sandbox = sandbox, ses_done = False\<rparr>],
                rh_sessions := fmupd sandbox s (rh_sessions h)\<rparr> in
      case prev of None \<Rightarrow> h | Some k \<Rightarrow> session_close k h)"

definition ServeSupervisor_exit :: "nat \<Rightarrow> RelayHub \<Rightarrow> RelayHub" where
  "ServeSupervisor_exit s h =
     (let sandbox = ses_sandbox (rh_sess h ! s);
          h = (if fmlookup (rh_sessions h) sandbox = Some s
               then h\<lparr>rh_sessions := fmdrop sandbox (rh_sessions h)\<rparr> else h) in
      session_close s h)"

text \<open>
  Each of these three closes a session after it has released the mutex. They are given whole, with the
  close, and as the mutex section alone, so that other steps may come before the close.
\<close>

definition Disconnect_unlock :: "string \<Rightarrow> RelayHub \<Rightarrow> RelayHub" where
  "Disconnect_unlock sandbox h = h\<lparr>rh_sessions := fmdrop sandbox (rh_sessions h)\<rparr>"

definition ServeSupervisor_register :: "string \<Rightarrow> RelayHub \<Rightarrow> RelayHub" where
  "ServeSupervisor_register sandbox h =
     h\<lparr>rh_sess := rh_sess h @ [\<lparr>ses_sandbox = sandbox, ses_done = False\<rparr>],
       rh_sessions := fmupd sandbox (length (rh_sess h)) (rh_sessions h)\<rparr>"

definition ServeSupervisor_unregister :: "nat \<Rightarrow> RelayHub \<Rightarrow> RelayHub" where
  "ServeSupervisor_unregister s h =
     (let sandbox = ses_sandbox (rh_sess h ! s) in
      if fmlookup (rh_sessions h) sandbox = Some s
      then h\<lparr>rh_sessions := fmdrop sandbox (rh_sessions h)\<rparr> else h)"

text \<open>
  The loop between the two, as the list of the cases its \<open>select\<close> takes: \<open>Seen t\<close> is a value of
  the channel \<open>seen\<close>, taken at \<open>t\<close>, which the goroutine that reads the stream sends for a pong or
  hello (it drops one when the last is not yet taken); \<open>SessionDone\<close> is the closed session, which
  that goroutine also causes by a read error; \<open>Tick t ok\<close> is a tick of the keepalive timer at \<open>t\<close>,
  with the result of writing the ping.
\<close>

datatype sup_event = SessionDone | CtxDone | Seen time | Tick time bool

datatype sup_exit = ExitDone | ExitCtx | ExitKeepalive | ExitWrite

fun supervisor_loop :: "duration \<Rightarrow> time \<Rightarrow> sup_event list \<Rightarrow> sup_exit option" where
  "supervisor_loop timeout seen [] = None"
| "supervisor_loop timeout seen (SessionDone # es) = Some ExitDone"
| "supervisor_loop timeout seen (CtxDone # es) = Some ExitCtx"
| "supervisor_loop timeout seen (Seen now # es) = supervisor_loop timeout now es"
| "supervisor_loop timeout seen (Tick now ok # es) =
     (if now - seen > timeout then Some ExitKeepalive
      else if \<not> ok then Some ExitWrite
      else supervisor_loop timeout seen es)"

section \<open>Opening a channel\<close>

definition upd_opener :: "nat \<Rightarrow> (opener \<Rightarrow> opener) \<Rightarrow> RelayHub \<Rightarrow> RelayHub" where
  "upd_opener i f h = h\<lparr>rh_openers := (rh_openers h)[i := f (rh_openers h ! i)]\<rparr>"

definition conn_close :: "nat \<Rightarrow> RelayHub \<Rightarrow> RelayHub" where
  "conn_close c h = h\<lparr>rh_conns := (rh_conns h)[c := (rh_conns h ! c)\<lparr>cn_closed := True\<rparr>]\<rparr>"

definition OpenChannel_register :: "string \<Rightarrow> string \<Rightarrow> RelayHub \<Rightarrow> open_err + RelayHub" where
  "OpenChannel_register sandbox cid h =
     (case fmlookup (rh_sessions h) sandbox of
        None \<Rightarrow> Inl ErrNotConnected
      | Some s \<Rightarrow>
          Inr (h\<lparr>rh_pending := fmupd cid (length (rh_openers h)) (rh_pending h),
                 rh_openers := rh_openers h @
                   [\<lparr>op_sandbox = sandbox, op_id = cid, op_session = s, op_ready = None, op_pc = Registered\<rparr>]\<rparr>))"

definition OpenChannel_write :: "bool \<Rightarrow> nat \<Rightarrow> RelayHub \<Rightarrow> RelayHub" where
  "OpenChannel_write ok i h =
     (if ok then upd_opener i (\<lambda>p. p\<lparr>op_pc := Waiting\<rparr>) h
      else upd_opener i (\<lambda>p. p\<lparr>op_pc := Leaving (Inl ErrNotConnected)\<rparr>)
             (session_close (op_session (rh_openers h ! i)) h))"

datatype choice = CReady | CSessionDone | CTimer | CCtx

fun OpenChannel_select :: "choice \<Rightarrow> nat \<Rightarrow> RelayHub \<Rightarrow> RelayHub option" where
  "OpenChannel_select CReady i h =
     (case op_ready (rh_openers h ! i) of
        None \<Rightarrow> None
      | Some c \<Rightarrow> Some (upd_opener i (\<lambda>p. p\<lparr>op_ready := None, op_pc := Leaving (Inr c)\<rparr>) h))"
| "OpenChannel_select CSessionDone i h =
     (if ses_done (rh_sess h ! op_session (rh_openers h ! i))
      then Some (upd_opener i (\<lambda>p. p\<lparr>op_pc := Leaving (Inl ErrNotConnected)\<rparr>) h) else None)"
| "OpenChannel_select CTimer i h = Some (upd_opener i (\<lambda>p. p\<lparr>op_pc := Leaving (Inl ErrOpenTimeout)\<rparr>) h)"
| "OpenChannel_select CCtx i h = Some (upd_opener i (\<lambda>p. p\<lparr>op_pc := Leaving (Inl ErrCtx)\<rparr>) h)"

text \<open>The deferred function: it leaves \<open>pending\<close> under the mutex, then looks at \<open>ready\<close>.\<close>

definition OpenChannel_unregister :: "open_err + nat \<Rightarrow> nat \<Rightarrow> RelayHub \<Rightarrow> RelayHub" where
  "OpenChannel_unregister r i h =
     upd_opener i (\<lambda>p. p\<lparr>op_pc := Draining r\<rparr>)
       (h\<lparr>rh_pending := fmdrop (op_id (rh_openers h ! i)) (rh_pending h)\<rparr>)"

definition OpenChannel_drain :: "open_err + nat \<Rightarrow> nat \<Rightarrow> RelayHub \<Rightarrow> RelayHub" where
  "OpenChannel_drain r i h =
     (case (r, op_ready (rh_openers h ! i)) of
        (Inl _, Some c) \<Rightarrow> upd_opener i (\<lambda>p. p\<lparr>op_ready := None, op_pc := Returned r\<rparr>) (conn_close c h)
      | _ \<Rightarrow> upd_opener i (\<lambda>p. p\<lparr>op_pc := Returned r\<rparr>) h)"

section \<open>Serving a data stream\<close>

definition upd_relay :: "nat \<Rightarrow> relay_pc \<Rightarrow> RelayHub \<Rightarrow> RelayHub" where
  "upd_relay j pc h = h\<lparr>rh_relays := (rh_relays h)[j := (rh_relays h ! j)\<lparr>rl_pc := pc\<rparr>]\<rparr>"

text \<open>The mutex section of \<open>ServeRelay\<close>; \<open>None\<close> is the answer \<open>404\<close>.\<close>

definition ServeRelay_take :: "string \<Rightarrow> string \<Rightarrow> RelayHub \<Rightarrow> RelayHub option" where
  "ServeRelay_take sandbox channel h =
     (case fmlookup (rh_pending h) channel of
        None \<Rightarrow> None
      | Some i \<Rightarrow>
          if op_sandbox (rh_openers h ! i) = sandbox
          then Some (h\<lparr>rh_pending := fmdrop channel (rh_pending h),
                       rh_relays := rh_relays h @ [\<lparr>rl_sandbox = sandbox, rl_opener = i, rl_pc = RTaken\<rparr>]\<rparr>)
          else None)"

definition ServeRelay_accept :: "bool \<Rightarrow> nat \<Rightarrow> RelayHub \<Rightarrow> RelayHub" where
  "ServeRelay_accept ok j h =
     (if \<not> ok then upd_relay j REnded h
      else upd_relay j (RAccepted (length (rh_conns h)))
             (h\<lparr>rh_conns := rh_conns h @ [\<lparr>cn_relay = j, cn_closed = False\<rparr>]\<rparr>))"

definition ServeRelay_deliver :: "nat \<Rightarrow> nat \<Rightarrow> RelayHub \<Rightarrow> RelayHub" where
  "ServeRelay_deliver c j h =
     (let i = rl_opener (rh_relays h ! j) in
      upd_relay j REnded
        (case op_ready (rh_openers h ! i) of
           None \<Rightarrow> upd_opener i (\<lambda>p. p\<lparr>op_ready := Some c\<rparr>) h
         | Some _ \<Rightarrow> conn_close c h))"

section \<open>Interleaving\<close>

inductive hub_trans :: "RelayHub \<Rightarrow> RelayHub \<Rightarrow> bool" where
  sup_start: "hub_trans h (ServeSupervisor_start sandbox h)"
| sup_exit: "k < length (rh_sess h) \<Longrightarrow> hub_trans h (ServeSupervisor_exit k h)"
| sup_close: "k < length (rh_sess h) \<Longrightarrow> hub_trans h (session_close k h)"
| disconnect: "hub_trans h (Disconnect sandbox h)"
| disconnect_unlock: "hub_trans h (Disconnect_unlock sandbox h)"
| sup_register: "hub_trans h (ServeSupervisor_register sandbox h)"
| sup_unregister: "k < length (rh_sess h) \<Longrightarrow> hub_trans h (ServeSupervisor_unregister k h)"
| open_register: "OpenChannel_register sandbox cid h = Inr h' \<Longrightarrow> hub_trans h h'"
| open_write: "i < length (rh_openers h) \<Longrightarrow> op_pc (rh_openers h ! i) = Registered \<Longrightarrow>
    hub_trans h (OpenChannel_write ok i h)"
| open_select: "i < length (rh_openers h) \<Longrightarrow> op_pc (rh_openers h ! i) = Waiting \<Longrightarrow>
    OpenChannel_select ch i h = Some h' \<Longrightarrow> hub_trans h h'"
| open_unregister: "i < length (rh_openers h) \<Longrightarrow> op_pc (rh_openers h ! i) = Leaving r \<Longrightarrow>
    hub_trans h (OpenChannel_unregister r i h)"
| open_drain: "i < length (rh_openers h) \<Longrightarrow> op_pc (rh_openers h ! i) = Draining r \<Longrightarrow>
    hub_trans h (OpenChannel_drain r i h)"
| relay_take: "ServeRelay_take sandbox channel h = Some h' \<Longrightarrow> hub_trans h h'"
| relay_accept: "j < length (rh_relays h) \<Longrightarrow> rl_pc (rh_relays h ! j) = RTaken \<Longrightarrow>
    hub_trans h (ServeRelay_accept ok j h)"
| relay_deliver: "j < length (rh_relays h) \<Longrightarrow> rl_pc (rh_relays h ! j) = RAccepted c \<Longrightarrow>
    hub_trans h (ServeRelay_deliver c j h)"

definition relay_reachable :: "RelayHub \<Rightarrow> bool" where
  "relay_reachable h \<longleftrightarrow> reach (\<lambda>h. h = NewRelayHub) hub_trans h"

section \<open>Invariant\<close>

fun got :: "opener_pc \<Rightarrow> nat option" where
  "got (Leaving (Inr c)) = Some c"
| "got (Draining (Inr c)) = Some c"
| "got (Returned (Inr c)) = Some c"
| "got _ = None"

fun registered :: "opener_pc \<Rightarrow> bool" where
  "registered (Draining _) = False"
| "registered (Returned _) = False"
| "registered _ = True"

definition holds :: "opener \<Rightarrow> nat \<Rightarrow> bool" where
  "holds p c \<longleftrightarrow> op_ready p = Some c \<or> got (op_pc p) = Some c"

definition unheld :: "opener \<Rightarrow> bool" where
  "unheld p \<longleftrightarrow> op_ready p = None \<and> got (op_pc p) = None"

definition pending_inv :: "RelayHub \<Rightarrow> bool" where
  "pending_inv h \<longleftrightarrow> (\<forall>cid i. fmlookup (rh_pending h) cid = Some i \<longrightarrow>
     i < length (rh_openers h) \<and> op_id (rh_openers h ! i) = cid \<and> registered (op_pc (rh_openers h ! i)) \<and>
     unheld (rh_openers h ! i) \<and> (\<forall>j<length (rh_relays h). rl_opener (rh_relays h ! j) \<noteq> i))"

definition relay_inv :: "RelayHub \<Rightarrow> bool" where
  "relay_inv h \<longleftrightarrow> (\<forall>j<length (rh_relays h).
     let r = rh_relays h ! j in
     rl_opener r < length (rh_openers h) \<and> rl_sandbox r = op_sandbox (rh_openers h ! rl_opener r) \<and>
     (rl_pc r \<noteq> REnded \<longrightarrow> unheld (rh_openers h ! rl_opener r)) \<and>
     (\<forall>c. rl_pc r = RAccepted c \<longrightarrow> c < length (rh_conns h) \<and> rh_conns h ! c = \<lparr>cn_relay = j, cn_closed = False\<rparr>) \<and>
     (\<forall>k<length (rh_relays h). rl_opener (rh_relays h ! k) = rl_opener r \<longrightarrow> k = j))"

definition opener_inv :: "RelayHub \<Rightarrow> bool" where
  "opener_inv h \<longleftrightarrow> (\<forall>i<length (rh_openers h). \<forall>c. holds (rh_openers h ! i) c \<longrightarrow>
     c < length (rh_conns h) \<and> \<not> cn_closed (rh_conns h ! c) \<and>
     cn_relay (rh_conns h ! c) < length (rh_relays h) \<and>
     rl_opener (rh_relays h ! cn_relay (rh_conns h ! c)) = i \<and>
     rl_pc (rh_relays h ! cn_relay (rh_conns h ! c)) = REnded)"

definition session_inv :: "RelayHub \<Rightarrow> bool" where
  "session_inv h \<longleftrightarrow> (\<forall>sb k. fmlookup (rh_sessions h) sb = Some k \<longrightarrow>
     k < length (rh_sess h) \<and> ses_sandbox (rh_sess h ! k) = sb)"

definition relay_hub_inv :: "RelayHub \<Rightarrow> bool" where
  "relay_hub_inv h \<longleftrightarrow> pending_inv h \<and> relay_inv h \<and> opener_inv h \<and> session_inv h"

lemma session_close_frame [simp]:
  "rh_openers (session_close k h) = rh_openers h" "rh_relays (session_close k h) = rh_relays h"
  "rh_conns (session_close k h) = rh_conns h" "rh_pending (session_close k h) = rh_pending h"
  "rh_sessions (session_close k h) = rh_sessions h" "length (rh_sess (session_close k h)) = length (rh_sess h)"
  by (simp_all add: session_close_def)

lemma upd_opener_frame [simp]:
  "rh_relays (upd_opener i f h) = rh_relays h" "rh_conns (upd_opener i f h) = rh_conns h"
  "rh_pending (upd_opener i f h) = rh_pending h" "rh_sessions (upd_opener i f h) = rh_sessions h"
  "rh_sess (upd_opener i f h) = rh_sess h" "length (rh_openers (upd_opener i f h)) = length (rh_openers h)"
  "i < length (rh_openers h) \<Longrightarrow> rh_openers (upd_opener i f h) ! k = (if k = i then f (rh_openers h ! i) else rh_openers h ! k)"
  by (auto simp: upd_opener_def nth_list_update)

lemma upd_relay_frame [simp]:
  "rh_openers (upd_relay j pc h) = rh_openers h" "rh_conns (upd_relay j pc h) = rh_conns h"
  "rh_pending (upd_relay j pc h) = rh_pending h" "rh_sessions (upd_relay j pc h) = rh_sessions h"
  "rh_sess (upd_relay j pc h) = rh_sess h" "length (rh_relays (upd_relay j pc h)) = length (rh_relays h)"
  "j < length (rh_relays h) \<Longrightarrow>
     rh_relays (upd_relay j pc h) ! k = (if k = j then (rh_relays h ! j)\<lparr>rl_pc := pc\<rparr> else rh_relays h ! k)"
  by (auto simp: upd_relay_def nth_list_update)

lemma conn_close_frame [simp]:
  "rh_openers (conn_close c h) = rh_openers h" "rh_relays (conn_close c h) = rh_relays h"
  "rh_pending (conn_close c h) = rh_pending h" "rh_sessions (conn_close c h) = rh_sessions h"
  "rh_sess (conn_close c h) = rh_sess h" "length (rh_conns (conn_close c h)) = length (rh_conns h)"
  "c < length (rh_conns h) \<Longrightarrow>
     rh_conns (conn_close c h) ! k = (if k = c then (rh_conns h ! c)\<lparr>cn_closed := True\<rparr> else rh_conns h ! k)"
  by (auto simp: conn_close_def nth_list_update)

text \<open>The steps on sessions do not touch openers, relays, connections or pending channels.\<close>

definition same_channels :: "RelayHub \<Rightarrow> RelayHub \<Rightarrow> bool" where
  "same_channels h h' \<longleftrightarrow> rh_openers h' = rh_openers h \<and> rh_relays h' = rh_relays h \<and>
     rh_conns h' = rh_conns h \<and> rh_pending h' = rh_pending h"

lemma session_steps_frame:
  "same_channels h (session_close k h)" "same_channels h (Disconnect sandbox h)"
  "same_channels h (ServeSupervisor_start sandbox h)" "same_channels h (ServeSupervisor_exit k h)"
  "same_channels h (Disconnect_unlock sandbox h)" "same_channels h (ServeSupervisor_register sandbox h)"
  "same_channels h (ServeSupervisor_unregister k h)"
  by (auto simp: same_channels_def Disconnect_def ServeSupervisor_start_def ServeSupervisor_exit_def
      Disconnect_unlock_def ServeSupervisor_register_def ServeSupervisor_unregister_def Let_def split: option.splits)

lemma same_channels_inv:
  "same_channels h h' \<Longrightarrow> pending_inv h \<Longrightarrow> pending_inv h'"
  "same_channels h h' \<Longrightarrow> relay_inv h \<Longrightarrow> relay_inv h'"
  "same_channels h h' \<Longrightarrow> opener_inv h \<Longrightarrow> opener_inv h'"
  by (simp_all add: same_channels_def pending_inv_def relay_inv_def opener_inv_def)

lemma session_close_sandbox [simp]:
  "i < length (rh_sess h) \<Longrightarrow> ses_sandbox (rh_sess (session_close k h) ! i) = ses_sandbox (rh_sess h ! i)"
  by (cases "k = i") (simp_all add: session_close_def)

lemma session_inv_step:
  assumes "session_inv h"
  shows "session_inv (session_close k h)"
  using assms by (simp add: session_inv_def)

lemma session_inv_drop: "session_inv h \<Longrightarrow> session_inv (h\<lparr>rh_sessions := fmdrop n (rh_sessions h)\<rparr>)"
  by (simp add: session_inv_def)

lemma session_inv_add:
  "session_inv h \<Longrightarrow> session_inv (h\<lparr>rh_sess := rh_sess h @ [\<lparr>ses_sandbox = n, ses_done = False\<rparr>],
     rh_sessions := fmupd n (length (rh_sess h)) (rh_sessions h)\<rparr>)"
  unfolding session_inv_def by (auto simp: nth_append less_SucI)

lemma session_inv_steps:
  assumes "session_inv h"
  shows "session_inv (Disconnect sandbox h)" "session_inv (ServeSupervisor_start sandbox h)"
    "session_inv (ServeSupervisor_exit k h)" "session_inv (Disconnect_unlock sandbox h)"
    "session_inv (ServeSupervisor_register sandbox h)" "session_inv (ServeSupervisor_unregister k h)"
  using session_inv_drop [OF assms] session_inv_add [OF assms] assms
  by (auto simp: Disconnect_def ServeSupervisor_start_def ServeSupervisor_exit_def Disconnect_unlock_def
      ServeSupervisor_register_def ServeSupervisor_unregister_def Let_def
      intro!: session_inv_step split: option.splits)

text \<open>A step of one opener that gains no connection keeps the invariant.\<close>

lemma upd_opener_inv:
  assumes "relay_hub_inv h" "i < length (rh_openers h)"
    and "op_id (f (rh_openers h ! i)) = op_id (rh_openers h ! i)"
    and "op_sandbox (f (rh_openers h ! i)) = op_sandbox (rh_openers h ! i)"
    and "\<And>c. holds (f (rh_openers h ! i)) c \<Longrightarrow> holds (rh_openers h ! i) c"
    and "unheld (rh_openers h ! i) \<Longrightarrow> unheld (f (rh_openers h ! i))"
    and "registered (op_pc (f (rh_openers h ! i))) \<or> (\<forall>cid. fmlookup (rh_pending h) cid \<noteq> Some i)"
  shows "relay_hub_inv (upd_opener i f h)"
proof -
  have "pending_inv (upd_opener i f h)"
    using assms unfolding relay_hub_inv_def pending_inv_def by auto
  moreover have "relay_inv (upd_opener i f h)"
    using assms unfolding relay_hub_inv_def relay_inv_def by (auto simp: Let_def)
  moreover have "opener_inv (upd_opener i f h)"
    using assms unfolding relay_hub_inv_def opener_inv_def by auto
  moreover have "session_inv (upd_opener i f h)"
    using assms unfolding relay_hub_inv_def session_inv_def by auto
  ultimately show ?thesis by (simp add: relay_hub_inv_def)
qed

lemma register_inv:
  assumes "relay_hub_inv h" "OpenChannel_register sandbox cid h = Inr h'"
  shows "relay_hub_inv h'"
proof -
  obtain s where h': "h' = h\<lparr>rh_pending := fmupd cid (length (rh_openers h)) (rh_pending h),
      rh_openers := rh_openers h @
        [\<lparr>op_sandbox = sandbox, op_id = cid, op_session = s, op_ready = None, op_pc = Registered\<rparr>]\<rparr>"
    using assms(2) by (auto simp: OpenChannel_register_def split: option.splits)
  have "pending_inv h'"
    using assms(1) unfolding relay_hub_inv_def pending_inv_def relay_inv_def h'
    by (auto simp: nth_append unheld_def Let_def less_Suc_eq)
  moreover have "relay_inv h'"
    using assms(1) unfolding relay_hub_inv_def relay_inv_def h'
    by (auto simp: nth_append Let_def less_Suc_eq)
  moreover have "opener_inv h'"
    using assms(1) unfolding relay_hub_inv_def opener_inv_def h'
    by (auto simp: nth_append less_Suc_eq holds_def)
  moreover have "session_inv h'"
    using assms(1) unfolding relay_hub_inv_def session_inv_def h' by auto
  ultimately show ?thesis by (simp add: relay_hub_inv_def)
qed

lemma sessions_only_inv:
  assumes "relay_hub_inv h" "same_channels h h'" "session_inv h'"
  shows "relay_hub_inv h'"
  using assms same_channels_inv by (simp add: relay_hub_inv_def)

lemma write_inv:
  assumes "relay_hub_inv h" "i < length (rh_openers h)" "op_pc (rh_openers h ! i) = Registered"
  shows "relay_hub_inv (OpenChannel_write ok i h)"
proof (cases ok)
  case True
  then show ?thesis
    using assms by (auto simp: OpenChannel_write_def holds_def unheld_def intro!: upd_opener_inv)
next
  case False
  let ?h = "session_close (op_session (rh_openers h ! i)) h"
  have "relay_hub_inv ?h"
    using assms(1) session_steps_frame(1) by (rule sessions_only_inv) (use assms(1) in \<open>simp add: relay_hub_inv_def session_inv_step\<close>)
  then show ?thesis
    using assms False by (auto simp: OpenChannel_write_def holds_def unheld_def intro!: upd_opener_inv)
qed

lemma select_inv:
  assumes "relay_hub_inv h" "i < length (rh_openers h)" "op_pc (rh_openers h ! i) = Waiting"
    and "OpenChannel_select ch i h = Some h'"
  shows "relay_hub_inv h'"
  using assms
  by (cases ch) (auto simp: holds_def unheld_def split: option.splits if_splits intro!: upd_opener_inv)

lemma pending_drop_inv:
  assumes "relay_hub_inv h"
  shows "relay_hub_inv (h\<lparr>rh_pending := fmdrop cid (rh_pending h)\<rparr>)"
  using assms by (simp add: relay_hub_inv_def pending_inv_def relay_inv_def opener_inv_def session_inv_def)

lemma unregister_inv:
  assumes "relay_hub_inv h" "i < length (rh_openers h)" "op_pc (rh_openers h ! i) = Leaving r"
  shows "relay_hub_inv (OpenChannel_unregister r i h)"
proof -
  have "\<forall>cid. fmlookup (fmdrop (op_id (rh_openers h ! i)) (rh_pending h)) cid \<noteq> Some i"
    using assms(1) by (auto simp: relay_hub_inv_def pending_inv_def)
  moreover have "got (Draining r) = got (Leaving r)" by (cases r) simp_all
  ultimately show ?thesis
    unfolding OpenChannel_unregister_def using assms
    by (intro upd_opener_inv pending_drop_inv) (auto simp: holds_def unheld_def)
qed

lemma not_pending:
  assumes "relay_hub_inv h" "\<not> registered (op_pc (rh_openers h ! i))"
  shows "fmlookup (rh_pending h) cid \<noteq> Some i"
  using assms by (auto simp: relay_hub_inv_def pending_inv_def)

lemma drain_inv:
  assumes inv: "relay_hub_inv h" and i: "i < length (rh_openers h)" "op_pc (rh_openers h ! i) = Draining r"
  shows "relay_hub_inv (OpenChannel_drain r i h)"
proof -
  have got: "got (Returned r) = got (Draining r)" by (cases r) simp_all
  have np: "\<forall>cid. fmlookup (rh_pending h) cid \<noteq> Some i"
    using not_pending [OF inv, of i] i by simp
  show ?thesis
  proof (cases "\<exists>x c. r = Inl x \<and> op_ready (rh_openers h ! i) = Some c")
    case False
    then have "OpenChannel_drain r i h = upd_opener i (\<lambda>p. p\<lparr>op_pc := Returned r\<rparr>) h"
      by (auto simp: OpenChannel_drain_def split: sum.splits option.splits)
    then show ?thesis
      using inv i np got by (auto simp: holds_def unheld_def intro!: upd_opener_inv)
  next
    case True
    then obtain x c where rc: "r = Inl x" "op_ready (rh_openers h ! i) = Some c" by blast
    let ?h = "upd_opener i (\<lambda>p. p\<lparr>op_ready := None, op_pc := Returned r\<rparr>) h"
    have h': "OpenChannel_drain r i h = conn_close c ?h"
      by (simp add: OpenChannel_drain_def rc conn_close_def upd_opener_def)
    have inv': "relay_hub_inv ?h"
      using inv i np rc by (auto simp: holds_def unheld_def intro!: upd_opener_inv)
    have c: "c < length (rh_conns h)" "rl_opener (rh_relays h ! cn_relay (rh_conns h ! c)) = i"
      "rl_pc (rh_relays h ! cn_relay (rh_conns h ! c)) = REnded"
      using inv i rc unfolding relay_hub_inv_def opener_inv_def holds_def by auto
    have other: "\<not> holds (rh_openers ?h ! k) c" if "k < length (rh_openers ?h)" for k
      using that inv i rc c(2) unfolding relay_hub_inv_def opener_inv_def
      by (auto simp: holds_def split: if_splits)
    have "pending_inv (conn_close c ?h)"
      using inv' unfolding relay_hub_inv_def pending_inv_def by simp
    moreover have "relay_inv (conn_close c ?h)"
      using inv' c unfolding relay_hub_inv_def relay_inv_def by (auto simp: Let_def)
    moreover have "opener_inv (conn_close c ?h)"
      using inv' c(1) other unfolding relay_hub_inv_def opener_inv_def by auto
    moreover have "session_inv (conn_close c ?h)"
      using inv' unfolding relay_hub_inv_def session_inv_def by simp
    ultimately show ?thesis by (simp add: h' relay_hub_inv_def)
  qed
qed

lemma take_inv:
  assumes inv: "relay_hub_inv h" and take: "ServeRelay_take sandbox channel h = Some h'"
  shows "relay_hub_inv h'"
proof -
  obtain i where i: "fmlookup (rh_pending h) channel = Some i" "op_sandbox (rh_openers h ! i) = sandbox"
    and h': "h' = h\<lparr>rh_pending := fmdrop channel (rh_pending h),
      rh_relays := rh_relays h @ [\<lparr>rl_sandbox = sandbox, rl_opener = i, rl_pc = RTaken\<rparr>]\<rparr>"
    using take by (auto simp: ServeRelay_take_def split: option.splits if_splits)
  have p: "i < length (rh_openers h)" "op_id (rh_openers h ! i) = channel" "unheld (rh_openers h ! i)"
    "\<forall>j<length (rh_relays h). rl_opener (rh_relays h ! j) \<noteq> i"
    using inv i(1) by (auto simp: relay_hub_inv_def pending_inv_def)
  have "pending_inv h'"
    using inv p unfolding relay_hub_inv_def pending_inv_def h'
    by (auto simp: nth_append)
  moreover have "relay_inv h'"
    using inv p i(2) unfolding relay_hub_inv_def relay_inv_def h'
    by (auto simp: nth_append Let_def less_Suc_eq)
  moreover have "opener_inv h'"
    using inv unfolding relay_hub_inv_def opener_inv_def h'
    by (auto simp: nth_append less_SucI)
  moreover have "session_inv h'"
    using inv unfolding relay_hub_inv_def session_inv_def h' by simp
  ultimately show ?thesis by (simp add: relay_hub_inv_def)
qed

lemma relay_at:
  assumes "relay_hub_inv h" "j < length (rh_relays h)"
  shows "rl_opener (rh_relays h ! j) < length (rh_openers h)"
    and "rl_sandbox (rh_relays h ! j) = op_sandbox (rh_openers h ! rl_opener (rh_relays h ! j))"
    and "rl_pc (rh_relays h ! j) \<noteq> REnded \<Longrightarrow> unheld (rh_openers h ! rl_opener (rh_relays h ! j))"
    and "rl_pc (rh_relays h ! j) = RAccepted c \<Longrightarrow> c < length (rh_conns h) \<and> rh_conns h ! c = \<lparr>cn_relay = j, cn_closed = False\<rparr>"
    and "k < length (rh_relays h) \<Longrightarrow> rl_opener (rh_relays h ! k) = rl_opener (rh_relays h ! j) \<Longrightarrow> k = j"
  using assms by (auto simp: relay_hub_inv_def relay_inv_def Let_def)

lemma accept_inv:
  assumes inv: "relay_hub_inv h" and j: "j < length (rh_relays h)" "rl_pc (rh_relays h ! j) = RTaken"
  shows "relay_hub_inv (ServeRelay_accept ok j h)"
proof -
  let ?h = "ServeRelay_accept ok j h"
  have "pending_inv ?h"
    using inv j unfolding relay_hub_inv_def pending_inv_def
    by (auto simp: ServeRelay_accept_def)
  moreover have "relay_inv ?h"
    using inv j unfolding relay_hub_inv_def relay_inv_def
    by (auto simp: ServeRelay_accept_def Let_def nth_append less_SucI)
  moreover have "opener_inv ?h"
  proof -
    have *: "c < length (rh_conns h) \<and> \<not> cn_closed (rh_conns h ! c) \<and> cn_relay (rh_conns h ! c) < length (rh_relays h) \<and>
        rl_opener (rh_relays h ! cn_relay (rh_conns h ! c)) = i \<and>
        rl_pc (rh_relays h ! cn_relay (rh_conns h ! c)) = REnded \<and> cn_relay (rh_conns h ! c) \<noteq> j"
      if "i < length (rh_openers h)" "holds (rh_openers h ! i) c" for i c
      using inv j(2) that unfolding relay_hub_inv_def opener_inv_def by auto
    show ?thesis
      unfolding opener_inv_def using j(1) by (auto simp: ServeRelay_accept_def nth_append less_SucI dest!: *)
  qed
  moreover have "session_inv ?h"
    using inv unfolding relay_hub_inv_def session_inv_def by (simp add: ServeRelay_accept_def)
  ultimately show ?thesis by (simp add: relay_hub_inv_def)
qed

text \<open>The channel of the opener is always empty when its connection arrives.\<close>

lemma deliver_room:
  assumes "relay_hub_inv h" "j < length (rh_relays h)" "rl_pc (rh_relays h ! j) = RAccepted c"
  shows "op_ready (rh_openers h ! rl_opener (rh_relays h ! j)) = None"
  using relay_at(3) [OF assms(1,2)] assms(3) by (simp add: unheld_def)

lemma deliver_inv:
  assumes inv: "relay_hub_inv h" and j: "j < length (rh_relays h)" "rl_pc (rh_relays h ! j) = RAccepted c"
  shows "relay_hub_inv (ServeRelay_deliver c j h)"
proof -
  let ?i = "rl_opener (rh_relays h ! j)"
  let ?h = "upd_relay j REnded (upd_opener ?i (\<lambda>p. p\<lparr>op_ready := Some c\<rparr>) h)"
  have h': "ServeRelay_deliver c j h = ?h"
    using deliver_room [OF inv j] by (simp add: ServeRelay_deliver_def)
  note r = relay_at(1,2) [OF inv j(1)] relay_at(3,4) [OF inv j(1), unfolded j(2)] relay_at(5) [OF inv j(1)]
  have nopend: "fmlookup (rh_pending h) cid \<noteq> Some ?i" for cid
    using inv j(1) unfolding relay_hub_inv_def pending_inv_def by blast
  have "pending_inv ?h"
    using inv j nopend r(1) unfolding relay_hub_inv_def pending_inv_def by auto
  moreover have "relay_inv ?h"
  proof -
    have "relay_inv h" using inv by (simp add: relay_hub_inv_def)
    then show ?thesis
      using j r(1) relay_at(5) [OF inv j(1)] unfolding relay_inv_def
      by (auto simp: Let_def)
  qed
  moreover have "opener_inv ?h"
  proof -
    have "holds (rh_openers h ! k) c' \<Longrightarrow> k < length (rh_openers h) \<Longrightarrow> cn_relay (rh_conns h ! c') \<noteq> j" for k c'
      using inv j unfolding relay_hub_inv_def opener_inv_def by auto
    moreover have "opener_inv h" "unheld (rh_openers h ! ?i)" using inv r by (auto simp: relay_hub_inv_def)
    ultimately show ?thesis
      using j r(1,4) unfolding opener_inv_def by (auto simp: holds_def unheld_def split: if_splits)
  qed
  moreover have "session_inv ?h"
    using inv unfolding relay_hub_inv_def session_inv_def by simp
  ultimately show ?thesis by (simp add: h' relay_hub_inv_def)
qed

lemma session_steps_inv:
  assumes "relay_hub_inv h"
  shows "relay_hub_inv (session_close k h)" "relay_hub_inv (Disconnect sandbox h)"
    "relay_hub_inv (ServeSupervisor_start sandbox h)" "relay_hub_inv (ServeSupervisor_exit k h)"
    "relay_hub_inv (Disconnect_unlock sandbox h)" "relay_hub_inv (ServeSupervisor_register sandbox h)"
    "relay_hub_inv (ServeSupervisor_unregister k h)"
proof -
  have "session_inv h" using assms by (simp add: relay_hub_inv_def)
  note s = session_inv_step [OF this] session_inv_steps [OF this]
  note inv = sessions_only_inv [OF assms]
  show "relay_hub_inv (session_close k h)" "relay_hub_inv (Disconnect sandbox h)"
    "relay_hub_inv (ServeSupervisor_start sandbox h)" "relay_hub_inv (ServeSupervisor_exit k h)"
    "relay_hub_inv (Disconnect_unlock sandbox h)" "relay_hub_inv (ServeSupervisor_register sandbox h)"
    "relay_hub_inv (ServeSupervisor_unregister k h)"
    by (rule inv [OF session_steps_frame(1) s(1)] inv [OF session_steps_frame(2) s(2)]
        inv [OF session_steps_frame(3) s(3)] inv [OF session_steps_frame(4) s(4)]
        inv [OF session_steps_frame(5) s(5)] inv [OF session_steps_frame(6) s(6)]
        inv [OF session_steps_frame(7) s(7)])+
qed

lemma hub_trans_inv: "hub_trans h h' \<Longrightarrow> relay_hub_inv h \<Longrightarrow> relay_hub_inv h'"
  by (induction rule: hub_trans.induct)
    (rule session_steps_inv register_inv write_inv select_inv unregister_inv drain_inv take_inv
      accept_inv deliver_inv; assumption)+

interpretation relay_sys: transition_system "\<lambda>h. h = NewRelayHub" hub_trans relay_hub_inv
  by unfold_locales
    (auto simp: hub_trans_inv,
      simp add: NewRelayHub_def relay_hub_inv_def pending_inv_def relay_inv_def opener_inv_def session_inv_def)

lemma reachable_inv: "relay_reachable h \<Longrightarrow> relay_hub_inv h"
  unfolding relay_reachable_def by (rule relay_sys.reach_inv)

lemma holder:
  assumes "relay_hub_inv h" "i < length (rh_openers h)" "holds (rh_openers h ! i) c"
  shows "c < length (rh_conns h) \<and> \<not> cn_closed (rh_conns h ! c) \<and> cn_relay (rh_conns h ! c) < length (rh_relays h) \<and>
     rl_opener (rh_relays h ! cn_relay (rh_conns h ! c)) = i \<and>
     rl_pc (rh_relays h ! cn_relay (rh_conns h ! c)) = REnded"
  using assms by (simp add: relay_hub_inv_def opener_inv_def)

section \<open>A lost connection\<close>

text \<open>
  A connection is lost when it sits in the channel of a call that has returned an error: nobody
  receives from that channel any more.
\<close>

definition lost_in :: "nat \<Rightarrow> nat \<Rightarrow> RelayHub \<Rightarrow> bool" where
  "lost_in c i h \<longleftrightarrow> c < length (rh_conns h) \<and> \<not> cn_closed (rh_conns h ! c) \<and> i < length (rh_openers h) \<and>
     op_ready (rh_openers h ! i) = Some c \<and> (\<exists>x. op_pc (rh_openers h ! i) = Returned (Inl x))"

lemma lost_same: "same_channels h h' \<Longrightarrow> lost_in c i h \<Longrightarrow> lost_in c i h'"
  by (auto simp: same_channels_def lost_in_def)

lemma lost_upd_opener:
  "lost_in c i h \<Longrightarrow> k \<noteq> i \<Longrightarrow> k < length (rh_openers h) \<Longrightarrow> lost_in c i (upd_opener k f h)"
  by (auto simp: lost_in_def)

lemma lost_upd_relay: "lost_in c i (upd_relay j pc h) \<longleftrightarrow> lost_in c i h"
  by (simp add: lost_in_def)

lemma lost_conn_close:
  "lost_in c i h \<Longrightarrow> c' \<noteq> c \<Longrightarrow> c' < length (rh_conns h) \<Longrightarrow> lost_in c i (conn_close c' h)"
  by (auto simp: lost_in_def)

lemma lost_drain:
  assumes inv: "relay_hub_inv h" and lost: "lost_in c i h"
    and k: "k < length (rh_openers h)" "op_pc (rh_openers h ! k) = Draining r"
  shows "lost_in c i (OpenChannel_drain r k h)"
proof -
  have "k \<noteq> i" using lost k by (auto simp: lost_in_def)
  moreover have "c' \<noteq> c \<and> c' < length (rh_conns h)" if "op_ready (rh_openers h ! k) = Some c'" for c'
    using that holder [OF inv k(1), of c'] holder [OF inv, of i c] lost \<open>k \<noteq> i\<close>
    by (auto simp: holds_def lost_in_def)
  ultimately show ?thesis
    using lost k(1) by (auto simp: OpenChannel_drain_def lost_upd_opener lost_conn_close split: sum.split option.split)
qed

lemma lost_deliver:
  assumes inv: "relay_hub_inv h" and lost: "lost_in c i h"
    and j: "j < length (rh_relays h)" "rl_pc (rh_relays h ! j) = RAccepted c'"
  shows "lost_in c i (ServeRelay_deliver c' j h)"
proof -
  have "rl_opener (rh_relays h ! j) \<noteq> i"
    using deliver_room [OF inv j] lost by (auto simp: lost_in_def)
  then show ?thesis
    using deliver_room [OF inv j] relay_at(1) [OF inv j(1)] lost
    by (simp add: ServeRelay_deliver_def lost_upd_relay lost_upd_opener)
qed

lemma lost_append:
  assumes "lost_in c i h" "rh_openers h' = rh_openers h @ ps" "rh_conns h' = rh_conns h @ cs"
  shows "lost_in c i h'"
  using assms by (auto simp: lost_in_def nth_append)

lemma lost_select:
  assumes "lost_in c i h" "k < length (rh_openers h)" "op_pc (rh_openers h ! k) = Waiting" "OpenChannel_select ch k h = Some h'"
  shows "lost_in c i h'"
proof -
  have "k \<noteq> i" using assms by (auto simp: lost_in_def)
  then show ?thesis
    using assms by (cases ch) (auto simp: lost_upd_opener split: option.splits if_splits)
qed

lemma lost_write:
  assumes "lost_in c i h" "k < length (rh_openers h)" "op_pc (rh_openers h ! k) = Registered"
  shows "lost_in c i (OpenChannel_write ok k h)"
proof -
  have "k \<noteq> i" using assms by (auto simp: lost_in_def)
  then show ?thesis
    using assms lost_same [OF session_steps_frame(1) assms(1)]
    by (simp add: OpenChannel_write_def lost_upd_opener)
qed

lemma lost_unregister:
  assumes "lost_in c i h" "k < length (rh_openers h)" "op_pc (rh_openers h ! k) = Leaving r"
  shows "lost_in c i (OpenChannel_unregister r k h)"
proof -
  have "k \<noteq> i" using assms by (auto simp: lost_in_def)
  then show ?thesis
    using assms by (auto simp: OpenChannel_unregister_def lost_in_def)
qed

lemma lost_accept: "lost_in c i h \<Longrightarrow> lost_in c i (ServeRelay_accept ok j h)"
  by (auto simp: ServeRelay_accept_def lost_upd_relay intro: lost_append)

lemma lost_step: "hub_trans h h' \<Longrightarrow> relay_hub_inv h \<Longrightarrow> lost_in c i h \<Longrightarrow> lost_in c i h'"
proof (induction rule: hub_trans.induct)
  case (open_register sandbox cid h h')
  then show ?case
    by (auto simp: OpenChannel_register_def split: option.splits intro!: lost_append [OF open_register(3)])
next
  case (relay_take sandbox channel h h')
  then show ?case
    by (auto simp: ServeRelay_take_def split: option.splits if_splits intro!: lost_append [OF relay_take(3)])
qed (blast intro: lost_same session_steps_frame lost_drain lost_deliver lost_select lost_write lost_unregister lost_accept)+

section \<open>Examples\<close>

text \<open>The supervisor of sandbox \<open>a\<close> connects, a client opens channel \<open>c\<close>, the supervisor dials back.\<close>

definition rx_connected :: RelayHub where
  "rx_connected = ServeSupervisor_start ''a'' NewRelayHub"

definition rx_open :: RelayHub where
  "rx_open = OpenChannel_write True 0 (projr (OpenChannel_register ''a'' ''c'' rx_connected))"

definition rx_dialled :: RelayHub where
  "rx_dialled = ServeRelay_accept True 0 (the (ServeRelay_take ''a'' ''c'' rx_open))"

definition rx_opened :: RelayHub where
  "rx_opened = OpenChannel_drain (Inr 0) 0 (OpenChannel_unregister (Inr 0) 0
     (the (OpenChannel_select CReady 0 (ServeRelay_deliver 0 0 rx_dialled))))"

definition rx_timeout :: RelayHub where
  "rx_timeout = ServeRelay_deliver 0 0 (OpenChannel_drain (Inl ErrOpenTimeout) 0
     (OpenChannel_unregister (Inl ErrOpenTimeout) 0 (the (OpenChannel_select CTimer 0 rx_dialled))))"

lemmas relay_eval = NewRelayHub_def rx_connected_def rx_open_def rx_dialled_def ServeSupervisor_start_def
  OpenChannel_register_def OpenChannel_write_def ServeRelay_take_def ServeRelay_accept_def ServeRelay_deliver_def
  OpenChannel_unregister_def OpenChannel_drain_def upd_opener_def upd_relay_def conn_close_def session_close_def

lemma reach_step_rule: "relay_reachable h \<Longrightarrow> hub_trans h h' \<Longrightarrow> relay_reachable h'"
  unfolding relay_reachable_def by (rule reach.intros(2))

lemma reach_rx_dialled: "relay_reachable rx_dialled"
proof -
  have 1: "relay_reachable rx_connected"
    unfolding rx_connected_def
    by (rule reach_step_rule [OF _ sup_start]) (simp add: relay_reachable_def reach.intros(1))
  have 2: "relay_reachable (projr (OpenChannel_register ''a'' ''c'' rx_connected))"
    by (rule reach_step_rule [OF 1 open_register [of "''a''" "''c''"]]) (simp add: relay_eval)
  have 3: "relay_reachable rx_open"
    unfolding rx_open_def by (rule reach_step_rule [OF 2 open_write]) (simp_all add: relay_eval)
  have 4: "relay_reachable (the (ServeRelay_take ''a'' ''c'' rx_open))"
    by (rule reach_step_rule [OF 3 relay_take [of "''a''" "''c''"]]) (simp add: relay_eval)
  show ?thesis
    unfolding rx_dialled_def by (rule reach_step_rule [OF 4 relay_accept]) (simp_all add: relay_eval)
qed

lemma reach_ex_opened: "relay_reachable rx_opened"
proof -
  have 1: "relay_reachable (ServeRelay_deliver 0 0 rx_dialled)"
    by (rule reach_step_rule [OF reach_rx_dialled relay_deliver]) (simp_all add: relay_eval)
  have 2: "relay_reachable (the (OpenChannel_select CReady 0 (ServeRelay_deliver 0 0 rx_dialled)))"
    by (rule reach_step_rule [OF 1 open_select [of 0 _ CReady]]) (simp_all add: relay_eval)
  have 3: "relay_reachable (OpenChannel_unregister (Inr 0) 0 (the (OpenChannel_select CReady 0 (ServeRelay_deliver 0 0 rx_dialled))))"
    by (rule reach_step_rule [OF 2 open_unregister]) (simp_all add: relay_eval)
  show ?thesis
    unfolding rx_opened_def by (rule reach_step_rule [OF 3 open_drain]) (simp_all add: relay_eval)
qed

lemma reach_rx_timeout: "relay_reachable rx_timeout"
proof -
  have 1: "relay_reachable (the (OpenChannel_select CTimer 0 rx_dialled))"
    by (rule reach_step_rule [OF reach_rx_dialled open_select [of 0 _ CTimer]]) (simp_all add: relay_eval)
  have 2: "relay_reachable (OpenChannel_unregister (Inl ErrOpenTimeout) 0 (the (OpenChannel_select CTimer 0 rx_dialled)))"
    by (rule reach_step_rule [OF 1 open_unregister]) (simp_all add: relay_eval)
  have 3: "relay_reachable (OpenChannel_drain (Inl ErrOpenTimeout) 0
      (OpenChannel_unregister (Inl ErrOpenTimeout) 0 (the (OpenChannel_select CTimer 0 rx_dialled))))"
    by (rule reach_step_rule [OF 2 open_drain]) (simp_all add: relay_eval)
  show ?thesis
    unfolding rx_timeout_def by (rule reach_step_rule [OF 3 relay_deliver]) (simp_all add: relay_eval)
qed

text \<open>When the supervisor last showed itself, for the keepalive loop.\<close>

fun last_seen :: "time \<Rightarrow> sup_event list \<Rightarrow> time" where
  "last_seen t [] = t"
| "last_seen t (Seen now # es) = last_seen now es"
| "last_seen t (_ # es) = last_seen t es"

text \<open>
  The event \<open>ev\<close>, coming after the events \<open>before\<close>, ends a loop that began at \<open>start\<close>: the
  session was closed, the request is over, or the tick finds that more than the timeout has passed
  since the last pong or hello, or its ping cannot be written.
\<close>

definition ends_loop :: "duration \<Rightarrow> time \<Rightarrow> sup_event list \<Rightarrow> sup_event \<Rightarrow> bool" where
  "ends_loop timeout start before ev \<longleftrightarrow>
     ev = SessionDone \<or> ev = CtxDone \<or>
     (\<exists>now ok. ev = Tick now ok \<and> (now - last_seen start before > timeout \<or> \<not> ok))"

lemma last_seen_append: "last_seen t (xs @ ys) = last_seen (last_seen t xs) ys"
  by (induction t xs rule: last_seen.induct) auto

lemma supervisor_loop_Cons:
  "supervisor_loop timeout start (e # es) =
     (if ends_loop timeout start [] e then supervisor_loop timeout start [e]
      else supervisor_loop timeout (last_seen start [e]) es)"
  by (cases e) (auto simp: ends_loop_def)

lemma ends_loop_Cons: "ends_loop timeout start (e # before) ev \<longleftrightarrow> ends_loop timeout (last_seen start [e]) before ev"
  using last_seen_append [of start "[e]" before] by (simp add: ends_loop_def)

lemma supervisor_loop_skip:
  "\<forall>i<length pre. \<not> ends_loop timeout start (take i pre) (pre ! i) \<Longrightarrow>
   supervisor_loop timeout start (pre @ es) = supervisor_loop timeout (last_seen start pre) es"
proof (induction pre arbitrary: start)
  case (Cons e pre)
  have "\<not> ends_loop timeout start [] e" using Cons.prems by force
  moreover have "\<forall>i<length pre. \<not> ends_loop timeout (last_seen start [e]) (take i pre) (pre ! i)"
    using Cons.prems by (force simp: ends_loop_Cons)
  ultimately show ?case
    using Cons.IH [of "last_seen start [e]"] last_seen_append [of start "[e]" pre]
    by (simp add: supervisor_loop_Cons [of _ _ e])
qed simp

lemma supervisor_loop_ends:
  "supervisor_loop timeout start es = Some x \<Longrightarrow>
   \<exists>pre ev post. es = pre @ ev # post \<and> ends_loop timeout start pre ev \<and>
     (\<forall>i<length pre. \<not> ends_loop timeout start (take i pre) (pre ! i))"
proof (induction es arbitrary: start)
  case (Cons e es)
  show ?case
  proof (cases "ends_loop timeout start [] e")
    case True
    then show ?thesis by (intro exI [of _ "[]"] exI [of _ e] exI [of _ es]) simp
  next
    case False
    with Cons.prems have "supervisor_loop timeout (last_seen start [e]) es = Some x"
      by (simp add: supervisor_loop_Cons [of _ _ e])
    from Cons.IH [OF this] obtain pre ev post where
      *: "es = pre @ ev # post" "ends_loop timeout (last_seen start [e]) pre ev"
        "\<forall>i<length pre. \<not> ends_loop timeout (last_seen start [e]) (take i pre) (pre ! i)" by blast
    have "\<forall>i<length (e # pre). \<not> ends_loop timeout start (take i (e # pre)) ((e # pre) ! i)"
      using False *(3) by (auto simp: less_Suc_eq_0_disj ends_loop_Cons)
    with * show ?thesis by (intro exI [of _ "e # pre"] exI [of _ ev] exI [of _ post]) (simp add: ends_loop_Cons)
  qed
qed simp

section \<open>Properties\<close>

text \<open>
  C13: isolation of relay channels. Whatever the interleaving of supervisors, clients, timers and
  data streams, a connection that \<open>OpenChannel\<close> returns was dialled by a supervisor
  authenticated as the sandbox the caller asked for, has not been closed by the hub, and is
  returned to no other caller.
\<close>
theorem relay_channel_isolation:
  assumes "relay_reachable h" "i < length (rh_openers h)" "op_pc (rh_openers h ! i) = Returned (Inr c)"
  shows "c < length (rh_conns h) \<and> \<not> cn_closed (rh_conns h ! c) \<and>
         rl_sandbox (rh_relays h ! cn_relay (rh_conns h ! c)) = op_sandbox (rh_openers h ! i) \<and>
         (\<forall>k<length (rh_openers h). got (op_pc (rh_openers h ! k)) = Some c \<longrightarrow> k = i)"
proof -
  note inv = reachable_inv [OF assms(1)]
  have "holds (rh_openers h ! i) c" by (simp add: holds_def assms(3))
  note c = holder [OF inv assms(2) this]
  moreover have "k = i" if "k < length (rh_openers h)" "got (op_pc (rh_openers h ! k)) = Some c" for k
    using holder [OF inv that(1), of c] c that(2) by (simp add: holds_def)
  ultimately show ?thesis
    using relay_at(2) [OF inv, of "cn_relay (rh_conns h ! c)"] by simp
qed

theorem relay_channel_isolation_witness:
  "op_pc (rh_openers rx_opened ! 0) = Returned (Inr 0) \<and>
   rl_sandbox (rh_relays rx_opened ! cn_relay (rh_conns rx_opened ! 0)) = ''a''"
proof -
  have "op_pc (rh_openers rx_opened ! 0) = Returned (Inr 0)" "0 < length (rh_openers rx_opened)"
    "op_sandbox (rh_openers rx_opened ! 0) = ''a''"
    by (simp_all add: rx_opened_def relay_eval)
  with relay_channel_isolation [OF reach_ex_opened, of 0 0] show ?thesis by simp
qed

text \<open>
  C18: no pending channel outlives its caller, and no data stream finds its place taken. In
  every reachable state an entry of \<open>pending\<close> belongs to a call of \<open>OpenChannel\<close> that has not
  run its deferred function yet, has no connection and is known to no data stream; and when a
  data stream is handed over, the channel \<open>ready\<close> has room, so the \<open>default\<close> branch of
  \<open>ServeRelay\<close> is never taken.
\<close>
theorem relay_pending_live:
  assumes "relay_reachable h"
  shows "(fmlookup (rh_pending h) cid = Some i \<longrightarrow>
            i < length (rh_openers h) \<and> op_id (rh_openers h ! i) = cid \<and> registered (op_pc (rh_openers h ! i)) \<and>
            unheld (rh_openers h ! i) \<and> (\<forall>j<length (rh_relays h). rl_opener (rh_relays h ! j) \<noteq> i)) \<and>
         (j < length (rh_relays h) \<longrightarrow> rl_pc (rh_relays h ! j) = RAccepted c \<longrightarrow>
            op_ready (rh_openers h ! rl_opener (rh_relays h ! j)) = None)"
  using reachable_inv [OF assms] deliver_room [OF reachable_inv [OF assms]]
  by (auto simp: relay_hub_inv_def pending_inv_def)

theorem relay_pending_live_witness:
  "op_ready (rh_openers rx_dialled ! rl_opener (rh_relays rx_dialled ! 0)) = None"
proof -
  have "0 < length (rh_relays rx_dialled)" "rl_pc (rh_relays rx_dialled ! 0) = RAccepted 0"
    by (simp_all add: relay_eval)
  with relay_pending_live [OF reach_rx_dialled, of _ _ 0 0] show ?thesis by simp
qed

text \<open>
  C19: a supervisor that reconnects is not unregistered by the end of its previous control
  stream: when the stream of session \<open>k\<close> ends, exactly the entry that still is \<open>k\<close> is removed,
  and every other sandbox or newer session stays connected and open.
\<close>
theorem reconnect_survives:
  assumes "relay_reachable h" "k < length (rh_sess h)"
  shows "fmlookup (rh_sessions (ServeSupervisor_exit k h)) sb =
           (if fmlookup (rh_sessions h) sb = Some k then None else fmlookup (rh_sessions h) sb) \<and>
         (\<forall>k'<length (rh_sess h). k' \<noteq> k \<longrightarrow> rh_sess (ServeSupervisor_exit k h) ! k' = rh_sess h ! k')"
proof -
  have "session_inv h" using reachable_inv [OF assms(1)] by (simp add: relay_hub_inv_def)
  then have sb: "fmlookup (rh_sessions h) sb = Some k \<longrightarrow> ses_sandbox (rh_sess h ! k) = sb"
    by (simp add: session_inv_def)
  show ?thesis
    using sb by (cases "sb = ses_sandbox (rh_sess h ! k)") (simp_all add: ServeSupervisor_exit_def session_close_def Let_def)
qed

theorem reconnect_survives_witness:
  "Connected ''a'' (ServeSupervisor_exit 0 (ServeSupervisor_start ''a'' rx_connected)) \<and>
   \<not> Connected ''a'' (ServeSupervisor_exit 1 (ServeSupervisor_start ''a'' rx_connected))"
proof -
  let ?h = "ServeSupervisor_start ''a'' rx_connected"
  have r: "relay_reachable ?h"
    unfolding rx_connected_def
    by (rule reach_step_rule [OF reach_step_rule [OF _ sup_start] sup_start]) (simp add: relay_reachable_def reach.intros(1))
  have "length (rh_sess ?h) = 2" and l: "fmlookup (rh_sessions ?h) ''a'' = Some 1"
    by (simp_all add: relay_eval Let_def)
  then have "0 < length (rh_sess ?h)" "1 < length (rh_sess ?h)" by simp_all
  from reconnect_survives [OF r this(1), of "''a''", THEN conjunct1] reconnect_survives [OF r this(2), of "''a''", THEN conjunct1]
  show ?thesis by (simp add: Connected_def l)
qed

text \<open>
  C20: when the control stream ends. The loop of \<open>ServeSupervisor\<close> ends with the first event that
  ends it and with no other: the session was closed elsewhere, the request is over, a tick comes more
  than the keepalive timeout after the last pong or hello before it (or after the start), or the ping
  of a tick in time cannot be written; and it ends for that reason.
\<close>
theorem keepalive_exact:
  "supervisor_loop timeout start es = Some x \<longleftrightarrow>
     (\<exists>pre ev post. es = pre @ ev # post \<and>
        (\<forall>i<length pre. \<not> ends_loop timeout start (take i pre) (pre ! i)) \<and>
        (x = ExitDone \<and> ev = SessionDone \<or>
         x = ExitCtx \<and> ev = CtxDone \<or>
         x = ExitKeepalive \<and> (\<exists>now ok. ev = Tick now ok \<and> now - last_seen start pre > timeout) \<or>
         x = ExitWrite \<and> (\<exists>now. ev = Tick now False \<and> now - last_seen start pre \<le> timeout)))"
    (is "?L \<longleftrightarrow> ?R")
proof
  assume ?L
  from supervisor_loop_ends [OF this] obtain pre ev post where
    *: "es = pre @ ev # post" "ends_loop timeout start pre ev" "\<forall>i<length pre. \<not> ends_loop timeout start (take i pre) (pre ! i)"
    by blast
  with \<open>?L\<close> supervisor_loop_skip [OF *(3), of "ev # post"] have "supervisor_loop timeout (last_seen start pre) (ev # post) = Some x"
    by simp
  with *(2) have "x = ExitDone \<and> ev = SessionDone \<or> x = ExitCtx \<and> ev = CtxDone \<or>
      x = ExitKeepalive \<and> (\<exists>now ok. ev = Tick now ok \<and> now - last_seen start pre > timeout) \<or>
      x = ExitWrite \<and> (\<exists>now. ev = Tick now False \<and> now - last_seen start pre \<le> timeout)"
    by (cases ev) (auto simp: ends_loop_def split: if_splits)
  with *(1,3) show ?R by blast
next
  assume ?R
  then show ?L by (auto simp: supervisor_loop_skip)
qed

text \<open>A supervisor that stops answering, and one whose stream breaks.\<close>

theorem keepalive_exact_witness:
  "supervisor_loop 45 0 [Tick 15 True, Seen 16, Tick 30 True, Tick 60 True, Tick 75 True] = Some ExitKeepalive \<and>
   supervisor_loop 45 0 [Tick 15 False] = Some ExitWrite"
proof -
  have "\<forall>i<length [Tick 15 True, Seen 16, Tick 30 True, Tick 60 True].
      \<not> ends_loop 45 0 (take i [Tick 15 True, Seen 16, Tick 30 True, Tick 60 True]) ([Tick 15 True, Seen 16, Tick 30 True, Tick 60 True] ! i)"
    by (simp add: ends_loop_def less_Suc_eq)
  moreover have "[Tick 15 True, Seen 16, Tick 30 True, Tick 60 True, Tick 75 True] =
      [Tick 15 True, Seen 16, Tick 30 True, Tick 60 True] @ Tick 75 True # []" by simp
  moreover have "75 - last_seen 0 [Tick 15 True, Seen 16, Tick 30 True, Tick 60 True] > 45" by simp
  ultimately have "supervisor_loop 45 0 [Tick 15 True, Seen 16, Tick 30 True, Tick 60 True, Tick 75 True] = Some ExitKeepalive"
    unfolding keepalive_exact by blast
  moreover have "[Tick 15 False] = [] @ Tick 15 False # []" "15 - last_seen 0 [] \<le> 45"
    "\<forall>i<length []. \<not> ends_loop 45 0 (take i []) ([] ! i)" by simp_all
  then have "supervisor_loop 45 0 [Tick 15 False] = Some ExitWrite"
    unfolding keepalive_exact by blast
  ultimately show ?thesis ..
qed

text \<open>
  C21: a data stream can be lost. If the caller's timer fires after the data stream has taken the
  pending entry and before it is handed over, the deferred function finds nothing to close and
  the connection is put into a channel nobody reads: it is never closed nor delivered, whatever
  happens afterwards.
\<close>
theorem relay_conn_lost_forever:
  assumes "relay_reachable h" "lost_in c i h" "rtranclp hub_trans h h'"
  shows "lost_in c i h'"
proof -
  have "lost_in c i h' \<and> relay_hub_inv h'"
    using assms(3) by (induction rule: rtranclp_induct)
      (use assms(2) reachable_inv [OF assms(1)] lost_step hub_trans_inv in blast)+
  then show ?thesis ..
qed

theorem relay_conn_lost_forever_witness:
  "lost_in 0 0 rx_timeout \<and> lost_in 0 0 (Disconnect ''a'' rx_timeout)"
proof -
  have "lost_in 0 0 rx_timeout"
    by (simp add: lost_in_def rx_timeout_def relay_eval)
  with relay_conn_lost_forever [OF reach_rx_timeout this r_into_rtranclp [of hub_trans, OF disconnect]]
  show ?thesis by blast
qed

end
