(* ===== verification/Exec.thy ===== *)
theory Exec
  imports Http Relay_Hub
begin

text \<open>
  The exec path of \<open>internal/httpapi/ssh_api.go\<close>: quoting an argument vector for the remote
  login shell, the capped output buffer, and \<open>execOverRelay\<close> with the status code its errors
  get. The SSH client of \<open>golang.org/x/crypto/ssh\<close> is an argument: what a command makes it write
  and how it ends.
\<close>

section \<open>Quoting\<close>

definition safe_char :: "char \<Rightarrow> bool" where
  "safe_char c \<longleftrightarrow>
     (let n = of_char c :: nat in
      97 \<le> n \<and> n \<le> 122 \<or> 65 \<le> n \<and> n \<le> 90 \<or> 48 \<le> n \<and> n \<le> 57 \<or> c \<in> set ''@%+=:,./-_'')"

definition squote :: char where
  "squote = CHR 0x27"

definition backslash :: char where
  "backslash = CHR 0x5C"

definition ReplaceAll :: "string \<Rightarrow> char \<Rightarrow> string \<Rightarrow> string" where
  "ReplaceAll s c new = concat (map (\<lambda>x. if x = c then new else [x]) s)"

text \<open>
  A rune that is not ASCII is never safe, and neither is any byte of its encoding, so the test
  goes over bytes.
\<close>

definition shellQuote :: "string \<Rightarrow> string" where
  "shellQuote s =
     (if s = [] then [squote, squote]
      else if \<forall>c\<in>set s. safe_char c then s
      else squote # ReplaceAll s squote [squote, backslash, squote, squote] @ [squote])"

definition shellJoin :: "string list \<Rightarrow> string" where
  "shellJoin argv = Join (map shellQuote argv) CHR '' ''"

section \<open>A shell's reading of a command\<close>

text \<open>
  How a POSIX shell splits a command into words, after the Shell Command Language (token recognition
  and quoting), without regard to what the gateway considers safe. Outside quotes, blanks separate
  words, a backslash quotes the next character, a single quote opens a quoted string, and the
  characters of \<open>sh_special\<close> can start an operator, an expansion, a pattern, a comment, a brace
  expansion or a history expansion: a command with one of them, or with a NUL byte, is not just a list
  of words, and has the reading \<open>None\<close>. Every other character stands for itself. (What a shell does
  with the words afterwards, such as taking a first word \<open>A=b\<close> for an assignment or a first word \<open>if\<close>
  for a keyword, is not part of word splitting.)
\<close>

definition sh_special :: "char \<Rightarrow> bool" where
  "sh_special c \<longleftrightarrow> c \<in> set ''|&;<>()$`*?[]#~{}!'' \<union> {CHR 0x22, CHR 0x09, CHR 0x0A, CHR 0x0D, CHR 0x00}"

definition start_word :: "string option \<Rightarrow> string" where
  "start_word w = (case w of None \<Rightarrow> [] | Some u \<Rightarrow> u)"

fun sh_plain :: "string option \<Rightarrow> string \<Rightarrow> string list option"
  and sh_quoted :: "string \<Rightarrow> string \<Rightarrow> string list option" where
  "sh_plain w [] = Some (case w of None \<Rightarrow> [] | Some u \<Rightarrow> [u])"
| "sh_plain w (c # cs) =
     (if c = CHR '' '' then
        (case w of None \<Rightarrow> sh_plain None cs | Some u \<Rightarrow> map_option (Cons u) (sh_plain None cs))
      else if c = squote then sh_quoted (start_word w) cs
      else if c = backslash then
        (case cs of [] \<Rightarrow> None | d # ds \<Rightarrow> if d = CHR 0x0A \<or> d = CHR 0x00 then None else sh_plain (Some (start_word w @ [d])) ds)
      else if sh_special c then None
      else sh_plain (Some (start_word w @ [c])) cs)"
| "sh_quoted u [] = None"
| "sh_quoted u (c # cs) =
     (if c = squote then sh_plain (Some u) cs else if c = CHR 0x00 then None else sh_quoted (u @ [c]) cs)"

definition sh_words :: "string \<Rightarrow> string list option" where
  "sh_words cmd = sh_plain None cmd"

section \<open>The output buffer\<close>

record cappedBuffer =
  cb_buf :: string
  cb_max :: nat
  cb_cut :: bool

text \<open>A line end, the ellipsis (three bytes), \<open>[truncated]\<close>, a line end.\<close>

definition truncated_marker :: string where
  "truncated_marker = [CHR 0x0A, CHR 0xE2, CHR 0x80, CHR 0xA6] @ ''[truncated]'' @ [CHR 0x0A]"

definition cb_Write :: "string \<Rightarrow> cappedBuffer \<Rightarrow> cappedBuffer \<times> nat" where
  "cb_Write p c =
     (if cb_cut c then (c, length p)
      else
        let remain = cb_max c - length (cb_buf c) in
        if length p > remain
        then (c\<lparr>cb_buf := cb_buf c @ take remain p @ truncated_marker, cb_cut := True\<rparr>, length p)
        else (c\<lparr>cb_buf := cb_buf c @ p\<rparr>, length p))"

definition maxExecOutputBytes :: nat where
  "maxExecOutputBytes = 4 * 2 ^ 20"

definition new_cappedBuffer :: "nat \<Rightarrow> cappedBuffer" where
  "new_cappedBuffer m = \<lparr>cb_buf = [], cb_max = m, cb_cut = False\<rparr>"

section \<open>Running a command\<close>

datatype exec_err = OpenError open_err | HandshakeError | SessionError | RunError | DeadlineExceeded | Canceled

datatype run_end = RunOk | RunExit int | RunFailed | RunDeadline | RunCanceled

record ssh_client =
  sc_open :: "open_err option"
  sc_handshake_err :: bool
  sc_session_err :: bool
  sc_run :: "string \<Rightarrow> string list \<times> run_end"

definition execOverRelay :: "ssh_client \<Rightarrow> string list \<Rightarrow> string \<times> int \<times> exec_err option" where
  "execOverRelay c argv =
     (case sc_open c of
        Some x \<Rightarrow> ([], 0, Some (OpenError x))
      | None \<Rightarrow>
          if sc_handshake_err c then ([], 0, Some HandshakeError)
          else if sc_session_err c then ([], 0, Some SessionError)
          else
            (case sc_run c (shellJoin argv) of
               (writes, how) \<Rightarrow>
                 let out = cb_buf (fold (\<lambda>p b. fst (cb_Write p b)) writes (new_cappedBuffer maxExecOutputBytes)) in
                 (case how of
                    RunOk \<Rightarrow> (out, 0, None)
                  | RunExit code \<Rightarrow> (out, code, None)
                  | RunFailed \<Rightarrow> (out, 0, Some RunError)
                  | RunDeadline \<Rightarrow> (out, 0, Some DeadlineExceeded)
                  | RunCanceled \<Rightarrow> (out, 0, Some Canceled))))"

text \<open>The status of a failed exec. A context that ended while the channel was being opened
  reports its own error.\<close>

definition exec_status :: "bool \<Rightarrow> exec_err \<Rightarrow> nat" where
  "exec_status deadline x =
     (case x of
        OpenError ErrNotConnected \<Rightarrow> StatusPreconditionFailed
      | OpenError ErrOpenTimeout \<Rightarrow> StatusGatewayTimeout
      | OpenError ErrCtx \<Rightarrow> if deadline then StatusGatewayTimeout else StatusBadGateway
      | DeadlineExceeded \<Rightarrow> StatusGatewayTimeout
      | _ \<Rightarrow> StatusBadGateway)"

text \<open>The timeout of a request, in nanoseconds of a 64-bit \<open>time.Duration\<close>.\<close>

definition exec_timeout :: "int \<Rightarrow> duration" where
  "exec_timeout timeoutSec = (if timeoutSec > 0 then int64 (timeoutSec * Second) else 60 * Second)"

section \<open>Lemmas\<close>

text \<open>The bytes \<open>shellQuote\<close> leaves unquoted mean nothing to a shell.\<close>

lemma safe_not_special: "safe_char c \<Longrightarrow> c \<noteq> CHR '' '' \<and> c \<noteq> squote \<and> c \<noteq> backslash \<and> \<not> sh_special c"
  by (auto simp: safe_char_def squote_def backslash_def sh_special_def)

lemma sh_plain_safe:
  "\<forall>c\<in>set s. safe_char c \<Longrightarrow> s \<noteq> [] \<Longrightarrow> sh_plain w (s @ rest) = sh_plain (Some (start_word w @ s)) rest"
proof (induction s arbitrary: w)
  case (Cons c s)
  have c: "sh_plain w (c # s @ rest) = sh_plain (Some (start_word w @ [c])) (s @ rest)"
    using Cons.prems safe_not_special [of c] by simp
  show ?case
  proof (cases "s = []")
    case False
    with c Cons.prems Cons.IH [of "Some (start_word w @ [c])"] show ?thesis by (simp add: start_word_def)
  qed (use c in simp)
qed simp

lemma squote_ne [simp]: "squote \<noteq> CHR '' ''" "CHR '' '' \<noteq> squote" "backslash \<noteq> squote" "squote \<noteq> backslash"
  "backslash \<noteq> CHR '' ''" "CHR '' '' \<noteq> backslash" "squote \<noteq> CHR 0x0A" "squote \<noteq> CHR 0x00"
  by (simp_all add: squote_def backslash_def)

lemma sh_quoted_escaped:
  "CHR 0x00 \<notin> set s \<Longrightarrow> sh_quoted u (ReplaceAll s squote [squote, backslash, squote, squote] @ squote # rest) = sh_plain (Some (u @ s)) rest"
  by (induction s arbitrary: u) (auto simp: ReplaceAll_def start_word_def)

lemma sh_plain_quote:
  assumes "CHR 0x00 \<notin> set s"
  shows "sh_plain None (shellQuote s @ rest) = sh_plain (Some s) rest"
proof -
  consider "s = []" | "s \<noteq> []" "\<forall>c\<in>set s. safe_char c" | "s \<noteq> []" "\<not> (\<forall>c\<in>set s. safe_char c)" by blast
  then show ?thesis
  proof cases
    case 1
    then show ?thesis by (simp add: shellQuote_def start_word_def)
  next
    case 2
    then show ?thesis using sh_plain_safe [of s None rest] by (simp add: shellQuote_def start_word_def)
  next
    case 3
    then have "shellQuote s = squote # ReplaceAll s squote [squote, backslash, squote, squote] @ [squote]"
      unfolding shellQuote_def by (simp only: if_False)
    then show ?thesis using sh_quoted_escaped [OF assms, of "[]" rest] by (simp add: start_word_def)
  qed
qed

lemma sh_plain_join: "\<forall>a\<in>set argv. CHR 0x00 \<notin> set a \<Longrightarrow> sh_plain None (Join (map shellQuote argv) CHR '' '') = Some argv"
proof (induction argv rule: induct_list012)
  case 1
  then show ?case by simp
next
  case (2 a)
  then show ?case using sh_plain_quote [of a "[]"] by simp
next
  case (3 a b argv)
  then show ?case using sh_plain_quote [of a] by simp
qed

lemma cb_writes:
  fixes m :: nat
  defines "state \<equiv> \<lambda>s. \<lparr>cb_buf = (if length s \<le> m then s else take m s @ truncated_marker), cb_max = m, cb_cut = (m < length s)\<rparr>"
  shows "fold (\<lambda>p b. fst (cb_Write p b)) ws (new_cappedBuffer m) = state (concat ws)"
proof (induction ws rule: rev_induct)
  case Nil
  then show ?case by (simp add: new_cappedBuffer_def state_def)
next
  case (snoc p ws)
  then show ?case by (auto simp: cb_Write_def state_def Let_def)
qed

section \<open>Properties\<close>

text \<open>
  C30: quoting is exact. A POSIX shell that splits the command \<open>shellJoin\<close> builds gets back the
  argument vector it was built from, whatever bytes the arguments hold (NUL apart, which no argument
  of a process can hold): empty arguments, blanks, quotes and metacharacters neither split, merge,
  expand nor disappear, and nothing the shell gives a meaning to is left unquoted.
\<close>
theorem shell_roundtrip:
  assumes "\<forall>a\<in>set argv. CHR 0x00 \<notin> set a"
  shows "sh_words (shellJoin argv) = Some argv"
  unfolding sh_words_def shellJoin_def using assms by (rule sh_plain_join)

theorem shell_roundtrip_witness:
  "sh_words (shellJoin [''echo'', ''a;rm -rf $HOME'', [squote], [], ''x=1'']) =
     Some [''echo'', ''a;rm -rf $HOME'', [squote], [], ''x=1'']"
  by (rule shell_roundtrip) (simp add: squote_def)

text \<open>
  C31: exec output is bounded and faithful. Whatever chunks the command writes, the output of
  \<open>execOverRelay\<close> is what it wrote if that fits into 4 MiB, and otherwise its first 4 MiB and the
  truncation marker; every write is reported as complete, so the command is never blocked.
\<close>
theorem exec_output_capped:
  "cb_buf (fold (\<lambda>p b. fst (cb_Write p b)) ws (new_cappedBuffer maxExecOutputBytes)) =
     (if length (concat ws) \<le> maxExecOutputBytes then concat ws
      else take maxExecOutputBytes (concat ws) @ truncated_marker) \<and>
   length (cb_buf (fold (\<lambda>p b. fst (cb_Write p b)) ws (new_cappedBuffer maxExecOutputBytes))) \<le> maxExecOutputBytes + 16 \<and>
   snd (cb_Write p b) = length p"
  unfolding cb_writes by (simp add: truncated_marker_def cb_Write_def Let_def)

text \<open>
  The timeout of an exec request is the requested number of seconds only up to 9223372036
  seconds; the next value wraps around to a negative duration, so the request fails at once.
\<close>
lemma exec_timeout_wraps:
  "(0 < n \<and> n \<le> 9223372036 \<longrightarrow> exec_timeout n = n * Second) \<and> exec_timeout 9223372037 < 0"
  by (auto simp: exec_timeout_def Second_def) (simp add: int64_def)

end
