(* ===== verification/Ssh_Api.thy ===== *)
theory Ssh_Api
  imports Parity_Api Exec
begin

text \<open>
  The handlers of \<open>internal/httpapi/ssh_api.go\<close>: sessions, supervisor tokens, the SSH relay
  and exec. They work on the store and the relay hub together. Opening a channel blocks on the
  supervisor: its outcome, a connection of the hub or an error, is an argument \<open>opened\<close> of the
  handlers that wait for it (what the hub guarantees of it is the subject of \<open>Relay_Hub\<close>), and so
  is whether the client's connection could be taken over. The entries the hub makes and removes while a
  channel is opened are steps of \<open>hub_trans\<close>, taken beside the request.
\<close>

section \<open>Sandboxes by name or id\<close>

text \<open>\<open>ks\<close> is the order in which the snapshot's map is ranged over.\<close>

definition resolveSandbox :: "string list \<Rightarrow> string \<Rightarrow> Store \<Rightarrow> Sandbox option" where
  "resolveSandbox ks nameOrID st =
     (case GetSandbox st nameOrID of
        Some sb \<Rightarrow> Some sb
      | None \<Rightarrow> List.find (\<lambda>sb. sb_ID sb \<noteq> [] \<and> sb_ID sb = nameOrID) (map snd (mrange ks (st_Sandboxes (Snapshot st)))))"

section \<open>Tokens and sessions\<close>

datatype ssh_payload =
    SNone
  | SToken string string
  | SSession string string string string string int int
  | SSessions "(string \<times> string \<times> string \<times> int \<times> int \<times> bool) list"
  | SExec int string
  | SBridge string nat
  | SSupervisor string
  | SRelay string string

record ssh_state =
  ss_store :: Store
  ss_hub :: RelayHub

definition issue_sandbox_token ::
    "(string \<Rightarrow> string) \<Rightarrow> env \<Rightarrow> string \<Rightarrow> ssh_state \<Rightarrow> ssh_state \<times> ssh_payload answer" where
  "issue_sandbox_token H en name g =
     (case IssueSandboxToken H (en_rnd en 0) (en_now en 0) (en_flush en 0) name (ss_store g) of
        (st, Inl _) \<Rightarrow> (g\<lparr>ss_store := st\<rparr>, Error StatusNotFound err_text)
      | (st, Inr tok) \<Rightarrow> (\<lparr>ss_store = st, ss_hub = Disconnect name (ss_hub g)\<rparr>, Reply StatusOK (SToken name tok)))"

definition gateway_address :: "Request \<Rightarrow> string \<times> string \<times> string" where
  "gateway_address r =
     (let scheme = (if rq_TLS r then ''https'' else ''http'') in
      case SplitHostPort (rq_Host r) of
        Some (host, port) \<Rightarrow> (scheme, host, port)
      | None \<Rightarrow> (scheme, rq_Host r, if scheme = ''https'' then ''443'' else ''80''))"

text \<open>
  The value of \<open>strconv.Atoi\<close>, its error ignored: 0 unless the text is an optional sign and digits, the
  nearest bound for a number out of range.
\<close>

definition Atoi :: "string \<Rightarrow> int" where
  "Atoi s =
     (let neg = (s \<noteq> [] \<and> hd s = CHR ''-'');
          digits = (if s \<noteq> [] \<and> (hd s = CHR ''-'' \<or> hd s = CHR ''+'') then tl s else s) in
      if digits = [] then 0
      else case number 10 digit_val 0 digits of
             None \<Rightarrow> 0
           | Some n \<Rightarrow> let v = (if neg then - int n else int n) in max (- (2 ^ 63)) (min v max_int64))"

definition create_session ::
    "(string \<Rightarrow> string) \<Rightarrow> duration \<Rightarrow> env \<Rightarrow> Request \<Rightarrow> Principal \<Rightarrow> string \<Rightarrow> ssh_state \<Rightarrow> ssh_state \<times> ssh_payload answer" where
  "create_session H ttl en r p name g =
     (case resolveSandbox (en_order en 0) name (ss_store g) of
        None \<Rightarrow> (g, Error StatusNotFound ''sandbox not found'')
      | Some sb \<Rightarrow>
          if \<not> Connected (sb_Name sb) (ss_hub g) then (g, Error StatusPreconditionFailed ''sandbox is not ready'')
          else
            (case CreateSSHSession H (en_rnd en 0) (en_rnd en 1) (en_now en 0) (en_flush en 0) (sb_Name sb) (p_Subject p) ttl (ss_store g) of
               (st, Inl _) \<Rightarrow> (g\<lparr>ss_store := st\<rparr>, Error StatusInternalServerError err_text)
             | (st, Inr (sess, tok)) \<Rightarrow>
                 (case gateway_address r of
                    (scheme, host, port) \<Rightarrow>
                      (g\<lparr>ss_store := st\<rparr>, Reply StatusOK
                        (SSession (ssh_ID sess) (sb_Name sb) tok scheme host (Atoi port) (ssh_ExpiresAtMS sess))))))"

definition handle_sessions :: "env \<Rightarrow> Request \<Rightarrow> ssh_state \<Rightarrow> ssh_state \<times> ssh_payload answer" where
  "handle_sessions en r g =
     (if rq_Method r \<noteq> MethodGet then (g, not_allowed)
      else (g, Reply StatusOK (SSessions
        (map (\<lambda>s. (ssh_ID s, ssh_Sandbox s, ssh_Subject s, ssh_CreatedAtMS s, ssh_ExpiresAtMS s, ssh_Revoked s))
          (ListSSHSessions (en_order en 0) (QueryGet r ''sandbox'') (ss_store g))))))"

definition handle_session :: "env \<Rightarrow> Request \<Rightarrow> ssh_state \<Rightarrow> ssh_state \<times> ssh_payload answer" where
  "handle_session en r g =
     (let sid = Trim (TrimPrefix (rq_Path r) ''/v1/ssh-sessions/'') ''/'' in
      if sid = [] \<or> rq_Method r \<noteq> MethodDelete
      then (g, Error StatusMethodNotAllowed ''usage: DELETE /v1/ssh-sessions/{id}'')
      else
        (case store_reply StatusNotFound (Reply StatusNoContent SNone) (RevokeSSHSession (en_flush en 0) sid (ss_store g)) of
           (st, ans) \<Rightarrow> (g\<lparr>ss_store := st\<rparr>, ans)))"

section \<open>The relay\<close>

definition connect_status :: "open_err \<Rightarrow> nat" where
  "connect_status x =
     (case x of
        ErrNotConnected \<Rightarrow> StatusPreconditionFailed
      | ErrOpenTimeout \<Rightarrow> StatusGatewayTimeout
      | ErrCtx \<Rightarrow> StatusBadGateway)"

definition zero_named :: "string \<Rightarrow> Sandbox" where
  "zero_named n = \<lparr>sb_Name = n, sb_ID = [], sb_Image = [], sb_Network = [], sb_Status = [], sb_Labels = None,
     sb_BasePolicyYAML = [], sb_AttachedProviders = [], sb_PolicyRev = 0, sb_PolicyRevisions = [], sb_UpdatedAt = 0\<rparr>"

text \<open>
  \<open>opened sb\<close> is the outcome of opening a channel to \<open>sb\<close>, \<open>upgrade\<close> whether the request asks
  for the relay protocol and \<open>accepted\<close> whether the client's connection was taken over; when it was
  not, the handler closes the channel and writes nothing.
\<close>

definition handleSSHConnect ::
    "relayproto \<Rightarrow> (string \<Rightarrow> string) \<Rightarrow> (string \<Rightarrow> open_err + nat) \<Rightarrow> bool \<Rightarrow> bool \<Rightarrow> env \<Rightarrow> Request \<Rightarrow> ssh_state
     \<Rightarrow> ssh_state \<times> ssh_payload answer" where
  "handleSSHConnect rp H opened upgrade accepted en r g =
     (let sandbox = TrimSpace (HeaderGet r (rp_HeaderSandboxID rp)) in
      if sandbox = [] then (g, Error StatusBadRequest (rp_HeaderSandboxID rp @ '' required''))
      else
        let sb = (case resolveSandbox (en_order en 0) sandbox (ss_store g) of None \<Rightarrow> zero_named sandbox | Some sb \<Rightarrow> sb) in
        (case ValidateSSHSession H (en_order en 1) (bearerToken r) (sb_Name sb) (en_now en 0) (ss_store g) of
           (_, Some _) \<Rightarrow> (g, Error StatusUnauthorized ''invalid ssh session'')
         | (sess, None) \<Rightarrow>
             if \<not> upgrade then (g, Error StatusUpgradeRequired ''upgrade required'')
             else
               (case opened (sb_Name sb) of
                  Inl x \<Rightarrow> (g, Error (connect_status x) err_text)
                | Inr c \<Rightarrow>
                    if accepted then (g, Reply StatusOK (SBridge (sb_Name sb) c))
                    else (g\<lparr>ss_hub := conn_close c (ss_hub g)\<rparr>, Reply StatusOK SNone))))"

text \<open>\<open>ServeSupervisor\<close> takes the connection over before it registers the control stream.\<close>

definition handleSupervisorConnect :: "bool \<Rightarrow> Request \<Rightarrow> Principal \<Rightarrow> ssh_state \<Rightarrow> ssh_state \<times> ssh_payload answer" where
  "handleSupervisorConnect accepted r p g =
     (if p_Kind p \<noteq> PrincipalSandbox \<or> p_Sandbox p \<noteq> QueryGet r ''sandbox''
      then (g, Error StatusForbidden ''supervisor token required'')
      else if \<not> accepted then (g, Reply StatusOK SNone)
      else (g\<lparr>ss_hub := ServeSupervisor_start (p_Sandbox p) (ss_hub g)\<rparr>, Reply StatusOK (SSupervisor (p_Sandbox p))))"

definition handleSupervisorRelay :: "relayproto \<Rightarrow> Request \<Rightarrow> Principal \<Rightarrow> ssh_state \<Rightarrow> ssh_state \<times> ssh_payload answer" where
  "handleSupervisorRelay rp r p g =
     (if p_Kind p \<noteq> PrincipalSandbox then (g, Error StatusForbidden ''supervisor token required'')
      else
        let channel = Trim (TrimPrefix (rq_Path r) (rp_PathSupervisorRelay rp)) ''/'' in
        if channel = [] then (g, Error StatusBadRequest ''channel required'')
        else
          (case ServeRelay_take (p_Sandbox p) channel (ss_hub g) of
             None \<Rightarrow> (g, Error StatusNotFound ''unknown relay channel'')
           | Some h \<Rightarrow> (g\<lparr>ss_hub := h\<rparr>, Reply StatusOK (SRelay (p_Sandbox p) channel))))"

section \<open>Exec\<close>

text \<open>\<open>client\<close> is the SSH client for a sandbox; \<open>deadline d\<close> whether a timeout of \<open>d\<close> expired.\<close>

definition handle_exec ::
    "(string \<Rightarrow> ssh_client) \<Rightarrow> (duration \<Rightarrow> bool) \<Rightarrow> env \<Rightarrow> string + string list \<times> int \<Rightarrow> string \<Rightarrow> ssh_state \<Rightarrow> ssh_state \<times> ssh_payload answer" where
  "handle_exec client deadline en body name g =
     (case body of
        Inl _ \<Rightarrow> (g, Error StatusBadRequest ''argv required'')
      | Inr (argv, timeoutSec) \<Rightarrow>
          if argv = [] then (g, Error StatusBadRequest ''argv required'')
          else
            (case resolveSandbox (en_order en 0) name (ss_store g) of
               None \<Rightarrow> (g, Error StatusNotFound ''sandbox not found'')
             | Some sb \<Rightarrow>
                 (case execOverRelay (client (sb_Name sb)) argv of
                    (_, _, Some x) \<Rightarrow> (g, Error (exec_status (deadline (exec_timeout timeoutSec)) x) err_text)
                  | (out, code, None) \<Rightarrow> (g, Reply StatusOK (SExec code out)))))"

definition handleLegacyRelay ::
    "(string \<Rightarrow> ssh_client) \<Rightarrow> (duration \<Rightarrow> bool) \<Rightarrow> env \<Rightarrow> Request \<Rightarrow> string + string list \<times> int \<Rightarrow> ssh_state \<Rightarrow> ssh_state \<times> ssh_payload answer" where
  "handleLegacyRelay client deadline en r body g =
     (case Cut (Trim (TrimPrefix (rq_Path r) ''/v1/relay/'') ''/'') CHR ''/'' of
        (name, action, ok) \<Rightarrow>
          if \<not> ok \<or> name = [] then (g, Error StatusBadRequest ''bad path'')
          else if action = ''exec'' then
            (if rq_Method r \<noteq> MethodPost then (g, not_allowed) else handle_exec client deadline en body name g)
          else if action = ''poll'' \<or> action = ''result'' then
            (g, Error StatusGone ''whaleshell-agent long-poll relay was removed; exec now runs over the supervisor SSH relay'')
          else (g, Error StatusNotFound ''unknown action''))"

text \<open>The subpaths of a sandbox that this API owns; \<open>None\<close> is the result \<open>false\<close>.\<close>

definition sandboxSubpath ::
    "(string \<Rightarrow> string) \<Rightarrow> duration \<Rightarrow> (string \<Rightarrow> ssh_client) \<Rightarrow> (duration \<Rightarrow> bool) \<Rightarrow> env \<Rightarrow> Request \<Rightarrow> Principal \<Rightarrow>
     string + string list \<times> int \<Rightarrow> string \<Rightarrow> string \<Rightarrow> ssh_state \<Rightarrow> (ssh_state \<times> ssh_payload answer) option" where
  "sandboxSubpath H ttl client deadline en r p body name sub g =
     (if sub = ''ssh-session'' then
        Some (if rq_Method r \<noteq> MethodPost then (g, not_allowed) else create_session H ttl en r p name g)
      else if sub = ''supervisor-token'' then
        Some (if rq_Method r \<noteq> MethodPost then (g, not_allowed) else issue_sandbox_token H en name g)
      else if sub = ''exec'' then
        Some (if rq_Method r \<noteq> MethodPost then (g, not_allowed) else handle_exec client deadline en body name g)
      else None)"

end
