(* ===== verification/Edge.thy ===== *)
theory Edge
  imports Http Store_Records
begin

text \<open>
  \<open>internal/httpapi/edge.go\<close>: the router in front of the control plane, which proxies
  \<open>*.openshell.localhost\<close> and \<open>*.whaleshell.localhost\<close> to registered services. Where a request
  goes is the value of \<open>withEdgeRouter\<close>; whether \<open>url.Parse\<close> accepts the backend's address is an
  argument. The message for an unknown service has the name without the quotes and escapes of \<open>%q\<close>.
\<close>

section \<open>The router\<close>

definition edgeSuffixOpenShell :: string where
  "edgeSuffixOpenShell = ''.openshell.localhost''"

definition edgeSuffixOSG :: string where
  "edgeSuffixOSG = ''.whaleshell.localhost''"

fun edge_suffix_loop :: "string list \<Rightarrow> string \<Rightarrow> string option" where
  "edge_suffix_loop [] host = None"
| "edge_suffix_loop (suf # sufs) host =
     (if HasSuffix host suf
      then let name = TrimSuffix host suf in
           if name = [] \<or> CHR ''.'' \<in> set name then None else Some name
      else edge_suffix_loop sufs host)"

definition edgeServiceName :: "string \<Rightarrow> string option" where
  "edgeServiceName host = edge_suffix_loop [edgeSuffixOpenShell, edgeSuffixOSG] (ToLower (TrimSpace host))"

datatype edge_result = EdgeNext | EdgeError nat string | EdgeProxy string int

definition backend_host :: "ServiceRecord \<Rightarrow> string" where
  "backend_host svc = (let h = TrimSpace (svc_BackendHost svc) in if h = [] then ''127.0.0.1'' else h)"

definition backend_port :: "ServiceRecord \<Rightarrow> int" where
  "backend_port svc = (if svc_BackendPort svc \<le> 0 then svc_Port svc else svc_BackendPort svc)"

definition withEdgeRouter :: "(string \<Rightarrow> int \<Rightarrow> bool) \<Rightarrow> Request \<Rightarrow> Store \<Rightarrow> edge_result" where
  "withEdgeRouter url_ok r st =
     (case edgeServiceName (host_only (rq_Host r)) of
        None \<Rightarrow> EdgeNext
      | Some name \<Rightarrow>
          (case GetService st name of
             None \<Rightarrow> EdgeError StatusNotFound (''service '' @ name @ '' not exposed'')
           | Some svc \<Rightarrow>
               if backend_port svc \<le> 0 then EdgeError StatusBadGateway ''service has no backend port''
               else if \<not> url_ok (backend_host svc) (backend_port svc) then EdgeError StatusBadGateway ''bad backend address''
               else EdgeProxy (backend_host svc) (backend_port svc)))"

section \<open>Lemmas\<close>

lemma edge_suffix_loop_dot: "edge_suffix_loop sufs host = Some name \<Longrightarrow> name \<noteq> [] \<and> CHR ''.'' \<notin> set name"
  by (induction sufs host rule: edge_suffix_loop.induct) (auto simp: Let_def split: if_splits)

lemma edge_suffix_loop_host:
  "edge_suffix_loop sufs host = Some name \<Longrightarrow> \<exists>suf\<in>set sufs. host = name @ suf"
proof (induction sufs host rule: edge_suffix_loop.induct)
  case (2 suf sufs host)
  show ?case
  proof (cases "HasSuffix host suf")
    case True
    then obtain t where "host = t @ suf" by (rule HasSuffixE)
    with 2 True show ?thesis by (auto simp: Let_def split: if_splits)
  next
    case False
    with 2 show ?thesis by auto
  qed
qed simp

text \<open>No name without a dot puts one suffix behind the other.\<close>

lemma openshell_not_osg: "\<not> HasSuffix (n @ edgeSuffixOSG) edgeSuffixOpenShell"
proof
  assume "HasSuffix (n @ edgeSuffixOSG) edgeSuffixOpenShell"
  then obtain t where "n @ edgeSuffixOSG = t @ edgeSuffixOpenShell" by (rule HasSuffixE)
  then have "rev (n @ edgeSuffixOSG) = rev (t @ edgeSuffixOpenShell)" by simp
  then show False by (simp add: edgeSuffixOSG_def edgeSuffixOpenShell_def)
qed

lemma edgeServiceName_service:
  assumes "n \<noteq> []" "CHR ''.'' \<notin> set n" "suf \<in> {edgeSuffixOpenShell, edgeSuffixOSG}"
    "ToLower (TrimSpace host) = n @ suf"
  shows "edgeServiceName host = Some n"
proof -
  have same: "HasSuffix (n @ suf) suf" by (simp add: HasSuffix_def suffix_def)
  have "\<not> HasSuffix (n @ suf) edgeSuffixOpenShell" if "suf = edgeSuffixOSG"
    using openshell_not_osg that by simp
  then show ?thesis
    unfolding edgeServiceName_def assms(4) using assms(1-3) same by auto
qed

section \<open>Examples\<close>

definition ex_service :: ServiceRecord where
  "ex_service = \<lparr>svc_Name = ''web'', svc_Sandbox = ''demo'', svc_Port = 8080, svc_BackendHost = [],
     svc_BackendPort = 0, svc_UpdatedAt = unix_epoch\<rparr>"

definition ex_service_store :: Store where
  "ex_service_store = put_service (unix_epoch, ex_flush) ''web'' ex_service ex_store"

definition ex_edge_request :: "string \<Rightarrow> Request" where
  "ex_edge_request host = \<lparr>rq_Method = MethodGet, rq_Path = ''/'', rq_Query = [], rq_Header = [],
     rq_Host = host, rq_RemoteAddr = ''127.0.0.1:5000'', rq_TLS = False\<rparr>"

lemma ex_service_get: "GetService ex_service_store ''web'' = Some ex_service"
  unfolding ex_service_store_def
  using services.get_put_same [where s = ex_store and e = "(unix_epoch, ex_flush)" and k = "''web''" and v = ex_service]
  by (simp add: ex_service_def)

section \<open>Properties\<close>

text \<open>
  C28: the edge router reaches a service under its name. A request for \<open>NAME.SUFFIX\<close>, with
  or without a port, in any case, goes to the backend of the service registered as \<open>NAME\<close>: its
  backend host or 127.0.0.1, its backend port or the service's own port. \<open>NAME\<close> is lower case and
  without dots, and the service has a positive port and an address \<open>url.Parse\<close> accepts; a service
  registered under another name cannot be reached (below).
\<close>
theorem edge_reaches_service:
  assumes "GetService st n = Some svc" "n \<noteq> []" "CHR ''.'' \<notin> set n"
    and "suf \<in> {edgeSuffixOpenShell, edgeSuffixOSG}"
    and "ToLower (TrimSpace host) = n @ suf" "\<forall>c\<in>set host. c \<notin> {CHR '':'', CHR ''['', CHR '']''}"
    and "\<forall>c\<in>set port. c \<notin> {CHR '':'', CHR ''['', CHR '']''}"
    and "rq_Host r = host \<or> rq_Host r = host @ CHR '':'' # port"
    and "backend_port svc > 0" "url_ok (backend_host svc) (backend_port svc)"
  shows "withEdgeRouter url_ok r st = EdgeProxy (backend_host svc) (backend_port svc)"
proof -
  have "host_only (rq_Host r) = host"
    using assms(8) host_only_name(1) [OF assms(6)] host_only_name(2) [OF assms(6,7)] by (elim disjE) (simp_all only:)
  then show ?thesis
    using assms(9,10) by (simp add: withEdgeRouter_def edgeServiceName_service [OF assms(2-5)] assms(1))
qed

theorem edge_reaches_service_witness:
  "withEdgeRouter (\<lambda>h p. True) (ex_edge_request ''Web.Whaleshell.localhost:8443'') ex_service_store = EdgeProxy ''127.0.0.1'' 8080"
proof -
  have b: "backend_host ex_service = ''127.0.0.1''" "backend_port ex_service = 8080"
    by (simp_all add: backend_host_def backend_port_def ex_service_def TrimSpace_def TrimLeftSpace_def TrimRightSpace_def)
  have "ToLower (TrimSpace ''Web.Whaleshell.localhost'') = ''web'' @ edgeSuffixOSG" by code_simp
  from edge_reaches_service [OF ex_service_get _ _ _ this, of "''8443''" "ex_edge_request ''Web.Whaleshell.localhost:8443''" "\<lambda>h p. True"]
  show ?thesis by (simp add: b ex_edge_request_def)
qed

text \<open>
  The restriction to lower-case names without dots is needed: the registry keeps names as they are
  given, the router looks for the lower-cased label in front of the suffix, so no request at all is
  proxied to a service whose name has an upper-case letter or a dot.
\<close>

lemma edge_misses_other_names:
  assumes "edgeServiceName host = Some n"
  shows "CHR ''.'' \<notin> set n \<and> (\<exists>s suf. n @ suf = ToLower s)"
  using edge_suffix_loop_dot edge_suffix_loop_host assms unfolding edgeServiceName_def by metis

text \<open>
  C29: the edge router takes only its own hosts and proxies to registered services only. A request
  that is not passed on to the control plane and its authentication has a host that is a name
  without dots in front of one of the two suffixes; and if it is proxied, a service of that name
  is registered and the target is that service's backend, with a positive port.
\<close>
theorem edge_proxies_only_services:
  assumes "withEdgeRouter url_ok r st \<noteq> EdgeNext"
  shows "\<exists>n suf. suf \<in> {edgeSuffixOpenShell, edgeSuffixOSG} \<and> ToLower (TrimSpace (host_only (rq_Host r))) = n @ suf \<and>
       n \<noteq> [] \<and> CHR ''.'' \<notin> set n \<and>
       (\<forall>h p. withEdgeRouter url_ok r st = EdgeProxy h p \<longrightarrow>
          (\<exists>svc. GetService st n = Some svc \<and> h = backend_host svc \<and> p = backend_port svc \<and> p > 0))"
proof -
  obtain n where n: "edgeServiceName (host_only (rq_Host r)) = Some n"
    using assms by (cases "edgeServiceName (host_only (rq_Host r))") (simp_all add: withEdgeRouter_def)
  note l = n [unfolded edgeServiceName_def]
  obtain suf where "suf \<in> {edgeSuffixOpenShell, edgeSuffixOSG}" "ToLower (TrimSpace (host_only (rq_Host r))) = n @ suf"
    using edge_suffix_loop_host [OF l] by auto
  moreover have "\<exists>svc. GetService st n = Some svc \<and> h = backend_host svc \<and> p = backend_port svc \<and> p > 0"
    if "withEdgeRouter url_ok r st = EdgeProxy h p" for h p
    using that by (auto simp: withEdgeRouter_def n split: option.splits if_splits)
  ultimately show ?thesis using edge_suffix_loop_dot [OF l] by blast
qed

theorem edge_proxies_only_services_witness:
  "withEdgeRouter (\<lambda>h p. True) (ex_edge_request ''web.openshell.localhost'') ex_service_store = EdgeProxy ''127.0.0.1'' 8080 \<and>
   (\<exists>svc. GetService ex_service_store ''web'' = Some svc \<and> ''127.0.0.1'' = backend_host svc \<and> 8080 = backend_port svc)"
proof -
  let ?r = "ex_edge_request ''web.openshell.localhost''"
  have host: "ToLower (TrimSpace (host_only (rq_Host ?r))) = ''web'' @ edgeSuffixOpenShell" by code_simp
  then have "edgeServiceName (host_only (rq_Host ?r)) = Some ''web''"
    by (intro edgeServiceName_service [of _ edgeSuffixOpenShell]) simp_all
  moreover have "backend_host ex_service = ''127.0.0.1''" "backend_port ex_service = 8080"
    by (simp_all add: backend_host_def backend_port_def ex_service_def TrimSpace_def TrimLeftSpace_def TrimRightSpace_def)
  ultimately have proxied: "withEdgeRouter (\<lambda>h p. True) ?r ex_service_store = EdgeProxy ''127.0.0.1'' 8080"
    by (simp add: withEdgeRouter_def ex_service_get)
  then have "withEdgeRouter (\<lambda>h p. True) ?r ex_service_store \<noteq> EdgeNext" by simp
  from edge_proxies_only_services [OF this] obtain n suf where
    n: "suf \<in> {edgeSuffixOpenShell, edgeSuffixOSG}" "''web'' @ edgeSuffixOpenShell = n @ suf" "CHR ''.'' \<notin> set n"
    and svc: "\<exists>svc. GetService ex_service_store n = Some svc \<and> ''127.0.0.1'' = backend_host svc \<and> 8080 = backend_port svc"
    using proxied unfolding host by blast
  have "takeWhile (\<lambda>c. c \<noteq> CHR ''.'') (n @ suf) = n"
    using n(1,3) by (subst takeWhile_append2) (auto simp: edgeSuffixOpenShell_def edgeSuffixOSG_def)
  with n(2) have "n = ''web''" by (simp add: edgeSuffixOpenShell_def flip: n(2))
  with svc proxied show ?thesis by simp
qed

end
