(* ===== verification/Store_Ops.thy ===== *)
theory Store_Ops
  imports Store_Auth Store_Records Store_Proposals
begin

text \<open>
  The store as a state machine: every method of \<open>Store\<close> that changes it is one
  constructor of \<open>store_op\<close>, with the arguments and the environment of the call. A history
  of the gateway's store is a list of such steps, in the order in which they took the mutex.
  The invariants of the state are proved per operation and lifted to every reachable store;
  revocation of a session and no write to a nil map are properties of whole histories, which
  for the invariant and the nil maps include restarts of the gateway on its own directory.
\<close>

datatype store_op =
    DoUpsertSandbox time flush_env Sandbox
  | DoDeleteSandbox flush_env string
  | DoSetBasePolicy time flush_env string string
  | DoSetGlobalPolicy flush_env string
  | DoUpsertProfile flush_env string string
  | DoDeleteProfile flush_env string
  | DoUpsertProvider flush_env ProviderRecord
  | DoDeleteProvider flush_env string
  | DoSetInferenceRoute flush_env InferenceRoute
  | DoClearInferenceRoute flush_env
  | DoSetSetting flush_env string string
  | DoDeleteSetting flush_env string
  | DoUpsertTemplate flush_env TemplateRecord
  | DoDeleteTemplate flush_env string
  | DoEnsureAuthToken "string option" flush_env
  | DoWriteAuthTokenFile "string option" flush_env token_file_env
  | DoAttachProvider time flush_env string string
  | DoDetachProvider time flush_env string string
  | DoIssueSandboxToken "string option" time flush_env string
  | DoCreateSSHSession "string option" "string option" time flush_env string string duration
  | DoRevokeSSHSession flush_env string
  | DoReapSSHSessions time flush_env
  | DoUpsertService time flush_env ServiceRecord
  | DoDeleteService flush_env string
  | DoUpsertWorkspace time flush_env WorkspaceRecord
  | DoDeleteWorkspace flush_env string
  | DoWorkspaceMemberUpsert time flush_env string string string
  | DoWorkspaceMemberRemove time flush_env string string
  | DoPutProposal time time flush_env Proposal
  | DoDecideProposal time time flush_env string string string

text \<open>The error of a call that also returns a value.\<close>

fun drop_value :: "'s \<times> (err + 'a) \<Rightarrow> 's \<times> err option" where
  "drop_value (s, Inl x) = (s, Some x)"
| "drop_value (s, Inr _) = (s, None)"

lemma fst_drop_value [simp]: "fst (drop_value r) = fst r"
  by (cases r rule: drop_value.cases) simp_all

fun apply_op :: "(string \<Rightarrow> string) \<Rightarrow> store_op \<Rightarrow> Store \<Rightarrow> Store \<times> err option" where
  "apply_op H (DoUpsertSandbox now e sb) s = UpsertSandbox now e sb s"
| "apply_op H (DoDeleteSandbox e name) s = DeleteSandbox e name s"
| "apply_op H (DoSetBasePolicy now e sandbox yaml) s = SetBasePolicy now e sandbox yaml s"
| "apply_op H (DoSetGlobalPolicy e yaml) s = SetGlobalPolicy e yaml s"
| "apply_op H (DoUpsertProfile e i yaml) s = UpsertProfile e i yaml s"
| "apply_op H (DoDeleteProfile e i) s = DeleteProfile e i s"
| "apply_op H (DoUpsertProvider e rec) s = UpsertProvider e rec s"
| "apply_op H (DoDeleteProvider e name) s = DeleteProvider e name s"
| "apply_op H (DoSetInferenceRoute e r) s = SetInferenceRoute e r s"
| "apply_op H (DoClearInferenceRoute e) s = ClearInferenceRoute e s"
| "apply_op H (DoSetSetting e k v) s = SetSetting e k v s"
| "apply_op H (DoDeleteSetting e k) s = DeleteSetting e k s"
| "apply_op H (DoUpsertTemplate e t) s = UpsertTemplate e t s"
| "apply_op H (DoDeleteTemplate e name) s = DeleteTemplate e name s"
| "apply_op H (DoEnsureAuthToken rnd e) s = drop_value (EnsureAuthToken rnd e s)"
| "apply_op H (DoWriteAuthTokenFile rnd e t) s = drop_value (WriteAuthTokenFile rnd e t s)"
| "apply_op H (DoAttachProvider now e sandbox prov) s = AttachProvider now e sandbox prov s"
| "apply_op H (DoDetachProvider now e sandbox prov) s = DetachProvider now e sandbox prov s"
| "apply_op H (DoIssueSandboxToken rnd now e name) s = drop_value (IssueSandboxToken H rnd now e name s)"
| "apply_op H (DoCreateSSHSession rnd1 rnd2 now e sandbox subject ttl) s =
     drop_value (CreateSSHSession H rnd1 rnd2 now e sandbox subject ttl s)"
| "apply_op H (DoRevokeSSHSession e i) s = RevokeSSHSession e i s"
| "apply_op H (DoReapSSHSessions now e) s = (case ReapSSHSessions now e s of (s', n, x) \<Rightarrow> (s', x))"
| "apply_op H (DoUpsertService now e rec) s = UpsertService now e rec s"
| "apply_op H (DoDeleteService e name) s = DeleteService e name s"
| "apply_op H (DoUpsertWorkspace now e ws) s = UpsertWorkspace now e ws s"
| "apply_op H (DoDeleteWorkspace e name) s = DeleteWorkspace e name s"
| "apply_op H (DoWorkspaceMemberUpsert now e name subject role) s = WorkspaceMemberUpsert now e name subject role s"
| "apply_op H (DoWorkspaceMemberRemove now e name subject) s = WorkspaceMemberRemove now e name subject s"
| "apply_op H (DoPutProposal now now' e p) s = PutProposal now now' e p s"
| "apply_op H (DoDecideProposal now now' e i status reason) s =
     drop_value (DecideProposal now now' e i status reason s)"

definition run_ops :: "(string \<Rightarrow> string) \<Rightarrow> store_op list \<Rightarrow> Store \<Rightarrow> Store" where
  "run_ops H ops s = fold (\<lambda>x s. fst (apply_op H x s)) ops s"

section \<open>Invariants of the state\<close>

text \<open>Every record is filed under its own name or id.\<close>

definition keys_ok :: "State \<Rightarrow> bool" where
  "keys_ok st \<longleftrightarrow>
     (\<forall>k v. mget (st_Sandboxes st) k = Some v \<longrightarrow> sb_Name v = k) \<and>
     (\<forall>k v. mget (st_Profiles st) k = Some v \<longrightarrow> prof_ID v = k) \<and>
     (\<forall>k v. mget (st_Providers st) k = Some v \<longrightarrow> prov_Name v = k) \<and>
     (\<forall>k v. mget (st_Templates st) k = Some v \<longrightarrow> tpl_Name v = k) \<and>
     (\<forall>k v. mget (st_Services st) k = Some v \<longrightarrow> svc_Name v = k) \<and>
     (\<forall>k v. mget (st_Workspaces st) k = Some v \<longrightarrow> ws_Name v = k) \<and>
     (\<forall>k v. mget (st_Proposals st) k = Some v \<longrightarrow> pr_ID v = k) \<and>
     (\<forall>k v. mget (st_SSHSessions st) k = Some v \<longrightarrow> ssh_ID v = k)"

text \<open>Supervisor tokens and SSH sessions belong to sandboxes that exist.\<close>

definition refs_ok :: "State \<Rightarrow> bool" where
  "refs_ok st \<longleftrightarrow>
     (\<forall>k v. mget (st_SandboxTokens st) k = Some v \<longrightarrow> mget (st_Sandboxes st) k \<noteq> None) \<and>
     (\<forall>k v. mget (st_SSHSessions st) k = Some v \<longrightarrow> mget (st_Sandboxes st) (ssh_Sandbox v) \<noteq> None)"

text \<open>Proposals have an id, a sandbox and a status; an inference route has a timeout.\<close>

definition vals_ok :: "State \<Rightarrow> bool" where
  "vals_ok st \<longleftrightarrow>
     (\<forall>k v. mget (st_Proposals st) k = Some v \<longrightarrow> pr_ID v \<noteq> [] \<and> pr_Sandbox v \<noteq> [] \<and> pr_Status v \<noteq> []) \<and>
     (\<forall>r. st_Inference st = Some r \<longrightarrow> inf_TimeoutSec r > 0)"

definition state_inv :: "State \<Rightarrow> bool" where
  "state_inv st \<longleftrightarrow> maps_ok st \<and> keys_ok st \<and> refs_ok st \<and> vals_ok st"

lemma state_inv_header [simp]:
  "state_inv (st\<lparr>st_UpdatedAt := t\<rparr>) \<longleftrightarrow> state_inv st"
  "state_inv (st\<lparr>st_GatewayID := g\<rparr>) \<longleftrightarrow> state_inv st"
  unfolding state_inv_def maps_ok_def keys_ok_def refs_ok_def vals_ok_def by simp_all

lemmas op_defs =
  UpsertSandbox_eq DeleteSandbox_def SetBasePolicy_eq SetGlobalPolicy_def UpsertProfile_def
  DeleteProfile_def UpsertProvider_def DeleteProvider_def SetInferenceRoute_def
  ClearInferenceRoute_def SetSetting_def DeleteSetting_def UpsertTemplate_def DeleteTemplate_def
  EnsureAuthToken_def AttachProvider_eq DetachProvider_eq IssueSandboxToken_def
  CreateSSHSession_def RevokeSSHSession_eq UpsertService_def
  DeleteService_def UpsertWorkspace_def DeleteWorkspace_def WorkspaceMemberUpsert_eq
  WorkspaceMemberRemove_eq PutProposal_def DecideProposal_eq newSecret_def

lemma WriteAuthTokenFile_state:
  "state (fst (WriteAuthTokenFile rnd e t s)) = state (fst (EnsureAuthToken rnd e s))"
  by (auto simp: WriteAuthTokenFile_def Let_def split: prod.split sum.split)

lemma Reap_fst:
  "fst (case ReapSSHSessions now e s of (s', n, x) \<Rightarrow> (s', x)) =
     (let kept = mkeep (\<lambda>_ sess. \<not> (ssh_Revoked sess \<or> session_expired now sess)) (st_SSHSessions (state s)) in
      if mlen (st_SSHSessions (state s)) - mlen kept = 0 then s
      else fst (save e ((state s)\<lparr>st_SSHSessions := kept\<rparr>) s))"
  by (simp add: ReapSSHSessions_def Let_def split: prod.split)

lemma apply_op_maps_ok:
  assumes "maps_ok (state s)"
  shows "maps_ok (state (fst (apply_op H x s)))"
  using assms
  by (cases x)
     (simp_all add: op_defs WriteAuthTokenFile_state Reap_fst maps_ok_def Let_def flush save_result
       split: option.split)


lemma apply_op_keys_ok:
  assumes "maps_ok (state s)" and "keys_ok (state s)"
  shows "keys_ok (state (fst (apply_op H x s)))"
  using assms
  by (cases x)
     (auto simp: op_defs WriteAuthTokenFile_state Reap_fst maps_ok_def keys_ok_def Let_def flush gomap save_result
       split: option.splits if_splits)

lemma apply_op_refs_ok:
  assumes "maps_ok (state s)" and "refs_ok (state s)"
  shows "refs_ok (state (fst (apply_op H x s)))"
  using assms
  by (cases x)
     (auto simp: op_defs WriteAuthTokenFile_state Reap_fst maps_ok_def refs_ok_def Let_def flush gomap save_result
       split: option.splits if_splits)

lemma apply_op_vals_ok:
  assumes "maps_ok (state s)" and "vals_ok (state s)"
  shows "vals_ok (state (fst (apply_op H x s)))"
  using assms
  by (cases x)
     (auto simp: op_defs WriteAuthTokenFile_state Reap_fst maps_ok_def vals_ok_def Let_def flush gomap save_result
       split: option.splits if_splits)

lemma apply_op_inv: "state_inv (state s) \<Longrightarrow> state_inv (state (fst (apply_op H x s)))"
  by (simp add: state_inv_def apply_op_maps_ok apply_op_keys_ok apply_op_refs_ok apply_op_vals_ok)

section \<open>What is on disk\<close>

text \<open>An operation leaves \<open>state.json\<close> as it was or writes the state it leaves in memory.\<close>

definition synced :: "Store \<Rightarrow> Store \<Rightarrow> bool" where
  "synced s s' \<longleftrightarrow> fs_files (disk s') State_json = fs_files (disk s) State_json \<or>
     fs_files (disk s') State_json =
       Some \<lparr>f_content = JsonDoc (MarshalState (state s')), f_mode = owner_rw\<rparr>"

lemma synced_refl [simp]: "synced s s" "synced s (s\<lparr>state := st\<rparr>)"
  by (simp_all add: synced_def)

lemma synced_flush: "synced s (fst (flushLocked e s))"
  by (cases "flush_ok e") (simp_all add: synced_def flush_file_ok flush_file_err flush)

lemma synced_save [simp]: "synced s (fst (save e st s))" "synced s (fst (save e st (s\<lparr>state := st'\<rparr>)))"
  using synced_flush [of "s\<lparr>state := st\<rparr>" e] by (simp_all add: save_def synced_def)

lemma WriteAuthTokenFile_synced: "synced s (fst (WriteAuthTokenFile rnd e t s))"
proof -
  have "synced s (fst (EnsureAuthToken rnd e s))"
    by (auto simp: EnsureAuthToken_def save_result split: option.split)
  then show ?thesis
    by (auto simp: WriteAuthTokenFile_def Let_def synced_def WriteFile_other Chmod_def Rename_def
        split: prod.splits sum.splits)
qed

lemma apply_op_synced: "synced s (fst (apply_op H x s))"
  by (cases x)
     (simp_all add: op_defs WriteAuthTokenFile_synced Reap_fst Let_def save_result split: option.split)

text \<open>The state file, if there is one, was written from a state that satisfies the invariant.\<close>

definition file_inv :: "fs \<Rightarrow> bool" where
  "file_inv d \<longleftrightarrow> (\<forall>f. fs_files d State_json = Some f \<longrightarrow>
     (\<exists>st. f_content f = JsonDoc (MarshalState st) \<and> state_inv st))"

definition store_inv :: "Store \<Rightarrow> bool" where
  "store_inv s \<longleftrightarrow> state_inv (state s) \<and> file_inv (disk s)"

lemma synced_inv: "synced s s' \<Longrightarrow> file_inv (disk s) \<Longrightarrow> state_inv (state s') \<Longrightarrow> store_inv s'"
  unfolding synced_def file_inv_def store_inv_def by force

lemma store_inv_file: "store_inv s \<Longrightarrow> file_inv (disk s)"
  by (simp add: store_inv_def)

lemma apply_op_store_inv: "store_inv s \<Longrightarrow> store_inv (fst (apply_op H x s))"
  using synced_inv [OF apply_op_synced] by (simp add: store_inv_def apply_op_inv)

text \<open>The invariant survives encoding, decoding and the nil guards of \<open>Open\<close>.\<close>

lemma wire_names [simp]:
  "sb_Name (wireSandbox sb) = sb_Name sb" "prov_Name (wireProvider p) = prov_Name p"
  "tpl_Name (wireTemplate t) = tpl_Name t"
  by (simp_all add: wireSandbox_def wireProvider_def wireTemplate_def)

lemma state_inv_reopened:
  assumes "state_inv st"
  shows "state_inv (fill_nil_maps g (UnmarshalState (MarshalState st) (initial_state g')))"
proof -
  from assms have m: "maps_ok st" by (simp add: state_inv_def)
  have "keys_ok (wireState st)"
    using assms by (auto simp: state_inv_def keys_ok_def wireState_def mget_fmmap)
  moreover have "refs_ok (wireState st)" "vals_ok (wireState st)"
    using assms unfolding state_inv_def refs_ok_def vals_ok_def wireState_def by (simp_all add: mget_fmmap)
  ultimately
  have "state_inv (wireState st)" using maps_ok_wire [OF m] by (simp add: state_inv_def)
  moreover have "fill_nil_maps g (wireState st) =
      (wireState st)\<lparr>st_GatewayID := if st_GatewayID st = [] then g else st_GatewayID st\<rparr>"
    using maps_ok_wire [OF m] by (simp add: fill_nil_maps_def maps_ok_def wireState_def)
  ultimately show ?thesis by (simp add: unmarshal_marshal [OF m])
qed

lemma state_inv_initial: "state_inv (initial_state g)"
  by (simp add: state_inv_def initial_state_def maps_ok_def keys_ok_def refs_ok_def vals_ok_def)

lemma Open_store_inv:
  assumes "file_inv d" and "Open e dir g d = Inr (s, x)"
  shows "store_inv s"
proof -
  from assms(2) obtain st where s: "s = fst (flushLocked (op_flush e)
      \<lparr>DataDir = dir, state = st, disk = d\<lparr>fs_dir := Some owner_rwx\<rparr>\<rparr>)"
    and st: "st = initial_state g \<or> (\<exists>f doc. fs_files d State_json = Some f \<and> f_content f = JsonDoc doc \<and>
      st = fill_nil_maps g (UnmarshalState doc (initial_state g)))"
    by (auto simp: Open_def Let_def split: if_splits option.splits content.splits
        dest!: arg_cong [of _ _ fst])
  from st assms(1) have "state_inv st"
    by (auto simp: file_inv_def state_inv_initial state_inv_reopened)
  then have inv: "state_inv (state s)"
    by (simp add: s flush)
  have "file_inv (d\<lparr>fs_dir := Some owner_rwx\<rparr>)"
    using assms(1) by (simp add: file_inv_def)
  with synced_inv [OF synced_flush _ inv [unfolded s]] show ?thesis
    by (simp add: s)
qed

section \<open>Histories\<close>

text \<open>
  The life of a data directory: method calls, and restarts of the gateway, each of which opens
  whatever the directory holds at that moment with the arguments the new process has. A start
  that fails changes nothing in the directory, and the history goes on without it. A crash in
  the middle of a method is the method with a failing flush, followed by a restart.
\<close>

datatype life_op = Call store_op | Restart open_env string string

fun live :: "(string \<Rightarrow> string) \<Rightarrow> life_op \<Rightarrow> Store \<Rightarrow> Store" where
  "live H (Call x) s = fst (apply_op H x s)"
| "live H (Restart e dir g) s = (case Open e dir g (disk s) of Inl _ \<Rightarrow> s | Inr (s', _) \<Rightarrow> s')"

definition run_life :: "(string \<Rightarrow> string) \<Rightarrow> life_op list \<Rightarrow> Store \<Rightarrow> Store" where
  "run_life H ops s = fold (live H) ops s"

inductive store_step :: "(string \<Rightarrow> string) \<Rightarrow> Store \<Rightarrow> Store \<Rightarrow> bool" for H where
  store_step: "store_step H s (live H x s)"

inductive_cases store_stepE: "store_step H s t"

text \<open>Stores \<open>Open\<close> returns: from any readable directory, and from one without a state
  file.\<close>

definition opened :: "Store \<Rightarrow> bool" where
  "opened s \<longleftrightarrow> (\<exists>e dir g d x. Open e dir g d = Inr (s, x))"

definition fresh :: "Store \<Rightarrow> bool" where
  "fresh s \<longleftrightarrow> (\<exists>e dir g d x. fs_files d State_json = None \<and> Open e dir g d = Inr (s, x))"

lemma opened_state:
  assumes "Open e dir g d = Inr (s, x)"
  shows "maps_ok (state s)"
proof -
  from assms obtain s0 where s: "s = fst (flushLocked (op_flush e) s0)" and "maps_ok (state s0)"
    by (auto simp: Open_def Let_def maps_ok_fill maps_ok_initial split: if_splits option.splits content.splits
        dest!: arg_cong [of _ _ fst])
  then show ?thesis by (simp add: flush maps_ok_def)
qed

lemma fresh_inv: "fresh s \<Longrightarrow> store_inv s"
  unfolding fresh_def by (metis Open_store_inv file_inv_def option.distinct(1))

lemma live_maps_ok: "maps_ok (state s) \<Longrightarrow> maps_ok (state (live H x s))"
  by (cases x) (auto simp: apply_op_maps_ok intro: opened_state split: sum.split)

lemma live_store_inv: "store_inv s \<Longrightarrow> store_inv (live H x s)"
  by (cases x) (auto simp: apply_op_store_inv intro: Open_store_inv store_inv_file split: sum.split)

interpretation store_maps: transition_system opened "store_step H" "\<lambda>s. maps_ok (state s)" for H
  by unfold_locales (auto simp: opened_def intro: opened_state live_maps_ok elim!: store_stepE)

interpretation store_sys: transition_system fresh "store_step H" store_inv for H
  by unfold_locales (auto intro: fresh_inv live_store_inv elim!: store_stepE)

lemma reach_run_life: "reach start (store_step H) s \<Longrightarrow> reach start (store_step H) (run_life H ops s)"
  by (induction ops arbitrary: s) (auto simp: run_life_def intro: reach_step store_step)

lemma snd_drop_value [simp]: "snd (drop_value r) = Some x \<longleftrightarrow> snd r = Inl x"
  by (cases r rule: drop_value.cases) auto

lemma save_the_err: "\<not> flush_ok e \<Longrightarrow> the (snd (save e st s)) \<noteq> NilMapPanic"
  by (metis option.collapse save_err save_no_panic)

lemma EnsureAuthToken_no_panic: "snd (EnsureAuthToken rnd e s) \<noteq> Inl NilMapPanic"
  by (auto simp: EnsureAuthToken_def save_result save_the_err split: option.splits)

lemma WriteAuthTokenFile_no_panic: "snd (WriteAuthTokenFile rnd e t s) \<noteq> Inl NilMapPanic"
  using EnsureAuthToken_no_panic [of rnd e s]
  by (auto simp: WriteAuthTokenFile_def Let_def split: prod.splits sum.splits if_splits)

lemma Reap_no_panic: "snd (case ReapSSHSessions now e s of (s', n, x) \<Rightarrow> (s', x)) \<noteq> Some NilMapPanic"
  by (auto simp: ReapSSHSessions_def Let_def split: prod.splits if_splits dest: arg_cong [of _ _ snd])

lemma apply_op_no_panic:
  assumes "maps_ok (state s)"
  shows "snd (apply_op H x s) \<noteq> Some NilMapPanic"
  using assms
  by (cases x)
     (auto simp: op_defs maps_ok_def Let_def save_result save_the_err
       WriteAuthTokenFile_no_panic Reap_no_panic split: option.splits sum.splits if_splits)

text \<open>A step that creates an SSH session with the given token hash.\<close>

fun mints :: "(string \<Rightarrow> string) \<Rightarrow> string \<Rightarrow> store_op \<Rightarrow> bool" where
  "mints H h (DoCreateSSHSession (Some b) _ _ _ _ _ _) \<longleftrightarrow> HashToken H (EncodeToString b) = h"
| "mints H h _ \<longleftrightarrow> False"

text \<open>Every session with the given token hash is revoked.\<close>

definition all_revoked :: "string \<Rightarrow> State \<Rightarrow> bool" where
  "all_revoked h st \<longleftrightarrow>
     (\<forall>i x. mget (st_SSHSessions st) i = Some x \<longrightarrow> ssh_TokenHash x = h \<longrightarrow> ssh_Revoked x)"

lemma apply_op_all_revoked:
  assumes "all_revoked h (state s)" and "\<not> mints H h x"
  shows "all_revoked h (state (fst (apply_op H x s)))"
  using assms
  by (cases x)
     (auto simp: op_defs WriteAuthTokenFile_state Reap_fst all_revoked_def Let_def flush gomap save_result mget_nonnil
       split: option.splits if_splits)

lemma run_ops_all_revoked:
  "all_revoked h (state s) \<Longrightarrow> \<forall>x \<in> set ops. \<not> mints H h x \<Longrightarrow> all_revoked h (state (run_ops H ops s))"
  by (induction ops arbitrary: s) (simp_all add: run_ops_def apply_op_all_revoked)

section \<open>Properties\<close>

text \<open>
  C9: the state invariant. A gateway starts in a directory without a state file; whatever
  methods are then called, and however often the gateway is restarted on what the directory
  holds by then, with whatever arguments, disk failures and clock readings: every
  record is filed under its own name, every supervisor token and SSH session belongs to a
  registered sandbox, every proposal has an id, a sandbox and a status, and an inference
  route has a positive timeout.
\<close>

theorem store_invariant:
  assumes "Open e dir g d = Inr (s, x)" and "fs_files d State_json = None"
  shows "state_inv (state (run_life H ops s))"
proof -
  from assms have "fresh s" unfolding fresh_def by blast
  then have "reach fresh (store_step H) (run_life H ops s)"
    by (intro reach_run_life reach_start)
  then have "store_inv (run_life H ops s)" by (rule store_sys.reach_inv)
  then show ?thesis by (simp add: store_inv_def)
qed

definition ex_open :: open_env where
  "ex_open = \<lparr>op_mkdir_err = False, op_chmod_err = False, op_read_err = False, op_flush = ex_flush\<rparr>"

definition ex_dir :: fs where
  "ex_dir = \<lparr>fs_dir = None, fs_files = (\<lambda>_. None)\<rparr>"

definition ex_opened :: Store where
  "ex_opened = fst (flushLocked ex_flush
     \<lparr>DataDir = ''/data'', state = initial_state ''gw-1'', disk = ex_dir\<lparr>fs_dir := Some owner_rwx\<rparr>\<rparr>)"

lemma ex_open_dir: "Open ex_open ''/data'' ''gw-1'' ex_dir = Inr (ex_opened, None)"
  by (simp add: Open_def ex_open_def ex_dir_def ex_opened_def prod_eq_iff flush_err)

theorem store_invariant_witness:
  "state_inv (state (run_life (\<lambda>x. x)
     [Call (DoUpsertSandbox 5 ex_flush (ex_sandbox ''demo'')),
      Restart ex_open ''/data'' ''gw-2'',
      Call (DoCreateSSHSession (Some (ex_secret CHR ''s'')) (Some (ex_secret CHR ''i'')) 6 ex_flush ''demo'' [] Hour)]
     ex_opened))"
  by (rule store_invariant [OF ex_open_dir]) (simp add: ex_dir_def)

text \<open>
  C17: no write to a nil map. Every assignment \<open>m[k] = v\<close> of the store's methods panics when
  the map is nil. From whatever readable state file a store was opened, also one with null or
  missing members, no history of method calls and restarts makes a later method panic, although
  \<open>UpsertSandbox\<close> does not guard its write: \<open>Open\<close> fills every table, and no method sets one
  back to nil.
\<close>

theorem no_nil_map_panic:
  assumes "Open e dir g d = Inr (s, x)"
  shows "snd (apply_op H y (run_life H ops s)) \<noteq> Some NilMapPanic"
proof -
  from assms have "opened s" unfolding opened_def by blast
  then have "reach opened (store_step H) (run_life H ops s)"
    by (intro reach_run_life reach_start)
  then have "maps_ok (state (run_life H ops s))" by (rule store_maps.reach_inv)
  then show ?thesis by (rule apply_op_no_panic)
qed

theorem no_nil_map_panic_witness:
  "snd (apply_op (\<lambda>x. x) (DoUpsertSandbox 5 ex_flush (ex_sandbox ''demo''))
     (run_life (\<lambda>x. x) [Call (DoDeleteSandbox ex_flush ''demo''), Restart ex_open ''/data'' ''gw-2'']
     ex_opened))
   \<noteq> Some NilMapPanic"
  by (rule no_nil_map_panic [OF ex_open_dir])

text \<open>
  Revocation is permanent. Once \<open>RevokeSSHSession\<close> has marked the session of a token,
  the token never validates again, for any sandbox, at any time and after any further method
  calls, restarts of the clock included (unless one of them creates a new session whose token
  has the same hash).
\<close>

lemma revoked_session_stays_revoked:
  assumes "mget (st_SSHSessions (state s)) i = Some sess" and "ssh_TokenHash sess = HashToken H tok"
    and "unique_session_hashes (state s)"
    and "s' = run_ops H ops (fst (RevokeSSHSession e i s))"
    and "\<forall>x \<in> set ops. \<not> mints H (HashToken H tok) x"
    and "is_order ks (st_SSHSessions (state s'))"
  shows "snd (ValidateSSHSession H ks tok sandbox now s') \<noteq> None"
proof
  assume "snd (ValidateSSHSession H ks tok sandbox now s') = None"
  then obtain x where "ValidateSSHSession H ks tok sandbox now s' = (x, None)"
    by (cases "ValidateSSHSession H ks tok sandbox now s'") auto
  from ValidateSSHSession_sound [OF assms(6) this]
  obtain j where x: "mget (st_SSHSessions (state s')) j = Some x" "ssh_TokenHash x = HashToken H tok" "\<not> ssh_Revoked x"
    by blast
  have "all_revoked (HashToken H tok) (state (fst (RevokeSSHSession e i s)))"
    using assms(1-3) by (auto simp: all_revoked_def RevokeSSHSession_eq unique_session_hashes_def flush mget_mput mget_nonnil)
  from run_ops_all_revoked [OF this assms(5)] x show False
    by (auto simp: all_revoked_def assms(4))
qed

end
