(* ===== verification/Gateway.thy ===== *)
theory Gateway
  imports Startup Ssh_Api Edge Store_Ops Relay_Hub
begin

text \<open>
  The gateway as a whole, \<open>NewHandler\<close> of \<open>internal/httpapi/gateway.go\<close>: its state is the store,
  the secret store, the log hub and the relay hub; \<open>serve\<close> is what one request does, through the
  edge router, the authentication middleware, the multiplexer and the handler of its route. The
  packages outside the repository are the record \<open>packages\<close>, the settings \<open>gw_config\<close>; an
  \<open>incoming\<close> request comes with its decoded bodies and everything else the handler takes from
  outside while it runs. Requests that run at the same time are interleaved at the granularity of a
  request (the steps inside the relay hub are those of \<open>Relay_Hub\<close>).
\<close>

section \<open>State, packages and requests\<close>

record 'sec gateway =
  gw_store :: Store
  gw_sec :: 'sec
  gw_logs :: Hub
  gw_hub :: RelayHub

record ('doc, 'prof, 'np, 'sec) packages =
  pk_policy :: "('doc, 'prof) policy_lib"
  pk_rules :: "('doc, 'np) rule_lib"
  pk_secrets :: "'sec secrets_lib"
  pk_relay :: relayproto
  pk_hash :: "string \<Rightarrow> string"
  pk_parse_url :: "string \<Rightarrow> URL option"
  pk_url_ok :: "string \<Rightarrow> int \<Rightarrow> bool"
  pk_profiles :: string
  pk_loglevel :: "Request \<Rightarrow> unit answer"
  pk_kek :: "string \<times> bool \<times> string \<times> string"

record gw_config =
  gc_auth :: AuthOptions
  gc_oidc :: OIDCOptions
  gc_ttl :: duration
  gc_dataDir :: string

record incoming =
  in_req :: Request
  in_env :: env
  in_auth_order :: "string list"
  in_since :: time
  in_host :: host
  in_bodies :: bodies
  in_sandbox :: "string + Sandbox"
  in_inference :: "string + string \<times> string \<times> int"
  in_setting :: "string + string"
  in_template :: "string + TemplateRecord"
  in_service :: "string + ServiceRecord"
  in_workspace :: "string + string"
  in_member :: "string + string \<times> string"
  in_exec :: "string + string list \<times> int"
  in_opened :: "string \<Rightarrow> open_err + nat"
  in_upgrade :: bool
  in_accepted :: bool
  in_client :: "string \<Rightarrow> ssh_client"
  in_deadline :: "duration \<Rightarrow> bool"

datatype 'prof gw_payload =
    GNone
  | GHealth string time
  | GInfo string nat time string string string string int "string \<times> bool \<times> string \<times> string"
  | GSandboxes "Sandbox list"
  | GSandbox Sandbox
  | GOidc OIDCOptions
  | GYaml string
  | GLines "(string \<times> Line) list"
  | GFollow "(string \<times> Line) list"
  | GLogLevel
  | GParity parity_payload
  | GSsh ssh_payload
  | GPapi "'prof papi_payload"

datatype 'prof gw_result = Proxied string int | Redirected string | Answered "'prof gw_payload answer"

section \<open>Handlers of the state of one component\<close>

definition on_parity :: "'sec gateway \<Rightarrow> Store \<times> parity_payload answer \<Rightarrow> 'sec gateway \<times> 'prof gw_payload answer" where
  "on_parity g r = (g\<lparr>gw_store := fst r\<rparr>, map_answer GParity (snd r))"

definition ssh_view :: "'sec gateway \<Rightarrow> ssh_state" where
  "ssh_view g = \<lparr>ss_store = gw_store g, ss_hub = gw_hub g\<rparr>"

definition on_ssh :: "'sec gateway \<Rightarrow> ssh_state \<times> ssh_payload answer \<Rightarrow> 'sec gateway \<times> 'prof gw_payload answer" where
  "on_ssh g r = (g\<lparr>gw_store := ss_store (fst r), gw_hub := ss_hub (fst r)\<rparr>, map_answer GSsh (snd r))"

definition papi_view :: "'sec gateway \<Rightarrow> 'sec papi" where
  "papi_view g = \<lparr>pa_store = gw_store g, pa_sec = gw_sec g, pa_logs = gw_logs g\<rparr>"

definition on_papi :: "'sec gateway \<Rightarrow> 'sec papi \<times> 'prof papi_payload answer \<Rightarrow> 'sec gateway \<times> 'prof gw_payload answer" where
  "on_papi g r =
     (g\<lparr>gw_store := pa_store (fst r), gw_sec := pa_sec (fst r), gw_logs := pa_logs (fst r)\<rparr>, map_answer GPapi (snd r))"

section \<open>The handlers of \<open>gateway.go\<close>\<close>

definition handle_healthz :: "env \<Rightarrow> 'sec gateway \<Rightarrow> 'sec gateway \<times> 'prof gw_payload answer" where
  "handle_healthz en g = (g, Reply StatusOK (GHealth (st_GatewayID (Snapshot (gw_store g))) (en_now en 0)))"

definition handle_info ::
    "('doc, 'prof, 'np, 'sec) packages \<Rightarrow> gw_config \<Rightarrow> 'sec gateway \<Rightarrow> 'sec gateway \<times> 'prof gw_payload answer" where
  "handle_info pk cfg g =
     (let s = Snapshot (gw_store g); authMode = (if ao_OIDC (gc_auth cfg) \<noteq> None then ''oidc'' else ''local-dev'') in
      (g, Reply StatusOK (GInfo (st_GatewayID s) (mlen (st_Sandboxes s)) (st_UpdatedAt s) (gc_dataDir cfg) authMode
            (oi_Issuer (gc_oidc cfg))
            (''supervisor relay: '' @ rp_PathSupervisorConnect (pk_relay pk) @ '' + '' @ rp_PathSSHConnect (pk_relay pk))
            (gc_ttl cfg div Second) (pk_kek pk))))"

definition handle_sandboxes :: "env \<Rightarrow> Request \<Rightarrow> 'sec gateway \<Rightarrow> 'sec gateway \<times> 'prof gw_payload answer" where
  "handle_sandboxes en r g =
     (if rq_Method r = MethodGet
      then (g, Reply StatusOK (GSandboxes (map snd (mrange (en_order en 0) (st_Sandboxes (Snapshot (gw_store g)))))))
      else (g, not_allowed))"

definition handle_sandbox_item ::
    "env \<Rightarrow> Request \<Rightarrow> string + Sandbox \<Rightarrow> string \<Rightarrow> 'sec gateway \<Rightarrow> 'sec gateway \<times> 'prof gw_payload answer" where
  "handle_sandbox_item en r body name g =
     (if rq_Method r = MethodGet then
        (case GetSandbox (gw_store g) name of
           None \<Rightarrow> (g, Error StatusNotFound ''not found'')
         | Some sb \<Rightarrow> (g, Reply StatusOK (GSandbox sb)))
      else if rq_Method r = MethodPut then
        (case body of
           Inl x \<Rightarrow> (g, Error StatusBadRequest x)
         | Inr sb \<Rightarrow>
             (case store_reply StatusInternalServerError (Reply StatusNoContent GNone)
                     (UpsertSandbox (en_now en 0) (en_flush en 0) (sb\<lparr>sb_Name := name\<rparr>) (gw_store g)) of
                (st, ans) \<Rightarrow> (g\<lparr>gw_store := st\<rparr>, ans)))
      else if rq_Method r = MethodDelete then
        (case DeleteSandbox (en_flush en 0) name (gw_store g) of
           (st, Some _) \<Rightarrow> (g\<lparr>gw_store := st\<rparr>, Error StatusInternalServerError err_text)
         | (st, None) \<Rightarrow>
             (g\<lparr>gw_store := st, gw_hub := Disconnect name (gw_hub g), gw_logs := hub_Remove name (gw_logs g)\<rparr>,
              Reply StatusNoContent GNone))
      else (g, not_allowed))"

definition handle_sandbox ::
    "('doc, 'prof, 'np, 'sec) packages \<Rightarrow> gw_config \<Rightarrow> incoming \<Rightarrow> Principal \<Rightarrow> 'sec gateway
     \<Rightarrow> 'sec gateway \<times> 'prof gw_payload answer" where
  "handle_sandbox pk cfg i p g =
     (case sandbox_route (rq_Path (in_req i)) of
        BadName \<Rightarrow> (g, Error StatusBadRequest ''bad name'')
      | SandboxSub name sub \<Rightarrow>
          (case sandboxSubpath (pk_hash pk) (gc_ttl cfg) (in_client i) (in_deadline i) (in_env i) (in_req i) p (in_exec i)
                  name (Trim sub ''/'') (ssh_view g) of
             Some res \<Rightarrow> on_ssh g res
           | None \<Rightarrow> on_papi g (handleSandboxSubpath (pk_policy pk) (pk_rules pk) (pk_secrets pk) (pk_profiles pk) (in_env i)
                                  (in_since i) (in_req i) (in_bodies i) name sub (papi_view g)))
      | SandboxItem name \<Rightarrow> handle_sandbox_item (in_env i) (in_req i) (in_sandbox i) name g)"

definition handle_oidc :: "gw_config \<Rightarrow> Request \<Rightarrow> 'sec gateway \<Rightarrow> 'sec gateway \<times> 'prof gw_payload answer" where
  "handle_oidc cfg r g =
     (if rq_Method r \<noteq> MethodGet then (g, not_allowed)
      else if TrimSpace (oi_Issuer (gc_oidc cfg)) = [] then (g, Error StatusNotFound ''oidc not configured'')
      else (g, Reply StatusOK (GOidc (gc_oidc cfg))))"

text \<open>The snapshots of several sandboxes, one after the other.\<close>

fun fleet_lines :: "string list \<Rightarrow> Hub \<Rightarrow> Hub \<times> (string \<times> Line) list" where
  "fleet_lines [] h = (h, [])"
| "fleet_lines (n # ns) h =
     (case hub_Snapshot n 0 '''' '''' 200 h of
        (h1, lines) \<Rightarrow> (case fleet_lines ns h1 of (h2, rest) \<Rightarrow> (h2, map (\<lambda>ln. (n, ln)) lines @ rest)))"

text \<open>One round of the loop that follows several sandboxes; \<open>sent\<close> has the last time written of each.\<close>

fun fleet_round :: "string list \<Rightarrow> (string \<Rightarrow> time) \<Rightarrow> Hub \<Rightarrow> (string \<times> Line) list \<times> (string \<Rightarrow> time) \<times> Hub" where
  "fleet_round [] sent h = ([], sent, h)"
| "fleet_round (n # ns) sent h =
     (case hub_Snapshot n (sent n) '''' '''' 0 h of
        (h1, lines) \<Rightarrow>
          (case follow_pass (sent n) lines of
             (out, t) \<Rightarrow>
               (case fleet_round ns (sent(n := t)) h1 of
                  (rest, sent', h2) \<Rightarrow> (map (\<lambda>ln. (n, ln)) out @ rest, sent', h2))))"

text \<open>Following several sandboxes starts with a first round; the next ones follow every 500 ms,
  interleaved with other requests.\<close>

definition handle_logs :: "incoming \<Rightarrow> 'sec gateway \<Rightarrow> 'sec gateway \<times> 'prof gw_payload answer" where
  "handle_logs i g =
     (let r = in_req i; q = QueryGet r in
      if rq_Method r \<noteq> MethodGet then (g, not_allowed)
      else
        let names = (if q ''all'' = ''1'' \<or> q ''all'' = ''true''
                     then map fst (mrange (en_order (in_env i) 0) (st_Sandboxes (Snapshot (gw_store g))))
                     else map snd (filter (\<lambda>kv. fst kv = ''name'') (rq_Query r)));
            follow = (q ''follow'' = ''1'' \<or> q ''follow'' = ''true'') in
        if names = [] then (g, Error StatusBadRequest ''usage: /v1/logs?name=a&name=b or ?all=1'')
        else if follow \<and> length names = 1 then
          on_papi g (handleSandboxLogs (in_env i) (in_since i) r (in_bodies i) (names ! 0) (papi_view g))
        else if follow then
          (case fleet_round names (\<lambda>_. 0) (gw_logs g) of
             (lines, sent, h) \<Rightarrow> (g\<lparr>gw_logs := h\<rparr>, Reply StatusOK (GFollow lines)))
        else (case fleet_lines names (gw_logs g) of (h, lines) \<Rightarrow> (g\<lparr>gw_logs := h\<rparr>, Reply StatusOK (GLines lines))))"

definition handle_global_policy ::
    "('doc, 'prof) policy_lib \<Rightarrow> incoming \<Rightarrow> 'sec gateway \<Rightarrow> 'sec gateway \<times> 'prof gw_payload answer" where
  "handle_global_policy lib i g =
     (let r = in_req i in
      if rq_Method r = MethodGet then (g, Reply StatusOK (GYaml (GetGlobalPolicy (gw_store g))))
      else if rq_Method r = MethodPut then
        (case bd_raw (in_bodies i) of
           Inl x \<Rightarrow> (g, Error StatusBadRequest x)
         | Inr body \<Rightarrow>
             (case pl_Parse lib body of
                Inl x \<Rightarrow> (g, Error StatusBadRequest (''invalid policy: '' @ x))
              | Inr doc \<Rightarrow>
                  (case pl_Validate lib doc of
                     Some x \<Rightarrow> (g, Error StatusBadRequest (''invalid policy: '' @ x))
                   | None \<Rightarrow>
                       (case store_reply StatusInternalServerError (Reply StatusNoContent GNone)
                               (SetGlobalPolicy (en_flush (in_env i) 0) body (gw_store g)) of
                          (st, ans) \<Rightarrow> (g\<lparr>gw_store := st\<rparr>, ans)))))
      else (g, not_allowed))"

section \<open>Routes\<close>

datatype route =
    RtSSHConnect | RtSupervisorConnect | RtSupervisorRelay
  | RtSessions | RtSession | RtLegacyRelay | RtLogLevel | RtHealthz | RtInfo | RtSandboxes | RtSandbox
  | RtProfiles | RtProfile | RtProviders | RtProvider
  | RtInference | RtSettings | RtSetting | RtTemplates | RtTemplate | RtWhoami | RtLogin
  | RtServices | RtService | RtWorkspaces | RtWorkspace | RtOidc | RtLogs | RtGlobalPolicy

definition fixed_routes :: "(string \<times> route) list" where
  "fixed_routes =
     [(''/v1/ssh-sessions'', RtSessions), (''/v1/ssh-sessions/'', RtSession), (''/v1/relay/'', RtLegacyRelay),
      (''/debug/loglevel'', RtLogLevel), (''/debug/loglevel/'', RtLogLevel),
      (''/healthz'', RtHealthz), (''/v1/info'', RtInfo), (''/v1/sandboxes'', RtSandboxes), (''/v1/sandboxes/'', RtSandbox),
      (''/v1/profiles'', RtProfiles), (''/v1/profiles/'', RtProfile),
      (''/v1/providers'', RtProviders), (''/v1/providers/'', RtProvider),
      (''/v1/inference'', RtInference), (''/v1/settings'', RtSettings), (''/v1/settings/'', RtSetting),
      (''/v1/templates'', RtTemplates), (''/v1/templates/'', RtTemplate),
      (''/v1/whoami'', RtWhoami), (''/v1/auth/login'', RtLogin),
      (''/v1/services'', RtServices), (''/v1/services/'', RtService),
      (''/v1/workspaces'', RtWorkspaces), (''/v1/workspaces/'', RtWorkspace),
      (''/v1/auth/oidc'', RtOidc), (''/v1/logs'', RtLogs), (''/v1/policy/global'', RtGlobalPolicy)]"

definition routes :: "relayproto \<Rightarrow> (string \<times> route) list" where
  "routes rp =
     [(rp_PathSSHConnect rp, RtSSHConnect), (rp_PathSupervisorConnect rp, RtSupervisorConnect),
      (rp_PathSupervisorRelay rp, RtSupervisorRelay)] @ fixed_routes"

definition dispatch ::
    "('doc, 'prof, 'np, 'sec) packages \<Rightarrow> gw_config \<Rightarrow> incoming \<Rightarrow> Principal \<Rightarrow> route \<Rightarrow> 'sec gateway
     \<Rightarrow> 'sec gateway \<times> 'prof gw_payload answer" where
  "dispatch pk cfg i p rt g =
     (let r = in_req i; en = in_env i; b = in_bodies i; rp = pk_relay pk; H = pk_hash pk;
          st = gw_store g; s = ssh_view g; a = papi_view g; d = pk_profiles pk in
      case rt of
        RtSSHConnect \<Rightarrow> on_ssh g (handleSSHConnect rp H (in_opened i) (in_upgrade i) (in_accepted i) en r s)
      | RtSupervisorConnect \<Rightarrow> on_ssh g (handleSupervisorConnect (in_accepted i) r p s)
      | RtSupervisorRelay \<Rightarrow> on_ssh g (handleSupervisorRelay rp r p s)
      | RtSessions \<Rightarrow> on_ssh g (handle_sessions en r s)
      | RtSession \<Rightarrow> on_ssh g (handle_session en r s)
      | RtLegacyRelay \<Rightarrow> on_ssh g (handleLegacyRelay (in_client i) (in_deadline i) en r (in_exec i) s)
      | RtLogLevel \<Rightarrow> (g, map_answer (\<lambda>_. GLogLevel) (pk_loglevel pk r))
      | RtHealthz \<Rightarrow> handle_healthz en g
      | RtInfo \<Rightarrow> handle_info pk cfg g
      | RtSandboxes \<Rightarrow> handle_sandboxes en r g
      | RtSandbox \<Rightarrow> handle_sandbox pk cfg i p g
      | RtProfiles \<Rightarrow> on_papi g (handle_profiles (pk_policy pk) d en r a)
      | RtProfile \<Rightarrow> on_papi g (handle_profile (pk_policy pk) d en r b a)
      | RtProviders \<Rightarrow> on_papi g (handle_providers en r a)
      | RtProvider \<Rightarrow> on_papi g (handle_provider (pk_policy pk) (pk_secrets pk) (in_host i) d en r b a)
      | RtInference \<Rightarrow> on_parity g (handle_inference en r (in_inference i) st)
      | RtSettings \<Rightarrow> on_parity g (handle_settings r st)
      | RtSetting \<Rightarrow> on_parity g (handle_setting en r (in_setting i) st)
      | RtTemplates \<Rightarrow> on_parity g (handle_templates en r st)
      | RtTemplate \<Rightarrow> on_parity g (handle_template en r (in_template i) st)
      | RtWhoami \<Rightarrow> on_parity g (handle_whoami r p st)
      | RtLogin \<Rightarrow> on_parity g (handle_login (pk_parse_url pk) en r st)
      | RtServices \<Rightarrow> on_parity g (handle_services en r st)
      | RtService \<Rightarrow> on_parity g (handle_service en r (in_service i) st)
      | RtWorkspaces \<Rightarrow> on_parity g (handle_workspaces en r (in_workspace i) st)
      | RtWorkspace \<Rightarrow> on_parity g (handle_workspace en r (in_member i) st)
      | RtOidc \<Rightarrow> handle_oidc cfg r g
      | RtLogs \<Rightarrow> handle_logs i g
      | RtGlobalPolicy \<Rightarrow> handle_global_policy (pk_policy pk) i g)"

section \<open>The whole handler\<close>

text \<open>\<open>withAuth\<close> around the multiplexer.\<close>

definition serve_auth ::
    "('doc, 'prof, 'np, 'sec) packages \<Rightarrow> gw_config \<Rightarrow> incoming \<Rightarrow> 'sec gateway \<Rightarrow> 'sec gateway \<times> 'prof gw_result" where
  "serve_auth pk cfg i g =
     (case withAuth (pk_relay pk) (pk_hash pk) (in_auth_order i) (gc_auth cfg) (in_req i) (gw_store g) of
        Denied c m \<Rightarrow> (g, Answered (Error c m))
      | Serve p \<Rightarrow>
          (case mux_handler (routes (pk_relay pk)) (rq_Method (in_req i)) (rq_Path (in_req i)) of
             MuxNotFound \<Rightarrow> (g, Answered (Error StatusNotFound ''404 page not found''))
           | MuxRedirect u \<Rightarrow> (g, Redirected u)
           | MuxFound rt \<Rightarrow> map_prod id Answered (dispatch pk cfg i p rt g)))"

definition serve ::
    "('doc, 'prof, 'np, 'sec) packages \<Rightarrow> gw_config \<Rightarrow> incoming \<Rightarrow> 'sec gateway \<Rightarrow> 'sec gateway \<times> 'prof gw_result" where
  "serve pk cfg i g =
     (case withEdgeRouter (pk_url_ok pk) (in_req i) (gw_store g) of
        EdgeProxy h p \<Rightarrow> (g, Proxied h p)
      | EdgeError c m \<Rightarrow> (g, Answered (Error c m))
      | EdgeNext \<Rightarrow> serve_auth pk cfg i g)"

text \<open>One tick of the session reaper.\<close>

definition reapSSHSessions :: "time \<Rightarrow> flush_env \<Rightarrow> 'sec gateway \<Rightarrow> 'sec gateway" where
  "reapSSHSessions now e g = (case ReapSSHSessions now e (gw_store g) of (st, _, _) \<Rightarrow> g\<lparr>gw_store := st\<rparr>)"

text \<open>
  What \<open>NewHandler\<close> starts from: the store of the data directory with its token file, the secret
  store and the OIDC validator, or the first error.
\<close>

datatype start_err = StartStore err | StartToken err | StartSecrets string | StartOIDC string

definition NewHandler ::
    "open_env \<Rightarrow> string \<Rightarrow> string option \<Rightarrow> flush_env \<Rightarrow> token_file_env \<Rightarrow> (string \<Rightarrow> string + 'sec) \<Rightarrow>
     (OIDCOptions \<Rightarrow> string + (string \<Rightarrow> Claims option)) \<Rightarrow> (string \<Rightarrow> string) \<Rightarrow> string option \<Rightarrow> string \<Rightarrow> Options \<Rightarrow> fs
     \<Rightarrow> start_err + gw_config \<times> 'sec gateway" where
  "NewHandler oe rnd_id rnd e te open_sec new_oidc getenv home tmp opt d =
     (let dir = (if opt_DataDir opt = [] then defaultDataDir getenv home tmp else opt_DataDir opt) in
      case Open oe dir (newGatewayID rnd_id) d of
        Inl x \<Rightarrow> Inl (StartStore x)
      | Inr (st0, Some x) \<Rightarrow> Inl (StartStore x)
      | Inr (st0, None) \<Rightarrow>
          (case WriteAuthTokenFile rnd e te st0 of
             (st, Inl x) \<Rightarrow> Inl (StartToken x)
           | (st, Inr _) \<Rightarrow>
               (case open_sec dir of
                  Inl x \<Rightarrow> Inl (StartSecrets x)
                | Inr sec \<Rightarrow>
                    let oidc = oidcFromEnvAndFlags getenv (opt_OIDC opt) in
                    (case newOIDCValidator new_oidc oidc of
                       Inl x \<Rightarrow> Inl (StartOIDC x)
                     | Inr validator \<Rightarrow>
                         Inr (\<lparr>gc_auth = \<lparr>ao_OIDC = validator, ao_AllowUnauthenticated = opt_AllowUnauthenticated opt\<rparr>,
                               gc_oidc = oidc, gc_ttl = session_ttl opt, gc_dataDir = dir\<rparr>,
                              \<lparr>gw_store = st, gw_sec = sec, gw_logs = NewHub 4096, gw_hub = NewRelayHub\<rparr>)))))"

end
