(* ===== verification/Gateway_Effects.thy ===== *)
theory Gateway_Effects
  imports Gateway
begin

text \<open>
  What a request can do to the state: every handler changes the store by calling methods of
  \<open>Store\<close> only, the log hub by its own operations and the relay hub by the steps of its own
  state machine. These are the simulation lemmas that carry the properties of histories of the
  store, the logs and the hub over to the gateway.
\<close>

section \<open>Stores\<close>

text \<open>
  A store evolves by method calls whose fresh SSH session tokens, if there are any, come from random
  bytes in \<open>R\<close>.
\<close>

fun rnd_ok :: "(string option \<Rightarrow> bool) \<Rightarrow> store_op \<Rightarrow> bool" where
  "rnd_ok R (DoCreateSSHSession rnd _ _ _ _ _ _) = R rnd"
| "rnd_ok R _ = True"

definition evolves :: "(string \<Rightarrow> string) \<Rightarrow> (string option \<Rightarrow> bool) \<Rightarrow> Store \<Rightarrow> Store \<Rightarrow> bool" where
  "evolves H R s t \<longleftrightarrow> (\<exists>ops. (\<forall>x\<in>set ops. rnd_ok R x) \<and> t = run_ops H ops s)"

named_theorems evolve

lemma evolves_refl [evolve, simp]: "evolves H R s s"
  unfolding evolves_def by (rule exI [of _ "[]"]) (simp add: run_ops_def)

lemma run_ops_append: "run_ops H (xs @ ys) s = run_ops H ys (run_ops H xs s)"
  by (simp add: run_ops_def)

lemma evolves_trans:
  assumes "evolves H R s t" and "evolves H R t u"
  shows "evolves H R s u"
proof -
  from assms obtain xs ys where "\<forall>x\<in>set xs. rnd_ok R x" "\<forall>x\<in>set ys. rnd_ok R x" "u = run_ops H (xs @ ys) s"
    unfolding evolves_def run_ops_append by blast
  then show ?thesis unfolding evolves_def by (intro exI [of _ "xs @ ys"]) auto
qed

lemma evolves_op: "rnd_ok R x \<Longrightarrow> evolves H R s (fst (apply_op H x s))"
  unfolding evolves_def by (rule exI [of _ "[x]"]) (simp add: run_ops_def)

lemma evolves_call [evolve]:
  "evolves H R s (fst (UpsertSandbox now e sb s))" "evolves H R s (fst (DeleteSandbox e n s))"
  "evolves H R s (fst (SetBasePolicy now e n y s))" "evolves H R s (fst (SetGlobalPolicy e y s))"
  "evolves H R s (fst (UpsertProfile e n y s))" "evolves H R s (fst (DeleteProfile e n s))"
  "evolves H R s (fst (UpsertProvider e prov s))" "evolves H R s (fst (DeleteProvider e n s))"
  "evolves H R s (fst (SetInferenceRoute e rt s))" "evolves H R s (fst (ClearInferenceRoute e s))"
  "evolves H R s (fst (SetSetting e n y s))" "evolves H R s (fst (DeleteSetting e n s))"
  "evolves H R s (fst (UpsertTemplate e tpl s))" "evolves H R s (fst (DeleteTemplate e n s))"
  "evolves H R s (fst (EnsureAuthToken rnd e s))"
  "evolves H R s (fst (AttachProvider now e n y s))" "evolves H R s (fst (DetachProvider now e n y s))"
  "evolves H R s (fst (IssueSandboxToken H rnd now e n s))"
  "R rnd \<Longrightarrow> evolves H R s (fst (CreateSSHSession H rnd rnd' now e n y ttl s))" "evolves H R s (fst (RevokeSSHSession e n s))"
  "evolves H R s (fst (ReapSSHSessions now e s))"
  "evolves H R s (fst (UpsertService now e svc s))" "evolves H R s (fst (DeleteService e n s))"
  "evolves H R s (fst (UpsertWorkspace now e ws s))" "evolves H R s (fst (DeleteWorkspace e n s))"
  "evolves H R s (fst (WorkspaceMemberUpsert now e n y role s))" "evolves H R s (fst (WorkspaceMemberRemove now e n y s))"
  "evolves H R s (fst (PutProposal now now' e pr s))" "evolves H R s (fst (DecideProposal now now' e n y z s))"
  using evolves_op [of R "DoUpsertSandbox now e sb" H s] evolves_op [of R "DoDeleteSandbox e n" H s]
    evolves_op [of R "DoSetBasePolicy now e n y" H s] evolves_op [of R "DoSetGlobalPolicy e y" H s]
    evolves_op [of R "DoUpsertProfile e n y" H s] evolves_op [of R "DoDeleteProfile e n" H s]
    evolves_op [of R "DoUpsertProvider e prov" H s] evolves_op [of R "DoDeleteProvider e n" H s]
    evolves_op [of R "DoSetInferenceRoute e rt" H s] evolves_op [of R "DoClearInferenceRoute e" H s]
    evolves_op [of R "DoSetSetting e n y" H s] evolves_op [of R "DoDeleteSetting e n" H s]
    evolves_op [of R "DoUpsertTemplate e tpl" H s] evolves_op [of R "DoDeleteTemplate e n" H s]
    evolves_op [of R "DoEnsureAuthToken rnd e" H s]
    evolves_op [of R "DoAttachProvider now e n y" H s] evolves_op [of R "DoDetachProvider now e n y" H s]
    evolves_op [of R "DoIssueSandboxToken rnd now e n" H s]
    evolves_op [of R "DoCreateSSHSession rnd rnd' now e n y ttl" H s] evolves_op [of R "DoRevokeSSHSession e n" H s]
    evolves_op [of R "DoReapSSHSessions now e" H s]
    evolves_op [of R "DoUpsertService now e svc" H s] evolves_op [of R "DoDeleteService e n" H s]
    evolves_op [of R "DoUpsertWorkspace now e ws" H s] evolves_op [of R "DoDeleteWorkspace e n" H s]
    evolves_op [of R "DoWorkspaceMemberUpsert now e n y role" H s] evolves_op [of R "DoWorkspaceMemberRemove now e n y" H s]
    evolves_op [of R "DoPutProposal now now' e pr" H s] evolves_op [of R "DoDecideProposal now now' e n y z" H s]
  by (simp_all add: case_prod_beta)

text \<open>A handler that takes the new store from the result of a call, whatever it answers.\<close>

lemma fst_case_err [simp]: "fst (case r of (t, None) \<Rightarrow> (t, a t) | (t, Some x) \<Rightarrow> (t, b t x)) = fst r"
  by (simp add: case_prod_beta split: option.split)

lemma fst_case_result [simp]: "fst (case r of (t, Inl x) \<Rightarrow> (t, a t x) | (t, Inr y) \<Rightarrow> (t, b t y)) = fst r"
  by (simp add: case_prod_beta split: sum.split)

lemma fst_store_reply [simp]: "fst (store_reply c ans r) = fst r"
  by (simp add: store_reply_def)

section \<open>Handlers on the store\<close>

lemma parity_evolves [evolve]:
  "evolves H R st (fst (handle_inference en r b1 st))"
  "evolves H R st (fst (handle_settings r st))"
  "evolves H R st (fst (handle_setting en r b2 st))"
  "evolves H R st (fst (handle_templates en r st))"
  "evolves H R st (fst (handle_template en r b3 st))"
  "evolves H R st (fst (handle_whoami r p st))"
  "evolves H R st (fst (handle_login parse en r st))"
  "evolves H R st (fst (handle_services en r st))"
  "evolves H R st (fst (handle_service en r b4 st))"
  "evolves H R st (fst (handle_workspaces en r b2 st))"
  "evolves H R st (fst (handle_workspace en r b5 st))"
  subgoal by (simp add: handle_inference_def evolve split: option.split sum.split)
  subgoal by (simp add: handle_settings_def)
  subgoal by (simp add: handle_setting_def evolve split: option.split sum.split)
  subgoal by (simp add: handle_templates_def)
  subgoal by (simp add: handle_template_def evolve split: option.split sum.split)
  subgoal by (simp add: handle_whoami_def case_prod_beta)
  subgoal by (simp add: handle_login_def Let_def evolve if_distrib case_prod_beta split: sum.split)
  subgoal by (simp add: handle_services_def)
  subgoal by (simp add: handle_service_def evolve split: option.split sum.split)
  subgoal by (simp add: handle_workspaces_def Let_def evolve split: sum.split)
  subgoal by (simp add: handle_workspace_def Let_def evolve split: option.split sum.split)
  done

lemma set_policy_evolves [evolve]: "evolves H R st (fst (setSandboxBasePolicy lib t t' d n body st))"
proof -
  have undone: "evolves H R st (fst (SetBasePolicy (fst t') (snd t') n y st1))"
    if "SetBasePolicy (fst t) (snd t) n z st = (st1, x)" for y z st1 x
    using evolves_trans [OF evolves_call(3) [of H R st "fst t" "snd t" n z] evolves_call(3)] that by simp
  show ?thesis
    using evolves_call(3) [of H R st "fst t" "snd t" n]
    by (auto simp: setSandboxBasePolicy_def split: option.split sum.split prod.split dest: undone)
      (metis fst_conv)+
qed

lemma proposals_evolve [evolve]:
  "evolves H R st (fst (handleSandboxProposals lib nl v r body reason d name rest st))"
proof -
  have approve: "evolves H R st (fst (approveProposal lib nl v d name pid st))" for pid
  proof -
    have "evolves H R st (fst (DecideProposal (rv_now v) (rv_now' v) (rv_flush v) pid a b st1))"
      if "setSandboxBasePolicy lib (rv_set v) (rv_rollback v) d name m st = (st1, x)" for a b m st1 x
      using evolves_trans [OF set_policy_evolves [of H R st lib "rv_set v" "rv_rollback v" d name m] evolves_call(29)] that by simp
    then show ?thesis
      using set_policy_evolves [of H R st lib "rv_set v" "rv_rollback v" d name]
      by (auto simp: approveProposal_def Let_def split: option.split sum.split prod.split) (metis fst_conv)+
  qed
  show ?thesis
    by (simp add: handleSandboxProposals_def create_proposal_def reject_proposal_def Let_def approve evolve if_distrib
        case_prod_beta split: option.split sum.split)
qed

section \<open>The relay hub\<close>

text \<open>A request makes at most one step of the relay's state machine, or closes a connection it was given.\<close>

definition relay_effect :: "RelayHub \<Rightarrow> RelayHub \<Rightarrow> bool" where
  "relay_effect h h' \<longleftrightarrow> h' = h \<or> hub_trans h h' \<or> (\<exists>c. h' = conn_close c h)"

lemma relay_effect_intros [evolve]:
  "relay_effect h h" "relay_effect h (Disconnect n h)" "relay_effect h (ServeSupervisor_start n h)"
  "relay_effect h (conn_close c h)"
  "ServeRelay_take n ch h = Some h' \<Longrightarrow> relay_effect h h'"
  by (auto simp: relay_effect_def intro: hub_trans.intros)

definition ssh_ok :: "(string \<Rightarrow> string) \<Rightarrow> (string option \<Rightarrow> bool) \<Rightarrow> ssh_state \<Rightarrow> ssh_state \<Rightarrow> bool" where
  "ssh_ok H R s t \<longleftrightarrow> evolves H R (ss_store s) (ss_store t) \<and> relay_effect (ss_hub s) (ss_hub t)"

lemma call_evolves:
  "IssueSandboxToken H rnd now e n s = (t, x) \<Longrightarrow> evolves H R s t"
  "CreateSSHSession H rnd rnd' now e n y ttl s = (t, z) \<Longrightarrow> R rnd \<Longrightarrow> evolves H R s t"
  using evolves_call(18) [of H R s rnd now e n] evolves_call(19) [of R rnd H s rnd' now e n y ttl] by simp_all

lemma ssh_evolves [evolve]:
  "ssh_ok H R s (fst (handleSSHConnect rp H op up acc en r s))"
  "ssh_ok H R s (fst (handleSupervisorConnect acc r p s))"
  "ssh_ok H R s (fst (handleSupervisorRelay rp r p s))"
  "ssh_ok H R s (fst (handle_sessions en r s))"
  "ssh_ok H R s (fst (handle_session en r s))"
  "ssh_ok H R s (fst (handleLegacyRelay client dl en r b s))"
  subgoal by (simp add: ssh_ok_def handleSSHConnect_def Let_def evolve split: option.split sum.split prod.split)
  subgoal by (simp add: ssh_ok_def handleSupervisorConnect_def evolve)
  subgoal by (simp add: ssh_ok_def handleSupervisorRelay_def Let_def evolve split: option.split)
  subgoal by (simp add: ssh_ok_def handle_sessions_def evolve)
  subgoal by (simp add: ssh_ok_def handle_session_def Let_def evolve case_prod_beta)
  subgoal by (simp add: ssh_ok_def handleLegacyRelay_def handle_exec_def evolve split: prod.split option.split sum.split)
  done

lemma sandboxSubpath_evolves:
  assumes "sandboxSubpath H ttl client dl en r p b n sub s = Some res" and "R (en_rnd en 0)"
  shows "ssh_ok H R s (fst res)"
proof -
  have "ssh_ok H R s (fst (create_session H ttl en r p n s))"
    using assms(2) by (auto simp: ssh_ok_def create_session_def evolve split: option.split sum.split prod.split dest: call_evolves)
  moreover have "ssh_ok H R s (fst (issue_sandbox_token H en n s))"
    by (auto simp: ssh_ok_def issue_sandbox_token_def evolve split: sum.split prod.split dest: call_evolves)
  moreover have "ssh_ok H R s (fst (handle_exec client dl en b n s))"
    by (simp add: ssh_ok_def handle_exec_def evolve split: prod.split option.split sum.split)
  moreover have "ssh_ok H R s s" by (simp add: ssh_ok_def evolve)
  ultimately show ?thesis
    using assms(1) by (auto simp: sandboxSubpath_def split: if_splits)
qed

section \<open>The log hub\<close>

definition log_effect :: "Hub \<Rightarrow> Hub \<Rightarrow> bool" where
  "log_effect h h' \<longleftrightarrow> (\<exists>xs. h' = fold hub_step xs h)"

lemma log_effect_refl [evolve, simp]: "log_effect h h"
  unfolding log_effect_def by (rule exI [of _ "[]"]) simp

lemma log_effect_step: "log_effect h (hub_step x h)"
  unfolding log_effect_def by (rule exI [of _ "[x]"]) simp

lemma log_effect_trans: "log_effect h h1 \<Longrightarrow> log_effect h1 h2 \<Longrightarrow> log_effect h h2"
  unfolding log_effect_def by (metis fold_append o_apply)

lemma log_effect_calls [evolve]:
  "log_effect h (hub_Append nows n lines h)" "log_effect h (fst (hub_Snapshot n since src lvl k h))"
  "log_effect h (hub_Remove n h)" "log_effect h (fst (hub_Subscribe n h))" "log_effect h (fst (follow n src lvl sent h))"
  using log_effect_step [of h "HAppend nows n lines"] log_effect_step [of h "HSnapshot n since src lvl k"]
    log_effect_step [of h "HRemove n"] log_effect_step [of h "HSubscribe n"] log_effect_step [of h "HSnapshot n sent src lvl 0"]
  by (simp_all add: follow_hub)

lemma follow_turn_effect [evolve]: "log_effect h (fst (hub_Subscribe n (fst (follow n src lvl sent h))))"
  by (rule log_effect_trans [OF log_effect_calls(5,4)])

lemma fleet_lines_effect [evolve]: "log_effect h (fst (fleet_lines ns h))"
proof (induction ns arbitrary: h)
  case (Cons n ns)
  have "log_effect h (fst (fleet_lines ns (fst (hub_Snapshot n 0 [] [] 200 h))))"
    by (rule log_effect_trans [OF log_effect_calls(2) Cons.IH])
  then show ?case by (simp add: case_prod_beta)
qed simp

lemma fleet_round_effect [evolve]: "log_effect h (snd (snd (fleet_round ns sent h)))"
proof (induction ns arbitrary: sent h)
  case (Cons n ns)
  have "log_effect h (snd (snd (fleet_round ns sent' (fst (hub_Snapshot n (sent n) [] [] 0 h)))))" for sent'
    by (rule log_effect_trans [OF log_effect_calls(2) Cons.IH])
  then show ?case by (simp add: case_prod_beta)
qed simp

section \<open>Handlers on store, secrets and logs\<close>

definition papi_ok :: "(string \<Rightarrow> string) \<Rightarrow> (string option \<Rightarrow> bool) \<Rightarrow> 'sec papi \<Rightarrow> 'sec papi \<Rightarrow> bool" where
  "papi_ok H R s t \<longleftrightarrow> evolves H R (pa_store s) (pa_store t) \<and> log_effect (pa_logs s) (pa_logs t)"

lemma papi_ok_refl [evolve, simp]: "papi_ok H R g g"
  by (simp add: papi_ok_def)

lemma papi_ok_store [evolve]: "papi_ok H R g (g\<lparr>pa_store := st\<rparr>) \<longleftrightarrow> evolves H R (pa_store g) st"
  "papi_ok H R g (g\<lparr>pa_store := st, pa_sec := sec\<rparr>) \<longleftrightarrow> evolves H R (pa_store g) st"
  "papi_ok H R g (g\<lparr>pa_logs := h\<rparr>) \<longleftrightarrow> log_effect (pa_logs g) h"
  by (simp_all add: papi_ok_def)

lemma fst_on_store [simp]: "fst (on_store g r) = g\<lparr>pa_store := fst r\<rparr>"
  by (simp add: on_store_def)

lemma profiles_evolve [evolve]:
  "papi_ok H R g (fst (handle_profiles lib d en r g))"
  "papi_ok H R g (fst (handle_profile lib d en r b g))"
  "papi_ok H R g (fst (handle_providers en r g))"
  subgoal by (simp add: handle_profiles_def)
  subgoal by (simp add: handle_profile_def evolve split: option.split sum.split prod.split)
  subgoal by (simp add: handle_providers_def)
  done

lemma refresh_evolves:
  assumes "handleProviderRefreshPath sl ho en r b n sub (st, sec) = Some ((st', sec'), ans)"
  shows "evolves H R st st'"
proof -
  have rotate: "evolves H R st (fst (fst (handle_rotate sl ho en n k rec (st, sec))))" for k rec
    by (simp add: handle_rotate_def Let_def evolve split: sum.split prod.split option.split)
  let ?g = "(st, sec)"
  let ?up = "\<lambda>rec. fst (UpsertProvider (en_flush en 0) rec st)"
  from assms have "st' = st \<or> (\<exists>rec. st' = ?up rec) \<or> (\<exists>k rec. st' = fst (fst (handle_rotate sl ho en n k rec ?g)))"
    by (auto simp: handleProviderRefreshPath_def Let_def store_reply_def split: if_splits option.splits sum.splits
        dest!: arg_cong [of _ "((st', sec'), ans)" "\<lambda>x. fst (fst x)"]) blast
  then show ?thesis using rotate by (auto intro: evolve)
qed

lemma provider_evolves [evolve]: "papi_ok H R g (fst (handle_provider lib sl ho d en r b g))"
proof -
  have put: "papi_ok H R g (fst (put_provider_body lib sl d en n body g))" for n body
    using evolves_call(7) [of H R "pa_store g" "en_flush en 0" "provider_record (en_order en 0) n body"]
    by (auto simp: put_provider_body_def papi_ok_store split: option.split sum.split prod.split)
  have del: "evolves H R (pa_store g) st" if "DeleteProvider (en_flush en 0) n (pa_store g) = (st, x)" for n st x
    using evolves_call(8) [of H R "pa_store g" "en_flush en 0" n] that by simp
  show ?thesis
    by (auto simp: handle_provider_def Let_def put papi_ok_store refresh_evolves del
        split: option.split sum.split prod.split)
qed

lemma sandbox_paths_evolve [evolve]:
  "papi_ok H R g (fst (handleSandboxLogs en since r b n g))"
  "papi_ok H R g (fst (handleSandboxPolicy lib d en r b n g))"
  subgoal by (simp add: handleSandboxLogs_def Let_def evolve case_prod_beta split: sum.split)
  subgoal
    using set_policy_evolves [of H R "pa_store g" lib "(en_now en 0, en_flush en 0)" "(en_now en 1, en_flush en 1)" d n]
    by (auto simp: handleSandboxPolicy_def Let_def papi_ok_store split: option.split sum.split prod.split)
      (metis fst_conv)+
  done

lemma subpath_evolves [evolve]: "papi_ok H R g (fst (handleSandboxSubpath lib nl sl d en since r b n rest g))"
  by (simp add: handleSandboxSubpath_def Let_def evolve case_prod_beta split: option.split sum.split)

section \<open>Requests\<close>

definition gw_ok :: "(string \<Rightarrow> string) \<Rightarrow> (string option \<Rightarrow> bool) \<Rightarrow> 'sec gateway \<Rightarrow> 'sec gateway \<Rightarrow> bool" where
  "gw_ok H R g g' \<longleftrightarrow> evolves H R (gw_store g) (gw_store g') \<and> log_effect (gw_logs g) (gw_logs g') \<and>
     relay_effect (gw_hub g) (gw_hub g')"

lemma gw_ok_refl [simp]: "gw_ok H R g g"
  by (simp add: gw_ok_def evolve)

lemma gw_ok_on:
  "evolves H R (gw_store g) (fst r1) \<Longrightarrow> gw_ok H R g (fst (on_parity g r1))"
  "ssh_ok H R (ssh_view g) (fst r2) \<Longrightarrow> gw_ok H R g (fst (on_ssh g r2))"
  "papi_ok H R (papi_view g) (fst r3) \<Longrightarrow> gw_ok H R g (fst (on_papi g r3))"
  by (simp_all add: gw_ok_def on_parity_def on_ssh_def on_papi_def ssh_ok_def papi_ok_def ssh_view_def papi_view_def evolve)

lemma sandbox_item_ok: "gw_ok H R g (fst (handle_sandbox_item en r b n g))"
proof -
  have del: "evolves H R (gw_store g) st" if "DeleteSandbox (en_flush en 0) n (gw_store g) = (st, x)" for st x
    using evolves_call(2) [of H R "gw_store g" "en_flush en 0" n] that by simp
  show ?thesis
    by (auto simp: handle_sandbox_item_def gw_ok_def evolve del case_prod_beta [of _ "store_reply _ _ _"]
        split: option.split sum.split prod.split)
qed

lemma handle_sandbox_ok: "R (en_rnd (in_env i) 0) \<Longrightarrow> gw_ok (pk_hash pk) R g (fst (handle_sandbox pk cfg i p g))"
  by (auto simp: handle_sandbox_def sandbox_item_ok split: sandbox_path.split option.split
      intro!: gw_ok_on evolve intro: sandboxSubpath_evolves)

lemma fleet_ok:
  "gw_ok H R g (fst (handle_logs i g))" "gw_ok H R g (fst (handle_global_policy lib i g))"
  subgoal by (simp add: handle_logs_def Let_def gw_ok_on evolve case_prod_beta) (simp add: gw_ok_def evolve)
  subgoal by (simp add: handle_global_policy_def Let_def case_prod_beta gw_ok_def evolve split: sum.split option.split)
  done

lemma dispatch_ok: "R (en_rnd (in_env i) 0) \<Longrightarrow> gw_ok (pk_hash pk) R g (fst (dispatch pk cfg i p rt g))"
  by (cases rt) (simp_all add: dispatch_def Let_def gw_ok_on evolve handle_sandbox_ok fleet_ok ssh_view_def [symmetric]
      handle_healthz_def handle_info_def handle_sandboxes_def handle_oidc_def)

lemma serve_ok: "R (en_rnd (in_env i) 0) \<Longrightarrow> gw_ok (pk_hash pk) R g (fst (serve pk cfg i g))"
  by (auto simp: serve_def serve_auth_def dispatch_ok split: edge_result.split auth_result.split mux_result.split)

end
