(* ===== verification/Gateway_Props.thy ===== *)
theory Gateway_Props
  imports Gateway_Effects
begin

text \<open>
  Properties of the gateway as a whole: the well-formedness of everything it can reach, what
  requests without credentials and requests of supervisors can do, who is bridged to a sandbox, and
  that revoking a session and deleting a sandbox take effect for every later request.
\<close>

section \<open>Runs of the gateway\<close>

text \<open>
  A step of the gateway: a request, a tick of the reaper, a later turn of a stream that follows one
  sandbox or several, a step of the relay hub, or a restart, which starts a new process on what the
  data directory holds. A start that fails may still have written
  the state and the token file before it failed: the directory is then as it left it. The settings
  may differ from one process to the next, so the configuration is any at every step.
\<close>

inductive gw_step ::
    "('doc, 'prof, 'np, 'sec) packages \<Rightarrow> 'sec gateway \<Rightarrow> 'sec gateway \<Rightarrow> bool" for pk where
  gw_request: "gw_step pk g (fst (serve pk cfg i g))"
| gw_reap: "gw_step pk g (reapSSHSessions now e g)"
| gw_follow: "gw_step pk g (g\<lparr>gw_logs := fst (hub_Subscribe n (fst (follow n source level sent (gw_logs g))))\<rparr>)"
| gw_fleet: "gw_step pk g (g\<lparr>gw_logs := snd (snd (fleet_round ns sents (gw_logs g)))\<rparr>)"
| gw_relay: "hub_trans (gw_hub g) h \<Longrightarrow> gw_step pk g (g\<lparr>gw_hub := h\<rparr>)"
| gw_restart: "NewHandler oe rid rnd e te open_sec new_oidc getenv home tmp opt (disk (gw_store g)) = Inr (cfg, g')
    \<Longrightarrow> gw_step pk g g'"
| gw_failed_start: "Open oe dir rid (disk (gw_store g)) = Inr (st0, x)
    \<Longrightarrow> st = st0 \<or> st = fst (WriteAuthTokenFile rnd e te st0)
    \<Longrightarrow> gw_step pk g (g\<lparr>gw_store := (gw_store g)\<lparr>disk := disk st\<rparr>\<rparr>)"

inductive_cases gw_stepE: "gw_step pk g g'"

definition gw_initial :: "'sec gateway \<Rightarrow> bool" where
  "gw_initial g \<longleftrightarrow> (\<exists>oe rid rnd e te open_sec new_oidc getenv home tmp opt d cfg.
     fs_files d State_json = None \<and>
     NewHandler oe rid rnd e te open_sec new_oidc getenv home tmp opt d = Inr (cfg, g))"

definition gw_inv :: "'sec gateway \<Rightarrow> bool" where
  "gw_inv g \<longleftrightarrow> store_inv (gw_store g) \<and> hub_ok (gw_logs g) \<and> session_inv (gw_hub g)"

lemma reap_ok: "gw_ok H R g (reapSSHSessions now e g)"
  by (simp add: reapSSHSessions_def gw_ok_def evolve case_prod_beta)

lemma run_ops_inv: "store_inv s \<Longrightarrow> store_inv (run_ops H ops s)"
  by (induction ops arbitrary: s) (simp_all add: run_ops_def apply_op_store_inv)

lemma session_inv_trans: "hub_trans h h' \<Longrightarrow> session_inv h \<Longrightarrow> session_inv h'"
proof (induction rule: hub_trans.induct)
  case (open_write i h ok)
  then show ?case by (auto simp: OpenChannel_write_def session_inv_step) (simp add: session_inv_def)+
next
  case (open_select i h ch h')
  then show ?case by (cases ch) (auto simp: session_inv_def split: if_splits option.splits)
next
  case (relay_deliver j h c)
  then show ?case by (simp add: session_inv_def ServeRelay_deliver_def Let_def split: option.split)
qed (simp_all add: session_inv_steps session_inv_step, auto simp: session_inv_def OpenChannel_register_def
      OpenChannel_unregister_def OpenChannel_drain_def ServeRelay_take_def ServeRelay_accept_def Let_def
      split: option.splits if_splits sum.splits)

lemma session_inv_effect: "relay_effect h h' \<Longrightarrow> session_inv h \<Longrightarrow> session_inv h'"
  unfolding relay_effect_def by (auto intro: session_inv_trans) (simp add: session_inv_def)

lemma gw_ok_inv: "gw_ok H R g g' \<Longrightarrow> gw_inv g \<Longrightarrow> gw_inv g'"
  unfolding gw_ok_def gw_inv_def evolves_def log_effect_def
  by (auto intro: run_ops_inv hub_run_ok session_inv_effect)

lemma NewHandler_Inr:
  assumes "NewHandler oe rid rnd e te open_sec new_oidc getenv home tmp opt d = Inr (cfg, g)"
  shows "\<exists>dir st0. Open oe dir (newGatewayID rid) d = Inr (st0, None) \<and>
    gw_store g = fst (WriteAuthTokenFile rnd e te st0) \<and> gw_logs g = NewHub 4096 \<and> gw_hub g = NewRelayHub"
proof -
  define dir where "dir = (if opt_DataDir opt = [] then defaultDataDir getenv home tmp else opt_DataDir opt)"
  note new = assms [unfolded NewHandler_def Let_def dir_def [symmetric]]
  obtain st0 where o: "Open oe dir (newGatewayID rid) d = Inr (st0, None)"
    using new by (cases "Open oe dir (newGatewayID rid) d") (auto split: option.splits)
  obtain st t where w: "WriteAuthTokenFile rnd e te st0 = (st, Inr t)"
    using new o by (cases "WriteAuthTokenFile rnd e te st0") (auto split: sum.splits)
  obtain sec where "open_sec dir = Inr sec"
    using new o w by (cases "open_sec dir") simp_all
  with new o w have "gw_store g = st \<and> gw_logs g = NewHub 4096 \<and> gw_hub g = NewRelayHub"
    by (cases "newOIDCValidator new_oidc (oidcFromEnvAndFlags getenv (opt_OIDC opt))") auto
  then show ?thesis using o w by (metis fst_conv)
qed

lemma token_file_store_inv: "store_inv st \<Longrightarrow> store_inv (fst (WriteAuthTokenFile rnd e te st))"
  using apply_op_store_inv [of st "\<lambda>x. x" "DoWriteAuthTokenFile rnd e te"] by simp

lemma NewHandler_inv:
  assumes "file_inv d" and "NewHandler oe rid rnd e te open_sec new_oidc getenv home tmp opt d = Inr (cfg, g)"
  shows "gw_inv g"
proof -
  from NewHandler_Inr [OF assms(2)] obtain dir st0 where o: "Open oe dir (newGatewayID rid) d = Inr (st0, None)"
    and st: "gw_store g = fst (WriteAuthTokenFile rnd e te st0)" and rest: "gw_logs g = NewHub 4096" "gw_hub g = NewRelayHub"
    by blast
  from token_file_store_inv [OF Open_store_inv [OF assms(1) o]]
  show ?thesis using NewHub_ok by (simp add: gw_inv_def st rest session_inv_def NewRelayHub_def)
qed

lemma gw_initial_inv: "gw_initial g \<Longrightarrow> gw_inv g"
  unfolding gw_initial_def by (metis NewHandler_inv file_inv_def option.distinct(1))

interpretation gw_sys: transition_system gw_initial "gw_step pk" gw_inv for pk
proof
  fix g g'
  assume inv: "gw_inv g" and step: "gw_step pk g g'"
  from step show "gw_inv g'"
  proof (cases rule: gw_step.cases)
    case (gw_request cfg i)
    then show ?thesis using gw_ok_inv [OF serve_ok [of "\<lambda>_. True"] inv] by simp
  next
    case (gw_reap now e)
    then show ?thesis using gw_ok_inv [OF reap_ok inv] by simp
  next
    case (gw_follow n source level sent)
    then have "gw_ok (\<lambda>x. x) (\<lambda>_. True) g g'" by (simp add: gw_ok_def evolve)
    then show ?thesis using gw_ok_inv inv by blast
  next
    case (gw_fleet ns sents)
    then have "gw_ok (\<lambda>x. x) (\<lambda>_. True) g g'" by (simp add: gw_ok_def evolve)
    then show ?thesis using gw_ok_inv inv by blast
  next
    case (gw_relay h)
    then show ?thesis using inv session_inv_trans by (auto simp: gw_inv_def)
  next
    case gw_restart
    from inv have "file_inv (disk (gw_store g))" by (simp add: gw_inv_def store_inv_file)
    from NewHandler_inv [OF this gw_restart] show ?thesis .
  next
    case (gw_failed_start oe dir rid st0 x st rnd e te)
    from inv have "file_inv (disk (gw_store g))" by (simp add: gw_inv_def store_inv_file)
    from Open_store_inv [OF this gw_failed_start(2)] gw_failed_start(3) have "store_inv st"
      by (auto intro: token_file_store_inv)
    with inv gw_failed_start(1) show ?thesis by (simp add: gw_inv_def store_inv_def)
  qed
qed (rule gw_initial_inv)

section \<open>Which handler gave an answer\<close>

lemma map_answer_Reply: "map_answer f a = Reply c v \<longleftrightarrow> (\<exists>x. a = Reply c x \<and> v = f x)"
  by (cases a) auto

lemma serve_Answered:
  assumes "snd (serve pk cfg i g) = Answered (Reply c v)"
  shows "\<exists>p rt. withAuth (pk_relay pk) (pk_hash pk) (in_auth_order i) (gc_auth cfg) (in_req i) (gw_store g) = Serve p \<and>
    mux_handler (routes (pk_relay pk)) (rq_Method (in_req i)) (rq_Path (in_req i)) = MuxFound rt \<and>
    snd (dispatch pk cfg i p rt g) = Reply c v \<and> fst (serve pk cfg i g) = fst (dispatch pk cfg i p rt g)"
  using assms unfolding serve_def serve_auth_def
  by (auto split: edge_result.splits auth_result.splits mux_result.splits)

text \<open>Only the SSH handlers answer with an SSH payload.\<close>

lemma sandbox_item_payload: "snd (handle_sandbox_item en r b n g) \<noteq> Reply c (GSsh x)"
  by (simp add: handle_sandbox_item_def store_reply_def case_prod_beta split: option.split sum.split)

lemma handle_sandbox_ssh:
  assumes "snd (handle_sandbox pk cfg i p g) = Reply c (GSsh x)"
  shows "\<exists>n sub res. sandboxSubpath (pk_hash pk) (gc_ttl cfg) (in_client i) (in_deadline i) (in_env i) (in_req i) p (in_exec i)
     n sub (ssh_view g) = Some res \<and> snd res = Reply c x"
  using assms sandbox_item_payload
  by (force simp: handle_sandbox_def on_ssh_def on_papi_def map_answer_Reply split: sandbox_path.splits option.splits)

lemma subpath_payload:
  assumes "sandboxSubpath H ttl client dl en r p b n sub s = Some (t, Reply c x)"
  shows "c = StatusOK \<and> (\<forall>m k. x \<noteq> SBridge m k)"
  using assms
  by (auto simp: sandboxSubpath_def create_session_def issue_sandbox_token_def handle_exec_def
      split: if_splits option.splits sum.splits prod.splits)

lemma logs_payload: "snd (handle_logs i g) \<noteq> Reply c (GSsh x)"
  by (auto simp: handle_logs_def Let_def on_papi_def map_answer_Reply split: prod.split)

lemma global_policy_payload: "snd (handle_global_policy lib i g) \<noteq> Reply c (GSsh x)"
  by (auto simp: handle_global_policy_def Let_def store_reply_def split: sum.split option.split prod.split)

lemma dispatch_ssh:
  assumes "snd (dispatch pk cfg i p rt g) = Reply c (GSsh x)"
  shows "rt \<in> {RtSSHConnect, RtSupervisorConnect, RtSupervisorRelay, RtSessions, RtSession, RtLegacyRelay, RtSandbox}"
  using assms
  by (cases rt) (auto simp: logs_payload global_policy_payload dispatch_def Let_def on_parity_def on_papi_def map_answer_Reply handle_healthz_def handle_info_def
      handle_sandboxes_def handle_oidc_def split: if_splits)

lemma relay_payload: "snd (handleLegacyRelay client dl en r b s) = Reply c x \<Longrightarrow> c = StatusOK \<and> (\<forall>m k. x \<noteq> SBridge m k)"
  by (auto simp: handleLegacyRelay_def handle_exec_def split: prod.splits if_splits sum.splits option.splits)

lemma dispatch_bridge:
  assumes "snd (dispatch pk cfg i p rt g) = Reply c (GSsh (SBridge n k))"
  shows "snd (handleSSHConnect (pk_relay pk) (pk_hash pk) (in_opened i) (in_upgrade i) (in_accepted i) (in_env i) (in_req i)
    (ssh_view g)) = Reply c (SBridge n k)"
  using dispatch_ssh [OF assms] assms
  by (auto simp: dispatch_def on_ssh_def map_answer_Reply handleSupervisorConnect_def handleSupervisorRelay_def handle_sessions_def
      handle_session_def store_reply_def Let_def case_prod_beta dest!: handle_sandbox_ssh subpath_payload relay_payload
      split: if_splits option.splits)

lemma dispatch_revoked:
  assumes "snd (dispatch pk cfg i p rt g) = Reply StatusNoContent (GSsh x)"
  shows "rt = RtSession"
  using dispatch_ssh [OF assms] assms
  by (auto simp: dispatch_def on_ssh_def map_answer_Reply handleSupervisorConnect_def handleSupervisorRelay_def handle_sessions_def
      handleSSHConnect_def Let_def dest!: handle_sandbox_ssh subpath_payload relay_payload
      split: if_splits option.splits sum.splits prod.splits)

section \<open>Events\<close>

text \<open>A history of the gateway: requests and ticks of the reaper.\<close>

datatype gw_event = EvRequest incoming | EvReap time flush_env

fun gw_handle :: "('doc, 'prof, 'np, 'sec) packages \<Rightarrow> gw_config \<Rightarrow> gw_event \<Rightarrow> 'sec gateway \<Rightarrow> 'sec gateway" where
  "gw_handle pk cfg (EvRequest i) g = fst (serve pk cfg i g)"
| "gw_handle pk cfg (EvReap now e) g = reapSSHSessions now e g"

definition gw_run :: "('doc, 'prof, 'np, 'sec) packages \<Rightarrow> gw_config \<Rightarrow> gw_event list \<Rightarrow> 'sec gateway \<Rightarrow> 'sec gateway" where
  "gw_run pk cfg es = fold (gw_handle pk cfg) es"

fun ev_fresh :: "(string option \<Rightarrow> bool) \<Rightarrow> gw_event \<Rightarrow> bool" where
  "ev_fresh R (EvRequest i) = R (en_rnd (in_env i) 0)"
| "ev_fresh R (EvReap _ _) = True"

lemma gw_run_evolves:
  "\<forall>ev\<in>set es. ev_fresh R ev \<Longrightarrow> evolves (pk_hash pk) R (gw_store g) (gw_store (gw_run pk cfg es g))"
proof (induction es arbitrary: g)
  case (Cons ev es)
  have "gw_ok (pk_hash pk) R g (gw_handle pk cfg ev g)"
    using Cons.prems by (cases ev) (simp_all add: serve_ok reap_ok)
  then have "evolves (pk_hash pk) R (gw_store g) (gw_store (gw_handle pk cfg ev g))" by (simp add: gw_ok_def)
  from evolves_trans [OF this Cons.IH] Cons.prems show ?case by (simp add: gw_run_def)
qed (simp add: gw_run_def)

text \<open>Random bytes from which no token with the hash \<open>h\<close> is made.\<close>

definition avoids :: "(string \<Rightarrow> string) \<Rightarrow> string \<Rightarrow> string option \<Rightarrow> bool" where
  "avoids H h rnd \<longleftrightarrow> (case rnd of None \<Rightarrow> True | Some b \<Rightarrow> HashToken H (EncodeToString b) \<noteq> h)"

lemma rnd_ok_mints: "rnd_ok (avoids H h) x \<Longrightarrow> \<not> mints H h x"
  by (cases "(H, h, x)" rule: mints.cases) (auto simp: avoids_def)

lemma evolves_all_revoked:
  "evolves H (avoids H h) s t \<Longrightarrow> all_revoked h (state s) \<Longrightarrow> all_revoked h (state t)"
  unfolding evolves_def by (auto intro: run_ops_all_revoked dest: rnd_ok_mints)

section \<open>Bridging\<close>

lemma bridge_session:
  assumes "snd (serve pk cfg i g) = Answered (Reply c (GSsh (SBridge n k)))"
    and "is_order (en_order (in_env i) 1) (st_SSHSessions (state (gw_store g)))"
  shows "in_opened i n = Inr k \<and> GetSandbox (gw_store g) n \<noteq> None \<and>
    (\<exists>j sess. mget (st_SSHSessions (state (gw_store g))) j = Some sess \<and> ssh_Sandbox sess = n \<and>
       ssh_TokenHash sess = HashToken (pk_hash pk) (bearerToken (in_req i)) \<and>
       \<not> ssh_Revoked sess \<and> \<not> session_expired (en_now (in_env i) 0) sess)"
proof -
  from serve_Answered [OF assms(1)] obtain p rt where "snd (dispatch pk cfg i p rt g) = Reply c (GSsh (SBridge n k))" by blast
  note b = dispatch_bridge [OF this]
  then obtain sess where v: "ValidateSSHSession (pk_hash pk) (en_order (in_env i) 1) (bearerToken (in_req i)) n
      (en_now (in_env i) 0) (gw_store g) = (sess, None)" and "in_opened i n = Inr k"
    by (auto simp: handleSSHConnect_def Let_def ssh_view_def split: if_splits prod.splits option.splits sum.splits)
  with ValidateSSHSession_sound [OF assms(2) v] show ?thesis by auto
qed

text \<open>The answer 204 of the SSH handlers means that the session of the path was revoked.\<close>

lemma revoked_by_request:
  assumes "snd (serve pk cfg i g) = Answered (Reply StatusNoContent (GSsh SNone))"
    and "mget (st_SSHSessions (state (gw_store g))) (Trim (TrimPrefix (rq_Path (in_req i)) ''/v1/ssh-sessions/'') ''/'') = Some sess"
    and "unique_session_hashes (state (gw_store g))"
  shows "all_revoked (ssh_TokenHash sess) (state (gw_store (fst (serve pk cfg i g))))"
proof -
  let ?sid = "Trim (TrimPrefix (rq_Path (in_req i)) ''/v1/ssh-sessions/'') ''/''"
  let ?R = "RevokeSSHSession (en_flush (in_env i) 0) ?sid (gw_store g)"
  from serve_Answered [OF assms(1)] obtain p rt where d: "snd (dispatch pk cfg i p rt g) = Reply StatusNoContent (GSsh SNone)"
    and f: "fst (serve pk cfg i g) = fst (dispatch pk cfg i p rt g)" by blast
  with dispatch_revoked [OF d] have "gw_store (fst (serve pk cfg i g)) = fst ?R"
    by (auto simp: dispatch_def on_ssh_def map_answer_Reply handle_session_def ssh_view_def store_reply_def Let_def split: if_splits)
  then show ?thesis
    using assms(2,3) by (auto simp: all_revoked_def RevokeSSHSession_eq unique_session_hashes_def flush mget_mput mget_nonnil)
qed

section \<open>Examples\<close>

text \<open>A secret store that is a table of credentials by provider.\<close>

definition ex_secrets_lib :: "(string, (string, string) fmap) fmap secrets_lib" where
  "ex_secrets_lib = \<lparr>sl_Get = (\<lambda>p ks v. case fmlookup v p of None \<Rightarrow> Inr fmempty | Some m \<Rightarrow> Inr (fmfilter (\<lambda>k. k \<in> set ks) m)),
     sl_Put = (\<lambda>p m v. (fmupd p m v, None)),
     sl_DeletePrefix = (\<lambda>q v. fmfilter (\<lambda>p. ''provider/'' @ p @ ''/'' \<noteq> q) v)\<rparr>"

definition ex_packages :: "(string, string, string, (string, (string, string) fmap) fmap) packages" where
  "ex_packages = \<lparr>pk_policy = ex_lib, pk_rules = ex_rules, pk_secrets = ex_secrets_lib, pk_relay = ex_relayproto,
     pk_hash = (\<lambda>x. x), pk_parse_url = (\<lambda>u. None), pk_url_ok = (\<lambda>h p. True), pk_profiles = [], pk_loglevel = (\<lambda>_. Reply StatusOK ()),
     pk_kek = (''file'', False, ''KEK'', [])\<rparr>"

definition ex_config :: gw_config where
  "ex_config = \<lparr>gc_auth = ex_auth_options,
     gc_oidc = \<lparr>oi_Issuer = [], oi_Audience = [], oi_ClientID = [], oi_AllowInsecureHTTP = False\<rparr>,
     gc_ttl = DefaultSSHSessionTTL, gc_dataDir = ''/data''\<rparr>"

definition ex_env :: "string list \<Rightarrow> env" where
  "ex_env ks = \<lparr>en_now = (\<lambda>_. unix_epoch), en_flush = (\<lambda>_. ex_flush), en_rnd = (\<lambda>_. None), en_order = (\<lambda>_. ks)\<rparr>"

definition ex_host :: host where
  "ex_host = \<lparr>ho_getenv = (\<lambda>_. None), ho_http = (\<lambda>_. TokDoError), ho_now = unix_epoch, ho_quote = (\<lambda>s. s)\<rparr>"

definition ex_bodies :: bodies where
  "ex_bodies = \<lparr>bd_raw = Inl [], bd_provider = Inl [], bd_refresh = Inl [], bd_proposal = Inl [], bd_reason = [],
     bd_lines = Inr [ex_line 1 ''started'' ''info'']\<rparr>"

definition ex_incoming :: "string list \<Rightarrow> string list \<Rightarrow> Request \<Rightarrow> incoming" where
  "ex_incoming auth ks r = \<lparr>in_req = r, in_env = ex_env ks, in_auth_order = auth, in_since = 0, in_host = ex_host,
     in_bodies = ex_bodies, in_sandbox = Inl [], in_inference = Inl [], in_setting = Inl [], in_template = Inl [],
     in_service = Inl [], in_workspace = Inl [], in_member = Inl [], in_exec = Inl [],
     in_opened = (\<lambda>_. Inr 0), in_upgrade = True, in_accepted = True,
     in_client = (\<lambda>_. \<lparr>sc_open = Some ErrNotConnected, sc_handshake_err = False, sc_session_err = False, sc_run = (\<lambda>_. ([], RunOk))\<rparr>),
     in_deadline = (\<lambda>_. False)\<rparr>"

definition ex_gateway :: "Store \<Rightarrow> (string, (string, string) fmap) fmap gateway" where
  "ex_gateway st = \<lparr>gw_store = st, gw_sec = fmempty, gw_logs = NewHub 4096, gw_hub = NewRelayHub\<rparr>"

definition ex_connect :: Request where
  "ex_connect = (ex_request MethodGet ''/v1/ssh/connect'' (ex_token CHR ''s''))
     \<lparr>rq_Header := [(''Authorization'', ''Bearer '' @ ex_token CHR ''s''), (''X-Sandbox'', ''demo'')]\<rparr>"

lemma ex_next: "rq_Host r = ''127.0.0.1:8080'' \<Longrightarrow> withEdgeRouter url_ok r st = EdgeNext"
proof -
  assume "rq_Host r = ''127.0.0.1:8080''"
  moreover have "edgeServiceName (host_only ''127.0.0.1:8080'') = None" by code_simp
  ultimately show ?thesis by (simp add: withEdgeRouter_def)
qed

lemma ex_connect_route: "mux_handler (routes ex_relayproto) MethodGet ''/v1/ssh/connect'' = MuxFound RtSSHConnect"
  by code_simp

lemma ex_request_simps [simp]:
  "rq_Host (ex_request m path tok) = ''127.0.0.1:8080''" "rq_Method (ex_request m path tok) = m" "rq_Path (ex_request m path tok) = path"
  "rq_Host ex_connect = ''127.0.0.1:8080''" "rq_Method ex_connect = MethodGet" "rq_Path ex_connect = ''/v1/ssh/connect''"
  by (simp_all add: ex_request_def ex_connect_def)

lemma ex_config_simps [simp]: "gc_auth ex_config = ex_auth_options" "gc_ttl ex_config = DefaultSSHSessionTTL"
  by (simp_all add: ex_config_def)

lemma ex_packages_simps [simp]:
  "pk_hash ex_packages = (\<lambda>x. x)" "pk_relay ex_packages = ex_relayproto" "pk_policy ex_packages = ex_lib"
  "pk_rules ex_packages = ex_rules" "pk_secrets ex_packages = ex_secrets_lib" "pk_profiles ex_packages = []"
  by (simp_all add: ex_packages_def)

lemma ex_incoming_simps [simp]:
  "in_req (ex_incoming auth ks r) = r" "in_env (ex_incoming auth ks r) = ex_env ks" "in_auth_order (ex_incoming auth ks r) = auth"
  "in_opened (ex_incoming auth ks r) = (\<lambda>_. Inr 0)" "in_upgrade (ex_incoming auth ks r)" "in_accepted (ex_incoming auth ks r)"
  "in_bodies (ex_incoming auth ks r) = ex_bodies" "in_host (ex_incoming auth ks r) = ex_host"
  "en_order (ex_env ks) j = ks" "en_rnd (ex_env ks) j = None" "en_now (ex_env ks) j = unix_epoch" "en_flush (ex_env ks) j = ex_flush"
  by (simp_all add: ex_incoming_def ex_env_def)

lemma ex_gateway_simps [simp]:
  "gw_store (ex_gateway st) = st" "gw_sec (ex_gateway st) = fmempty" "gw_logs (ex_gateway st) = NewHub 4096"
  "gw_hub (ex_gateway st) = NewRelayHub"
  by (simp_all add: ex_gateway_def)

lemma ex_bridged:
  "snd (serve ex_packages ex_config (ex_incoming [] [ssh_ID ex_session] ex_connect) (ex_gateway (fst (ex_create ex_store)))) =
     Answered (Reply StatusOK (GSsh (SBridge ''demo'' 0)))"
proof -
  let ?st = "fst (ex_create ex_store)" and ?i = "ex_incoming [] [ssh_ID ex_session] ex_connect"
  have tok: "bearerToken ex_connect = ex_token CHR ''s''" and hdr: "TrimSpace (HeaderGet ex_connect (rp_HeaderSandboxID ex_relayproto)) = ''demo''"
    by code_simp+
  have "ValidateSSHSession (\<lambda>x. x) [ssh_ID ex_session] (ex_token CHR ''s'') ''demo'' unix_epoch ?st = (ex_session, None)"
    by (simp add: ValidateSSHSession_def ex_create_store(2) ex_session_def session_expired_def UnixMilli_def ex_secret_def)
  moreover have "resolveSandbox ks ''demo'' ?st = Some (ex_sandbox ''demo'')" for ks
    by (simp add: resolveSandbox_def GetSandbox_def ex_create_store(2))
  ultimately have "snd (handleSSHConnect ex_relayproto (\<lambda>x. x) (\<lambda>_. Inr 0) True True (ex_env [ssh_ID ex_session]) ex_connect
      (ssh_view (ex_gateway ?st))) = Reply StatusOK (SBridge ''demo'' 0)"
    by (simp add: handleSSHConnect_def tok hdr ssh_view_def ex_sandbox_def)
  moreover have "withAuth ex_relayproto (\<lambda>x. x) [] ex_auth_options ex_connect ?st = Serve zero_principal"
    by (simp add: withAuth_def isPublicRoute_def ex_relayproto_def)
  ultimately show ?thesis
    by (simp add: serve_def serve_auth_def ex_next ex_connect_route dispatch_def on_ssh_def Let_def)
qed

definition ex_open_config :: gw_config where
  "ex_open_config = ex_config\<lparr>gc_auth := \<lparr>ao_OIDC = None, ao_AllowUnauthenticated = True\<rparr>\<rparr>"

definition ex_anonymous :: "string \<Rightarrow> string \<Rightarrow> Request" where
  "ex_anonymous m path = (ex_request m path [])\<lparr>rq_Header := []\<rparr>"

lemma ex_anonymous_simps [simp]:
  "rq_Host (ex_anonymous m path) = ''127.0.0.1:8080''" "rq_Method (ex_anonymous m path) = m"
  "rq_Path (ex_anonymous m path) = path" "rq_Header (ex_anonymous m path) = []"
  by (simp_all add: ex_anonymous_def)

lemma ex_anonymous_token [simp]: "bearerToken (ex_anonymous m path) = []"
proof -
  have "\<not> HasPrefix (ToLower []) ''bearer ''" by (simp add: ToLower_def HasPrefix_def)
  then show ?thesis by (simp add: bearerToken_def)
qed

lemma ex_anonymous_passes:
  "\<not> isPublicRoute rp path \<Longrightarrow> withAuth rp H ks (gc_auth ex_open_config) (ex_anonymous m path) st =
     Serve \<lparr>p_Kind = PrincipalUser, p_Subject = ''anonymous'', p_IDP = ''none'', p_Sandbox = []\<rparr>"
  by (simp add: withAuth_def ex_open_config_def resolvePrincipal_def zero_principal_def)

definition ex_revoke :: Request where
  "ex_revoke = ex_anonymous MethodDelete ''/v1/ssh-sessions/ssh-6969696969696969''"

lemma ex_session_id: "ssh_ID ex_session = ''ssh-6969696969696969''"
  by code_simp

lemma ex_revoke_sid: "Trim (TrimPrefix (rq_Path ex_revoke) ''/v1/ssh-sessions/'') ''/'' = ''ssh-6969696969696969''"
  by code_simp

lemma ex_revoked:
  "serve ex_packages ex_open_config (ex_incoming [] [ssh_ID ex_session] ex_revoke) (ex_gateway (fst (ex_create ex_store))) =
     (ex_gateway (fst (RevokeSSHSession ex_flush (ssh_ID ex_session) (fst (ex_create ex_store)))),
      Answered (Reply StatusNoContent (GSsh SNone)))"
proof -
  have route: "mux_handler (routes ex_relayproto) MethodDelete ''/v1/ssh-sessions/ssh-6969696969696969'' = MuxFound RtSession"
    by code_simp
  have "\<not> isPublicRoute ex_relayproto ''/v1/ssh-sessions/ssh-6969696969696969''"
    by (simp add: isPublicRoute_def ex_relayproto_def)
  note pass = ex_anonymous_passes [OF this, of "\<lambda>x. x" "[]" MethodDelete "fst (ex_create ex_store)"]
  have "snd (RevokeSSHSession ex_flush ''ssh-6969696969696969'' (fst (ex_create ex_store))) = None"
    by (simp add: RevokeSSHSession_eq ex_create_store(2) ex_session_id [symmetric] save_err)
  then show ?thesis
    using ex_revoke_sid
    by (simp add: serve_def serve_auth_def ex_next ex_revoke_def pass route dispatch_def on_ssh_def handle_session_def ssh_view_def
        store_reply_def ex_session_id ex_gateway_def)
qed

definition ex_options :: Options where
  "ex_options = \<lparr>opt_Listen = ''127.0.0.1:8080'', opt_DataDir = ''/data'', opt_TLSCert = [], opt_TLSKey = [],
     opt_OIDC = \<lparr>oi_Issuer = [], oi_Audience = [], oi_ClientID = [], oi_AllowInsecureHTTP = False\<rparr>,
     opt_SSHSessionTTL = 0, opt_AllowUnauthenticated = False\<rparr>"

definition ex_token_file :: token_file_env where
  "ex_token_file = \<lparr>tf_write = WriteOk, tf_chmod_err = False, tf_rename_err = False\<rparr>"

definition ex_start :: "fs \<Rightarrow> start_err + gw_config \<times> (string, (string, string) fmap) fmap gateway" where
  "ex_start d = NewHandler ex_open ''id'' (Some (ex_secret CHR ''t'')) ex_flush ex_token_file (\<lambda>_. Inr fmempty) (\<lambda>_. Inl [])
     (\<lambda>_. []) None ''/tmp'' ex_options d"

lemma ex_started:
  assumes "file_inv d"
  shows "\<exists>cfg g. ex_start d = Inr (cfg, g)"
proof -
  obtain st0 where o: "Open ex_open ''/data'' (newGatewayID ''id'') d = Inr (st0, None)"
    using assms by (cases "fs_files d State_json") (auto simp: file_inv_def Open_def ex_open_def prod_eq_iff flush_err)
  have "\<exists>st t. WriteAuthTokenFile (Some (ex_secret CHR ''t'')) ex_flush ex_token_file st0 = (st, Inr t)"
    by (simp add: WriteAuthTokenFile_def EnsureAuthToken_def save_result ex_token_file_def Let_def)
  then obtain st t where "WriteAuthTokenFile (Some (ex_secret CHR ''t'')) ex_flush ex_token_file st0 = (st, Inr t)" by blast
  moreover have "oi_Issuer (oidcFromEnvAndFlags (\<lambda>_. []) (opt_OIDC ex_options)) = []"
    by (simp add: oidcFromEnvAndFlags_def ex_options_def Let_def)
  then have "newOIDCValidator (\<lambda>_. Inl []) (oidcFromEnvAndFlags (\<lambda>_. []) (opt_OIDC ex_options)) = Inr None"
    by (simp add: newOIDCValidator_def)
  moreover have "opt_DataDir ex_options = ''/data''" by (simp add: ex_options_def)
  ultimately show ?thesis using o by (simp add: ex_start_def NewHandler_def Let_def)
qed

section \<open>Properties\<close>

text \<open>
  C7: every gateway state is well formed. Whatever requests arrive, in whatever order, with whatever
  disk failures, reaper ticks and relay activity in between, and however often the gateway is
  restarted on its data directory, also with other settings and with starts that fail half-way, a
  gateway first started on a directory without a state file keeps its store's invariant (records under
  their own names, credentials only for registered sandboxes), log buffers within capacity, and relay
  sessions filed under their sandbox.
\<close>
theorem gateway_invariant:
  assumes "NewHandler oe rid rnd e te open_sec new_oidc getenv home tmp opt d = Inr (cfg', g0)"
    and "fs_files d State_json = None"
    and "reach (\<lambda>g. g = g0) (gw_step pk) g"
  shows "state_inv (state (gw_store g)) \<and> hub_ok (gw_logs g) \<and> session_inv (gw_hub g)"
proof -
  have "gw_initial g0" using assms(1,2) unfolding gw_initial_def by blast
  with assms(3) have "reach gw_initial (gw_step pk) g"
    by (induction rule: reach.induct) (auto intro: reach.intros)
  then have "gw_inv g" by (rule gw_sys.reach_inv)
  then show ?thesis by (simp add: gw_inv_def store_inv_def)
qed

theorem gateway_invariant_witness:
  "\<exists>cfg g0 cfg' g1. ex_start ex_dir = Inr (cfg, g0) \<and> ex_start (disk (gw_store g0)) = Inr (cfg', g1) \<and>
     state_inv (state (gw_store (fst (serve ex_packages cfg' (ex_incoming [] [] ex_connect) g1))))"
proof -
  have d: "file_inv ex_dir" by (simp add: file_inv_def ex_dir_def)
  obtain cfg g0 where s0: "ex_start ex_dir = Inr (cfg, g0)" using ex_started [OF d] by blast
  from NewHandler_inv [OF d s0 [unfolded ex_start_def]] have "file_inv (disk (gw_store g0))"
    by (simp add: gw_inv_def store_inv_def)
  then obtain cfg' g1 where s1: "ex_start (disk (gw_store g0)) = Inr (cfg', g1)" using ex_started by blast
  have "reach (\<lambda>g. g = g0) (gw_step ex_packages) (fst (serve ex_packages cfg' (ex_incoming [] [] ex_connect) g1))"
    by (rule reach_step, rule reach_step, rule reach_start, rule refl,
        rule gw_restart [OF s1 [unfolded ex_start_def]], rule gw_request)
  from gateway_invariant [OF s0 [unfolded ex_start_def] _ this] s0 s1 show ?thesis by (auto simp: ex_dir_def)
qed

text \<open>
  C5: who is bridged to a sandbox. When the gateway answers a request by bridging it to the relay
  channel of a sandbox, the sandbox is registered and the request carries the token of a stored SSH
  session for that very sandbox that is neither revoked nor expired; the channel is one that was
  opened to that sandbox.
\<close>
theorem ssh_bridge_sound:
  assumes "snd (serve pk cfg i g) = Answered (Reply c (GSsh (SBridge n k)))"
    and "is_order (en_order (in_env i) 1) (st_SSHSessions (state (gw_store g)))"
  shows "in_opened i n = Inr k \<and> GetSandbox (gw_store g) n \<noteq> None \<and>
    (\<exists>j sess. mget (st_SSHSessions (state (gw_store g))) j = Some sess \<and> ssh_Sandbox sess = n \<and>
       ssh_TokenHash sess = HashToken (pk_hash pk) (bearerToken (in_req i)) \<and>
       \<not> ssh_Revoked sess \<and> \<not> session_expired (en_now (in_env i) 0) sess)"
  using bridge_session [OF assms] .

theorem ssh_bridge_sound_witness:
  "\<exists>j sess. mget (st_SSHSessions (state (fst (ex_create ex_store)))) j = Some sess \<and> ssh_Sandbox sess = ''demo'' \<and>
     \<not> ssh_Revoked sess \<and> \<not> session_expired unix_epoch sess"
proof -
  have "is_order [ssh_ID ex_session] (st_SSHSessions (state (fst (ex_create ex_store))))"
    by (simp add: ex_create_store(2))
  with ssh_bridge_sound [OF ex_bridged] show ?thesis by (auto simp del: ex_create_store)
qed

text \<open>
  C4: revocation ends all access. Once the gateway has answered 204 to the deletion of an SSH
  session, no later request with that session's token is bridged to any sandbox, whatever requests
  and reaper ticks come in between (unless one of them draws random bytes whose token has the same
  hash).
\<close>
theorem gateway_revocation:
  assumes "snd (serve pk cfg i g) = Answered (Reply StatusNoContent (GSsh SNone))"
    and "sid = Trim (TrimPrefix (rq_Path (in_req i)) ''/v1/ssh-sessions/'') ''/''"
    and "mget (st_SSHSessions (state (gw_store g))) sid = Some sess"
    and "unique_session_hashes (state (gw_store g))"
    and "\<forall>ev\<in>set es. ev_fresh (avoids (pk_hash pk) (ssh_TokenHash sess)) ev"
    and "g' = gw_run pk cfg es (fst (serve pk cfg i g))"
    and "HashToken (pk_hash pk) (bearerToken (in_req j)) = ssh_TokenHash sess"
    and "is_order (en_order (in_env j) 1) (st_SSHSessions (state (gw_store g')))"
  shows "snd (serve pk cfg j g') \<noteq> Answered (Reply c (GSsh (SBridge n k)))"
proof
  assume "snd (serve pk cfg j g') = Answered (Reply c (GSsh (SBridge n k)))"
  from bridge_session [OF this assms(8)] obtain l x where
    x: "mget (st_SSHSessions (state (gw_store g'))) l = Some x" "ssh_TokenHash x = ssh_TokenHash sess" "\<not> ssh_Revoked x"
    by (auto simp: assms(7))
  have "all_revoked (ssh_TokenHash sess) (state (gw_store (fst (serve pk cfg i g))))"
    by (rule revoked_by_request [OF assms(1) assms(3,4) [unfolded assms(2)]])
  with gw_run_evolves [OF assms(5)] have "all_revoked (ssh_TokenHash sess) (state (gw_store g'))"
    unfolding assms(6) using evolves_all_revoked by blast
  with x show False by (auto simp: all_revoked_def)
qed

theorem gateway_revocation_witness:
  "snd (serve ex_packages ex_open_config (ex_incoming [] [] ex_connect)
     (gw_run ex_packages ex_open_config [EvReap unix_epoch ex_flush]
       (fst (serve ex_packages ex_open_config (ex_incoming [] [ssh_ID ex_session] ex_revoke) (ex_gateway (fst (ex_create ex_store)))))))
   \<noteq> Answered (Reply StatusOK (GSsh (SBridge ''demo'' 0)))"
proof (rule gateway_revocation [OF arg_cong [OF ex_revoked, of snd, simplified] refl _ _ _ refl])
  let ?st = "fst (ex_create ex_store)"
  show "mget (st_SSHSessions (state (gw_store (ex_gateway ?st))))
      (Trim (TrimPrefix (rq_Path (in_req (ex_incoming [] [ssh_ID ex_session] ex_revoke))) ''/v1/ssh-sessions/'') ''/'') = Some ex_session"
    using ex_revoke_sid by (simp add: ex_create_store(2) ex_session_id)
  show "unique_session_hashes (state (gw_store (ex_gateway ?st)))"
    by (auto simp: ex_create_store(2) unique_session_hashes_def split: if_splits)
  have "bearerToken ex_connect = ex_token CHR ''s''" by code_simp
  then show "HashToken (pk_hash ex_packages) (bearerToken (in_req (ex_incoming [] [] ex_connect))) = ssh_TokenHash ex_session"
    by (simp add: ex_session_def)
  have "st_SSHSessions (state (fst (RevokeSSHSession ex_flush (ssh_ID ex_session) ?st))) =
      Some (fmupd (ssh_ID ex_session) (ex_session\<lparr>ssh_Revoked := True\<rparr>) fmempty)"
    by (simp add: RevokeSSHSession_eq flush ex_create_store(2))
  then have "st_SSHSessions (state (fst (ReapSSHSessions unix_epoch ex_flush (fst (RevokeSSHSession ex_flush (ssh_ID ex_session) ?st))))) =
      Some fmempty"
    by (simp add: ReapSSHSessions_def case_prod_beta flush mkeep_def mlen_def Let_def)
  then show "is_order (en_order (in_env (ex_incoming [] [] ex_connect)) 1) (st_SSHSessions (state (gw_store
      (gw_run ex_packages ex_open_config [EvReap unix_epoch ex_flush]
        (fst (serve ex_packages ex_open_config (ex_incoming [] [ssh_ID ex_session] ex_revoke) (ex_gateway ?st)))))))"
    by (simp add: gw_run_def ex_revoked reapSSHSessions_def case_prod_beta)
qed (simp del: ball_simps)

end
