(* ===== verification/Gateway_Access.thy ===== *)
theory Gateway_Access
  imports Gateway_Props
begin

text \<open>
  Who can change what through the gateway: requests without credentials, requests with a
  supervisor's token, and the deletion of a sandbox. The paths of package \<open>relayproto\<close> are only
  known to be apart from the gateway's own routes, \<open>relay_paths_ok\<close>.
\<close>

section \<open>Routes of the supervisor and public routes\<close>

definition relay_paths_ok :: "relayproto \<Rightarrow> bool" where
  "relay_paths_ok rp \<longleftrightarrow>
     (\<forall>pat\<in>set (map fst fixed_routes).
        \<forall>q\<in>set [rp_PathSSHConnect rp, rp_PathSupervisorConnect rp, rp_PathSupervisorRelay rp].
          \<not> HasPrefix pat q \<and> \<not> HasPrefix q pat)"

lemma pat_matches_prefix: "pat_matches pat path \<Longrightarrow> HasPrefix path pat"
  by (auto simp: pat_matches_def HasPrefix_def)

lemma HasPrefix_same_cases: "HasPrefix path a \<Longrightarrow> HasPrefix path b \<Longrightarrow> HasPrefix a b \<or> HasPrefix b a"
  using prefix_same_cases by (auto simp: HasPrefix_def)

lemma fixed_not_relay:
  assumes "relay_paths_ok rp" "(pat, rt) \<in> set fixed_routes" "HasPrefix path pat"
  shows "\<not> HasPrefix path (rp_PathSSHConnect rp)" "\<not> HasPrefix path (rp_PathSupervisorConnect rp)"
    "\<not> HasPrefix path (rp_PathSupervisorRelay rp)"
proof -
  have "pat \<in> set (map fst fixed_routes)" using assms(2) by force
  then have "\<forall>q\<in>set [rp_PathSSHConnect rp, rp_PathSupervisorConnect rp, rp_PathSupervisorRelay rp].
      \<not> HasPrefix pat q \<and> \<not> HasPrefix q pat"
    using assms(1) unfolding relay_paths_ok_def by blast
  then show "\<not> HasPrefix path (rp_PathSSHConnect rp)" "\<not> HasPrefix path (rp_PathSupervisorConnect rp)"
    "\<not> HasPrefix path (rp_PathSupervisorRelay rp)"
    using HasPrefix_same_cases [OF assms(3)] by auto
qed

lemma HasPrefix_refl [simp]: "HasPrefix s s"
  by (simp add: HasPrefix_def)

lemma whoami_route: "list_all (\<lambda>(pat, rt). pat_matches pat ''/v1/whoami'' \<longrightarrow> rt = RtWhoami) fixed_routes"
  by code_simp

lemma sandboxes_route:
  "list_all (\<lambda>(pat, rt). HasPrefix pat ''/v1/sandboxes/'' \<or> HasPrefix ''/v1/sandboxes/'' pat \<longrightarrow>
     rt = RtSandbox \<and> pat = ''/v1/sandboxes/'' \<or> pat = ''/v1/sandboxes'') fixed_routes"
  by code_simp

lemma relay_routes:
  "(pat, rt) \<in> set (routes rp) \<Longrightarrow> (pat, rt) \<notin> set fixed_routes \<Longrightarrow> rt \<in> {RtSSHConnect, RtSupervisorConnect, RtSupervisorRelay}"
  by (auto simp: routes_def)

lemma below_sandboxes:
  assumes "(pat, rt) \<in> set fixed_routes" "pat_matches pat path" "HasPrefix path ''/v1/sandboxes/''"
  shows "rt = RtSandbox"
proof -
  have "HasPrefix pat ''/v1/sandboxes/'' \<or> HasPrefix ''/v1/sandboxes/'' pat"
    using HasPrefix_same_cases [OF pat_matches_prefix [OF assms(2)] assms(3)] by blast
  moreover have "pat \<noteq> ''/v1/sandboxes''"
    using assms(2,3) by (auto simp: pat_matches_def HasPrefix_def HasSuffix_def suffix_def)
  ultimately show ?thesis using sandboxes_route assms(1) by (auto simp: list_all_iff)
qed

text \<open>The routes a request with a supervisor's token can take.\<close>

lemma supervisor_route:
  assumes "relay_paths_ok rp" "sandboxRouteAllowed rp r sb"
    and "mux_handler (routes rp) meth (rq_Path r) = MuxFound rt"
  shows "rt \<in> {RtSSHConnect, RtSupervisorConnect, RtSupervisorRelay, RtWhoami} \<or>
    rt = RtSandbox \<and> (\<exists>rest. rq_Path r = ''/v1/sandboxes/'' @ sb @ ''/'' @ rest \<and>
      (rq_Method r, Split (Trim rest ''/'') CHR ''/'') \<in> supervisor_calls)"
proof -
  from mux_handler_sound [OF assms(3)] obtain pat where pat: "(pat, rt) \<in> set (routes rp)" "pat_matches pat (rq_Path r)" by blast
  show ?thesis
  proof (cases "(pat, rt) \<in> set fixed_routes")
    case True
    note apart = fixed_not_relay [OF assms(1) True pat_matches_prefix [OF pat(2)]]
    show ?thesis
    proof (cases "rq_Path r = ''/v1/whoami''")
      case whoami: True
      with whoami_route True pat(2) show ?thesis by (auto simp: list_all_iff)
    next
      case False
      have "rq_Path r \<noteq> rp_PathSupervisorConnect rp" using apart(2) by auto
      from allowed_parts [OF assms(2) this apart(3) False] obtain rest where
        rest: "rq_Path r = ''/v1/sandboxes/'' @ sb @ ''/'' @ rest" "(rq_Method r, Split (Trim rest ''/'') CHR ''/'') \<in> supervisor_calls"
        by blast
      have "HasPrefix (rq_Path r) ''/v1/sandboxes/''" unfolding rest(1) by (rule HasPrefix_append)
      from below_sandboxes [OF True pat(2) this] rest show ?thesis by blast
    qed
  qed (use relay_routes [OF pat(1)] in blast)
qed

section \<open>What a supervisor can change\<close>

text \<open>
  The secrets are as they were; in the store only the proposals (and the time of the last change)
  differ, the logs and the control stream of other sandboxes are untouched.
\<close>

definition supervisor_frame :: "string \<Rightarrow> 'sec gateway \<Rightarrow> 'sec gateway \<Rightarrow> bool" where
  "supervisor_frame sb g g' \<longleftrightarrow>
     gw_sec g' = gw_sec g \<and>
     (\<exists>ps t. state (gw_store g') = (state (gw_store g))\<lparr>st_Proposals := ps, st_UpdatedAt := t\<rparr>) \<and>
     (\<forall>n. n \<noteq> sb \<longrightarrow> hub_buf (gw_logs g') n = hub_buf (gw_logs g) n) \<and>
     (\<forall>n. n \<noteq> sb \<longrightarrow> fmlookup (rh_sessions (gw_hub g')) n = fmlookup (rh_sessions (gw_hub g)) n)"

lemma State_same: "\<exists>ps t. st = st\<lparr>st_Proposals := ps, st_UpdatedAt := t\<rparr>"
  by (rule exI [of _ "st_Proposals st"], rule exI [of _ "st_UpdatedAt st"]) simp

lemma supervisor_frame_refl [simp]: "supervisor_frame sb g g"
  unfolding supervisor_frame_def using State_same [of "state (gw_store g)"] by simp

lemma supervisor_frame_hub:
  "(\<And>n. n \<noteq> sb \<Longrightarrow> fmlookup (rh_sessions h) n = fmlookup (rh_sessions (gw_hub g)) n) \<Longrightarrow> supervisor_frame sb g (g\<lparr>gw_hub := h\<rparr>)"
  unfolding supervisor_frame_def using State_same [of "state (gw_store g)"] by simp

lemma ServeSupervisor_start_other:
  "n \<noteq> sb \<Longrightarrow> fmlookup (rh_sessions (ServeSupervisor_start sb h)) n = fmlookup (rh_sessions h) n"
  by (simp add: ServeSupervisor_start_def Let_def split: option.split)

lemma on_ssh_hub: "ss_store (fst r) = gw_store g \<Longrightarrow> fst (on_ssh g r) = g\<lparr>gw_hub := ss_hub (fst r)\<rparr>"
  by (simp add: on_ssh_def)

lemma handleSSHConnect_state:
  "fst (handleSSHConnect rp H op up acc en r s) = s \<or>
   (\<exists>c. fst (handleSSHConnect rp H op up acc en r s) = s\<lparr>ss_hub := conn_close c (ss_hub s)\<rparr>)"
proof -
  define name where "name = TrimSpace (HeaderGet r (rp_HeaderSandboxID rp))"
  define sb where "sb = (case resolveSandbox (en_order en 0) name (ss_store s) of None \<Rightarrow> zero_named name | Some sb \<Rightarrow> sb)"
  obtain sess x where v: "ValidateSSHSession H (en_order en 1) (bearerToken r) (sb_Name sb) (en_now en 0) (ss_store s) = (sess, x)"
    by fastforce
  show ?thesis
    unfolding handleSSHConnect_def Let_def name_def [symmetric] sb_def [symmetric] v
    by (cases x; cases "op (sb_Name sb)") auto
qed

lemma connect_frame: "supervisor_frame sb g (fst (on_ssh g (handleSSHConnect rp H op up acc en r (ssh_view g))))"
proof -
  let ?r = "handleSSHConnect rp H op up acc en r (ssh_view g)"
  have "ss_store (fst ?r) = gw_store g" "rh_sessions (ss_hub (fst ?r)) = rh_sessions (gw_hub g)"
    using handleSSHConnect_state [of rp H op up acc en r "ssh_view g"] by (auto simp: ssh_view_def)
  then show ?thesis by (simp add: on_ssh_hub supervisor_frame_hub)
qed

lemma streams_frame:
  assumes "p_Sandbox p = sb"
  shows "supervisor_frame sb g (fst (on_ssh g (handleSupervisorConnect acc r p (ssh_view g))))"
    and "supervisor_frame sb g (fst (on_ssh g (handleSupervisorRelay rp r p (ssh_view g))))"
proof -
  let ?c = "handleSupervisorConnect acc r p (ssh_view g)" and ?d = "handleSupervisorRelay rp r p (ssh_view g)"
  have "ss_store (fst ?c) = gw_store g"
    "\<forall>n. n \<noteq> sb \<longrightarrow> fmlookup (rh_sessions (ss_hub (fst ?c))) n = fmlookup (rh_sessions (gw_hub g)) n"
    by (simp_all add: handleSupervisorConnect_def ssh_view_def assms ServeSupervisor_start_other)
  then show "supervisor_frame sb g (fst (on_ssh g ?c))" by (simp add: on_ssh_hub supervisor_frame_hub)
  have "ss_store (fst ?d) = gw_store g \<and> rh_sessions (ss_hub (fst ?d)) = rh_sessions (gw_hub g)"
    by (auto simp: handleSupervisorRelay_def Let_def ssh_view_def ServeRelay_take_def split: option.split)
  then show "supervisor_frame sb g (fst (on_ssh g ?d))" by (simp add: on_ssh_hub supervisor_frame_hub)
qed

lemma create_proposal_frame:
  "\<exists>ps t. state (fst (create_proposal v n b st)) = (state st)\<lparr>st_Proposals := ps, st_UpdatedAt := t\<rparr>"
proof -
  have eq: "\<exists>ps' t'. x\<lparr>st_Proposals := ps, st_UpdatedAt := t\<rparr> = x\<lparr>st_Proposals := ps', st_UpdatedAt := t'\<rparr>"
    "\<exists>ps' t'. x\<lparr>st_Proposals := ps\<rparr> = x\<lparr>st_Proposals := ps', st_UpdatedAt := t'\<rparr>" for x :: State and ps t
    by (blast, rule exI [of _ ps], rule exI [of _ "st_UpdatedAt x"]) simp
  have "\<exists>ps t. state (fst (PutProposal a c e p st)) = (state st)\<lparr>st_Proposals := ps, st_UpdatedAt := t\<rparr>" for a c e p
    by (auto simp: PutProposal_def Let_def flush eq)
  then show ?thesis
    using State_same [of "state st"] by (simp add: create_proposal_def split: sum.split)
qed

text \<open>The calls of \<open>supervisor_calls\<close>, in the handler that serves them.\<close>

lemma handleSandboxSubpath_calls:
  assumes "(rq_Method r, Split (Trim rest ''/'') CHR ''/'') \<in> supervisor_calls"
  shows "\<exists>st. fst (handleSandboxSubpath lib nl sl d en since r b n rest g) = g\<lparr>pa_store := st\<rparr> \<and>
        (\<exists>ps t. state st = (state (pa_store g))\<lparr>st_Proposals := ps, st_UpdatedAt := t\<rparr>) \<or>
     (\<exists>lines. fst (handleSandboxSubpath lib nl sl d en since r b n rest g) =
        g\<lparr>pa_logs := hub_Append (en_now en) n lines (pa_logs g)\<rparr>)"
proof -
  let ?res = "fst (handleSandboxSubpath lib nl sl d en since r b n rest g)"
  have same: "?res = g \<Longrightarrow> ?thesis"
    using State_same [of "state (pa_store g)"] by (intro exI [of _ "pa_store g"]) simp
  from assms consider (read) "rq_Method r = MethodGet" "Split (Trim rest ''/'') CHR ''/'' \<in> {[''secrets''], [''policy''], [''effective-policy'']}"
    | (logs) "rq_Method r = MethodPost" "Split (Trim rest ''/'') CHR ''/'' = [''logs'']"
    | (propose) "rq_Method r = MethodPost" "Split (Trim rest ''/'') CHR ''/'' = [''proposals'']"
    | (proposal) x where "rq_Method r = MethodGet" "Split (Trim rest ''/'') CHR ''/'' = [''proposals'', x]"
    by (auto simp: supervisor_calls_def)
  then show ?thesis
  proof cases
    case read
    have "fst (handleSandboxPolicy lib d en r b n g) = g" using read(1)
      by (simp add: handleSandboxPolicy_def Let_def split: option.split)
    moreover have "fst (case x of Inl _ \<Rightarrow> (g, a) | Inr out \<Rightarrow> (g, c out)) = g" for x :: "api_err + 'y" and a c
      by (cases x) simp_all
    ultimately have "?res = g" using read(1,2) unfolding handleSandboxSubpath_def Let_def by (elim insertE emptyE) simp_all
    then show ?thesis by (rule same)
  next
    case logs
    then show ?thesis
      using same by (cases "bd_lines b") (auto simp: handleSandboxSubpath_def handleSandboxLogs_def)
  next
    case propose
    have "Trim [] ''/'' = []" by (simp add: Trim_def)
    with propose have "?res = g\<lparr>pa_store := fst (create_proposal (review_of en) n (bd_proposal b) (pa_store g))\<rparr>"
      by (simp add: handleSandboxSubpath_def handleSandboxProposals_def Let_def case_prod_beta)
    then show ?thesis using create_proposal_frame by blast
  next
    case proposal
    then have "?res = g\<lparr>pa_store := pa_store g\<rparr>"
      by (auto simp: handleSandboxSubpath_def handleSandboxProposals_def Let_def case_prod_beta split: option.split)
    then show ?thesis using same by simp
  qed
qed

lemma supervisor_sub:
  assumes "(rq_Method (in_req i), Split (Trim sub ''/'') CHR ''/'') \<in> supervisor_calls"
    and "sandbox_route (rq_Path (in_req i)) = SandboxSub sb sub"
  shows "supervisor_frame sb g (fst (handle_sandbox pk cfg i p g))"
proof -
  have "Trim sub ''/'' = Join (Split (Trim sub ''/'') CHR ''/'') CHR ''/''" by (simp add: Join_Split)
  then have "Trim sub ''/'' \<notin> {''ssh-session'', ''supervisor-token'', ''exec''}"
    using assms(1) by (auto simp: supervisor_calls_def)
  then have none: "sandboxSubpath H ttl client dl en r q b n (Trim sub ''/'') s = None" for H ttl client dl en r q b n s
    by (simp add: sandboxSubpath_def)
  have append: "hub_buf (hub_Append nows sb lines h) m = hub_buf h m" if "m \<noteq> sb" for nows lines h m
    using that by (simp add: hub_Append_def case_prod_beta)
  have r: "handle_sandbox pk cfg i p g = on_papi g (handleSandboxSubpath (pk_policy pk) (pk_rules pk) (pk_secrets pk)
      (pk_profiles pk) (in_env i) (in_since i) (in_req i) (in_bodies i) sb sub (papi_view g))"
    by (simp add: handle_sandbox_def assms(2) none)
  show ?thesis
    using handleSandboxSubpath_calls [OF assms(1), of "pk_policy pk" "pk_rules pk" "pk_secrets pk" "pk_profiles pk" "in_env i"
        "in_since i" "in_bodies i" sb "papi_view g"]
    unfolding r on_papi_def supervisor_frame_def by (auto simp: papi_view_def append State_same) blast
qed

section \<open>What a request without credentials can change\<close>

lemma public_literals:
  "list_all (\<lambda>(pat, rt). \<forall>path\<in>set [''/healthz'', ''/v1/healthz'', ''/v1/auth/oidc'', ''/v1/auth/login''].
     pat_matches pat path \<longrightarrow> rt \<in> set [RtHealthz, RtOidc, RtLogin]) fixed_routes"
  by code_simp

lemma public_route:
  assumes "relay_paths_ok rp" "isPublicRoute rp path" "mux_handler (routes rp) meth path = MuxFound rt"
  shows "rt \<in> {RtSSHConnect, RtSupervisorConnect, RtSupervisorRelay, RtHealthz, RtOidc, RtLogin}"
proof -
  from mux_handler_sound [OF assms(3)] obtain pat where pat: "(pat, rt) \<in> set (routes rp)" "pat_matches pat path" by blast
  show ?thesis
  proof (cases "(pat, rt) \<in> set fixed_routes")
    case True
    have "path \<noteq> rp_PathSSHConnect rp"
      using fixed_not_relay(1) [OF assms(1) True pat_matches_prefix [OF pat(2)]] by auto
    with assms(2) have "path \<in> set [''/healthz'', ''/v1/healthz'', ''/v1/auth/oidc'', ''/v1/auth/login'']"
      by (auto simp: isPublicRoute_def)
    with public_literals True pat(2) have "rt \<in> set [RtHealthz, RtOidc, RtLogin]" unfolding list_all_iff by blast
    then show ?thesis by auto
  qed (use relay_routes [OF pat(1)] in blast)
qed

lemma map_prod_Answered: "map_prod id Answered r = (a, b) \<longleftrightarrow> (\<exists>ans. r = (a, ans) \<and> b = Answered ans)"
  by (cases r) auto

lemma login_store:
  "fst (handle_login parse en r st) = st \<or>
     isLoopbackRequest r \<and> fst (handle_login parse en r st) = fst (EnsureAuthToken (en_rnd en 0) (en_flush en 0) st)"
  by (auto simp: handle_login_def Let_def split: prod.split sum.split)

lemma login_answer:
  "snd (handle_login parse en r st) = Reply c (PLogin t) \<Longrightarrow> isLoopbackRequest r"
  "snd (handle_login parse en r st) = Reply c (PRedirect u) \<Longrightarrow>
     isLoopbackRequest r \<and> isLoopbackRedirect parse (QueryGet r ''redirect_uri'')"
  by (auto simp: handle_login_def Let_def split: if_splits prod.splits sum.splits)

text \<open>What such a request leaves as it was, and what it may learn.\<close>

definition anonymous_ok :: "(string \<Rightarrow> URL option) \<Rightarrow> incoming \<Rightarrow> 'sec gateway \<Rightarrow> 'sec gateway \<times> 'prof gw_payload answer \<Rightarrow> bool" where
  "anonymous_ok parse i g res \<longleftrightarrow>
     gw_sec (fst res) = gw_sec g \<and> gw_logs (fst res) = gw_logs g \<and> rh_sessions (gw_hub (fst res)) = rh_sessions (gw_hub g) \<and>
     (gw_store (fst res) = gw_store g \<or>
      isLoopbackRequest (in_req i) \<and>
        gw_store (fst res) = fst (EnsureAuthToken (en_rnd (in_env i) 0) (en_flush (in_env i) 0) (gw_store g))) \<and>
     (\<forall>c t. snd res = Reply c (GParity (PLogin t)) \<longrightarrow> isLoopbackRequest (in_req i)) \<and>
     (\<forall>c u. snd res = Reply c (GParity (PRedirect u)) \<longrightarrow>
        isLoopbackRequest (in_req i) \<and> isLoopbackRedirect parse (QueryGet (in_req i) ''redirect_uri''))"

lemma anonymous_dispatch:
  assumes "rt \<in> {RtSSHConnect, RtSupervisorConnect, RtSupervisorRelay, RtHealthz, RtOidc, RtLogin}"
  shows "anonymous_ok (pk_parse_url pk) i g (dispatch pk cfg i zero_principal rt g)"
proof -
  have streams: "handleSupervisorConnect acc r zero_principal s = (s, Error StatusForbidden ''supervisor token required'')"
    "handleSupervisorRelay rp r zero_principal s = (s, Error StatusForbidden ''supervisor token required'')" for acc r rp s
    by (simp_all add: handleSupervisorConnect_def handleSupervisorRelay_def zero_principal_def)
  let ?c = "handleSSHConnect (pk_relay pk) (pk_hash pk) (in_opened i) (in_upgrade i) (in_accepted i) (in_env i) (in_req i) (ssh_view g)"
  have connect: "ss_store (fst ?c) = gw_store g" "rh_sessions (ss_hub (fst ?c)) = rh_sessions (gw_hub g)"
    using handleSSHConnect_state [of "pk_relay pk" "pk_hash pk" "in_opened i" "in_upgrade i" "in_accepted i" "in_env i" "in_req i"
        "ssh_view g"] by (auto simp: ssh_view_def)
  note login = login_store [of "pk_parse_url pk" "in_env i" "in_req i" "gw_store g"]
    login_answer [of "pk_parse_url pk" "in_env i" "in_req i" "gw_store g"]
  from assms show ?thesis
    by (elim insertE emptyE)
      (use connect login in \<open>simp_all add: anonymous_ok_def dispatch_def Let_def on_ssh_def on_parity_def map_answer_Reply streams
        ssh_view_def handle_healthz_def handle_oidc_def\<close>)
qed

section \<open>Deleting a sandbox\<close>

lemma parity_not_none: "snd (on_parity g r1) \<noteq> Reply c GNone" "snd (on_ssh g r2) \<noteq> Reply c GNone" "snd (on_papi g r3) \<noteq> Reply c GNone"
  by (simp_all add: on_parity_def on_ssh_def on_papi_def map_answer_Reply)

lemma delete_route:
  assumes "snd (dispatch pk cfg i p rt g) = Reply c GNone" "rq_Method (in_req i) = MethodDelete"
  shows "\<exists>n. sandbox_route (rq_Path (in_req i)) = SandboxItem n \<and>
    dispatch pk cfg i p rt g = handle_sandbox_item (in_env i) (in_req i) (in_sandbox i) n g"
proof -
  have "snd (handle_logs i g) \<noteq> Reply c GNone"
    by (auto simp: handle_logs_def Let_def parity_not_none split: prod.split)
  with assms have "rt = RtSandbox"
    by (cases rt) (auto simp: dispatch_def Let_def parity_not_none map_answer_Reply handle_healthz_def handle_info_def
        handle_sandboxes_def handle_oidc_def handle_global_policy_def split: if_splits)
  with assms show ?thesis
    by (auto simp: dispatch_def handle_sandbox_def parity_not_none split: sandbox_path.splits option.splits)
qed

lemma sandbox_route_item: "sandbox_route path = SandboxItem n \<Longrightarrow> n \<noteq> []"
  by (auto simp: sandbox_route_def Let_def split: prod.splits if_splits)

lemma Disconnect_lookup: "fmlookup (rh_sessions (Disconnect n h)) m = (if m = n then None else fmlookup (rh_sessions h) m)"
  by (simp add: Disconnect_def Let_def split: option.split)

section \<open>Properties\<close>

text \<open>
  C2: what a supervisor can change through the gateway. A request that is served with a sandbox
  principal leaves the secret store, all records of the store but the proposals, and the logs and
  control streams of all other sandboxes as they were. (\<open>relayproto\<close>'s paths are apart from the
  gateway's own; sandbox names are path segments.)
\<close>
theorem supervisor_request_frame:
  assumes "relay_paths_ok (pk_relay pk)"
    and "withAuth (pk_relay pk) (pk_hash pk) (in_auth_order i) (gc_auth cfg) (in_req i) (gw_store g) = Serve p"
    and "p_Kind p = PrincipalSandbox" "p_Sandbox p = sb" "sb \<noteq> []" "CHR ''/'' \<notin> set sb"
    and "g' = fst (serve pk cfg i g)"
  shows "gw_sec g' = gw_sec g \<and>
    (\<exists>ps t. state (gw_store g') = (state (gw_store g))\<lparr>st_Proposals := ps, st_UpdatedAt := t\<rparr>) \<and>
    (\<forall>n. n \<noteq> sb \<longrightarrow> hub_buf (gw_logs g') n = hub_buf (gw_logs g) n \<and>
       fmlookup (rh_sessions (gw_hub g')) n = fmlookup (rh_sessions (gw_hub g)) n)"
proof -
  have allowed: "sandboxRouteAllowed (pk_relay pk) (in_req i) sb"
    using withAuth_Serve [OF assms(2)] assms(3,4) by (auto simp: zero_principal_def)
  have "supervisor_frame sb g (fst (dispatch pk cfg i p rt g))"
    if m: "mux_handler (routes (pk_relay pk)) (rq_Method (in_req i)) (rq_Path (in_req i)) = MuxFound rt" for rt
  proof (cases "rt = RtSandbox")
    case True
    with supervisor_route [OF assms(1) allowed m] obtain rest where
      rest: "rq_Path (in_req i) = ''/v1/sandboxes/'' @ sb @ ''/'' @ rest"
      "(rq_Method (in_req i), Split (Trim rest ''/'') CHR ''/'') \<in> supervisor_calls" by blast
    from rest(2) have "Trim rest ''/'' \<noteq> []" using supervisor_calls_nonempty by metis
    from sandbox_route_sub [OF assms(5,6) this] obtain sub where
      "sandbox_route (rq_Path (in_req i)) = SandboxSub sb sub" "Trim sub ''/'' = Trim rest ''/''"
      unfolding rest(1) by blast
    with rest(2) show ?thesis using supervisor_sub [of i sub sb] by (simp add: True dispatch_def)
  next
    case False
    with supervisor_route [OF assms(1) allowed m]
    have "rt \<in> {RtSSHConnect, RtSupervisorConnect, RtSupervisorRelay, RtWhoami}" by blast
    then show ?thesis
      using connect_frame streams_frame [OF assms(4)]
      by (auto simp: dispatch_def Let_def on_parity_def handle_whoami_def case_prod_beta)
  qed
  then have "supervisor_frame sb g g'"
    by (auto simp: assms(2,7) serve_def serve_auth_def split: edge_result.split mux_result.split)
  then show ?thesis by (simp add: supervisor_frame_def)
qed

lemma ex_relay_paths: "relay_paths_ok ex_relayproto"
  by code_simp

theorem supervisor_request_frame_witness:
  "gw_sec (fst (serve ex_packages ex_config (ex_incoming [''demo''] []
     (ex_request MethodGet ''/v1/sandboxes/demo/secrets'' (ex_token CHR ''a''))) (ex_gateway (ex_issue CHR ''a'' ex_store)))) = fmempty"
  using supervisor_request_frame [of ex_packages "ex_incoming [''demo''] [] (ex_request MethodGet ''/v1/sandboxes/demo/secrets'' (ex_token CHR ''a''))"
      ex_config "ex_gateway (ex_issue CHR ''a'' ex_store)", OF _ _ _ refl _ _ refl] ex_supervisor_passes ex_relay_paths
  by simp

text \<open>
  C3: requests without valid credentials change nothing. A request that is not served with a user
  or sandbox principal leaves secrets, logs and control streams as they are and the store too, except
  that the local login may create the gateway's own token; only requests from the loopback interface
  get there, and the token is only ever answered to them, or sent to a loopback redirect address.
\<close>
theorem anonymous_request_harmless:
  assumes "relay_paths_ok (pk_relay pk)"
    and "\<forall>p. withAuth (pk_relay pk) (pk_hash pk) (in_auth_order i) (gc_auth cfg) (in_req i) (gw_store g) = Serve p \<longrightarrow>
           p_Kind p = PrincipalNone"
    and "serve pk cfg i g = (g', res)"
  shows "gw_sec g' = gw_sec g \<and> gw_logs g' = gw_logs g \<and> rh_sessions (gw_hub g') = rh_sessions (gw_hub g) \<and>
    (gw_store g' = gw_store g \<or>
     isLoopbackRequest (in_req i) \<and>
       gw_store g' = fst (EnsureAuthToken (en_rnd (in_env i) 0) (en_flush (in_env i) 0) (gw_store g))) \<and>
    (\<forall>c t. res = Answered (Reply c (GParity (PLogin t))) \<longrightarrow> isLoopbackRequest (in_req i)) \<and>
    (\<forall>c u. res = Answered (Reply c (GParity (PRedirect u))) \<longrightarrow>
       isLoopbackRequest (in_req i) \<and> isLoopbackRedirect (pk_parse_url pk) (QueryGet (in_req i) ''redirect_uri''))"
proof -
  have "anonymous_ok (pk_parse_url pk) i g (dispatch pk cfg i p rt g)"
    if "withAuth (pk_relay pk) (pk_hash pk) (in_auth_order i) (gc_auth cfg) (in_req i) (gw_store g) = Serve p"
      and m: "mux_handler (routes (pk_relay pk)) (rq_Method (in_req i)) (rq_Path (in_req i)) = MuxFound rt" for p rt
  proof -
    have "isPublicRoute (pk_relay pk) (rq_Path (in_req i)) \<and> p = zero_principal"
      using withAuth_Serve [OF that(1)] assms(2) that(1) by auto
    with public_route [OF assms(1) _ m] show ?thesis using anonymous_dispatch by blast
  qed
  then have "g' = g \<and> (\<forall>c v. res \<noteq> Answered (Reply c v)) \<or> (\<exists>ans. res = Answered ans \<and> anonymous_ok (pk_parse_url pk) i g (g', ans))"
    using assms(3) unfolding serve_def serve_auth_def
    by (force simp: map_prod_Answered split: edge_result.splits auth_result.splits mux_result.splits)
  then show ?thesis unfolding anonymous_ok_def by auto
qed

theorem anonymous_request_harmless_witness:
  "gw_sec (fst (serve ex_packages ex_config (ex_incoming [] [] (ex_anonymous MethodDelete ''/v1/sandboxes/demo'')) (ex_gateway ex_store))) = fmempty \<and>
   GetSandbox (gw_store (fst (serve ex_packages ex_config (ex_incoming [] [] (ex_anonymous MethodDelete ''/v1/sandboxes/demo''))
     (ex_gateway ex_store)))) ''demo'' = Some (ex_sandbox ''demo'')"
proof -
  let ?i = "ex_incoming [] [] (ex_anonymous MethodDelete ''/v1/sandboxes/demo'')"
  obtain g' res where s: "serve ex_packages ex_config ?i (ex_gateway ex_store) = (g', res)" by fastforce
  have "withAuth ex_relayproto (\<lambda>x. x) [] ex_auth_options (ex_anonymous MethodDelete ''/v1/sandboxes/demo'') ex_store =
      Denied StatusUnauthorized ''authentication required (whaleshell gateway login)''"
    by (simp add: withAuth_def isPublicRoute_def ex_relayproto_def resolvePrincipal_def zero_principal_def ex_auth_options_def)
  moreover have "GetSandbox (fst (EnsureAuthToken rnd e ex_store)) ''demo'' = Some (ex_sandbox ''demo'')" for rnd e
    by (auto simp: EnsureAuthToken_def GetSandbox_def save_result flush split: option.split)
  ultimately show ?thesis using anonymous_request_harmless [OF _ _ s] s ex_relay_paths by auto
qed

text \<open>
  C6: deleting a sandbox is complete. When the gateway answers 204 to a \<open>DELETE\<close> of a sandbox, the
  sandbox, its supervisor token and all its SSH sessions are gone, its control stream is no longer
  registered and its logs are dropped; the other sandboxes, their tokens, sessions, streams and logs,
  every other table and value of the state (its time stamp apart) and the secrets are as they were, and
  \<open>state.json\<close> holds the state without the sandbox.
\<close>
theorem delete_request_complete:
  assumes "rq_Method (in_req i) = MethodDelete"
    and "serve pk cfg i g = (g', Answered (Reply StatusNoContent GNone))"
  shows "\<exists>name. sandbox_route (rq_Path (in_req i)) = SandboxItem name \<and> name \<noteq> [] \<and>
    GetSandbox (gw_store g') = (GetSandbox (gw_store g))(name := None) \<and>
    mget (st_SandboxTokens (state (gw_store g'))) = (mget (st_SandboxTokens (state (gw_store g))))(name := None) \<and>
    (\<forall>j x. mget (st_SSHSessions (state (gw_store g'))) j = Some x \<longleftrightarrow>
       mget (st_SSHSessions (state (gw_store g))) j = Some x \<and> ssh_Sandbox x \<noteq> name) \<and>
    fmlookup (rh_sessions (gw_hub g')) = (fmlookup (rh_sessions (gw_hub g)))(name := None) \<and>
    hub_buf (gw_logs g') = (hub_buf (gw_logs g))(name := new_buffer (h_max (gw_logs g))) \<and>
    gw_sec g' = gw_sec g \<and>
    (\<exists>sbs toks sess now. state (gw_store g') = (state (gw_store g))\<lparr>st_Sandboxes := sbs,
       st_SandboxTokens := toks, st_SSHSessions := sess, st_UpdatedAt := now\<rparr>) \<and>
    fs_files (disk (gw_store g')) State_json =
      Some \<lparr>f_content = JsonDoc (MarshalState (state (gw_store g'))), f_mode = owner_rw\<rparr>"
proof -
  have "snd (serve pk cfg i g) = Answered (Reply StatusNoContent GNone)" by (simp add: assms(2))
  from serve_Answered [OF this] obtain p rt where d: "snd (dispatch pk cfg i p rt g) = Reply StatusNoContent GNone"
    "g' = fst (dispatch pk cfg i p rt g)" by (auto simp: assms(2))
  from delete_route [OF d(1) assms(1)] obtain n where n: "sandbox_route (rq_Path (in_req i)) = SandboxItem n"
    and h: "dispatch pk cfg i p rt g = handle_sandbox_item (in_env i) (in_req i) (in_sandbox i) n g" by blast
  note ne = sandbox_route_item [OF n]
  have g': "g' = g\<lparr>gw_store := fst (DeleteSandbox (en_flush (in_env i) 0) n (gw_store g)), gw_hub := Disconnect n (gw_hub g),
      gw_logs := hub_Remove n (gw_logs g)\<rparr>"
    and saved: "snd (DeleteSandbox (en_flush (in_env i) 0) n (gw_store g)) = None"
    using d unfolding h handle_sandbox_item_def
    by (auto simp: assms(1) split: prod.splits option.splits)
  have "GetSandbox (gw_store g') = (GetSandbox (gw_store g))(n := None)"
    "mget (st_SandboxTokens (state (gw_store g'))) = (mget (st_SandboxTokens (state (gw_store g))))(n := None)"
    "fmlookup (rh_sessions (gw_hub g')) = (fmlookup (rh_sessions (gw_hub g)))(n := None)"
    "hub_buf (gw_logs g') = (hub_buf (gw_logs g))(n := new_buffer (h_max (gw_logs g)))"
    by (auto simp: g' delete_get Disconnect_lookup hub_buf_Remove ne fun_eq_iff)
  moreover have "\<forall>j x. mget (st_SSHSessions (state (gw_store g'))) j = Some x \<longleftrightarrow>
       mget (st_SSHSessions (state (gw_store g))) j = Some x \<and> ssh_Sandbox x \<noteq> n"
    by (auto simp: g' delete_get split: option.split)
  moreover have "\<exists>sbs toks sess now. state (gw_store g') = (state (gw_store g))\<lparr>st_Sandboxes := sbs,
       st_SandboxTokens := toks, st_SSHSessions := sess, st_UpdatedAt := now\<rparr>"
    by (auto simp: g' DeleteSandbox_def flush)
  moreover have "fs_files (disk (gw_store g')) State_json =
      Some \<lparr>f_content = JsonDoc (MarshalState (state (gw_store g'))), f_mode = owner_rw\<rparr>"
    using saved by (simp add: g' DeleteSandbox_def save_err save_file_ok flush)
  moreover have "gw_sec g' = gw_sec g" by (simp add: g')
  ultimately show ?thesis using n ne by blast
qed

lemma ex_delete:
  "\<exists>g'. serve ex_packages ex_open_config (ex_incoming [] [] (ex_anonymous MethodDelete ''/v1/sandboxes/demo'')) (ex_gateway (ex_issue CHR ''a'' ex_store)) =
     (g', Answered (Reply StatusNoContent GNone))"
proof -
  have route: "mux_handler (routes ex_relayproto) MethodDelete ''/v1/sandboxes/demo'' = MuxFound RtSandbox"
    and item: "sandbox_route ''/v1/sandboxes/demo'' = SandboxItem ''demo''" by code_simp+
  have "\<not> isPublicRoute ex_relayproto ''/v1/sandboxes/demo''" by (simp add: isPublicRoute_def ex_relayproto_def)
  note pass = ex_anonymous_passes [OF this, of "\<lambda>x. x" "[]" MethodDelete "ex_issue CHR ''a'' ex_store"]
  have "snd (DeleteSandbox ex_flush ''demo'' (ex_issue CHR ''a'' ex_store)) = None"
    by (simp add: DeleteSandbox_def Let_def save_err)
  then show ?thesis
    by (cases "DeleteSandbox ex_flush ''demo'' (ex_issue CHR ''a'' ex_store)")
      (simp add: serve_def serve_auth_def ex_next pass route dispatch_def handle_sandbox_def item handle_sandbox_item_def)
qed

theorem delete_request_complete_witness:
  "\<exists>g'. serve ex_packages ex_open_config (ex_incoming [] [] (ex_anonymous MethodDelete ''/v1/sandboxes/demo'')) (ex_gateway (ex_issue CHR ''a'' ex_store)) =
     (g', Answered (Reply StatusNoContent GNone)) \<and> GetSandbox (gw_store g') ''demo'' = None \<and>
     GetSandbox (gw_store g') ''other'' = Some (ex_sandbox ''other'') \<and>
     st_Proposals (state (gw_store g')) = mempty"
proof -
  obtain g' where s: "serve ex_packages ex_open_config (ex_incoming [] [] (ex_anonymous MethodDelete ''/v1/sandboxes/demo''))
      (ex_gateway (ex_issue CHR ''a'' ex_store)) = (g', Answered (Reply StatusNoContent GNone))" using ex_delete by blast
  have "sandbox_route ''/v1/sandboxes/demo'' = SandboxItem ''demo''" by code_simp
  moreover have "GetSandbox (ex_issue CHR ''a'' ex_store) ''other'' = Some (ex_sandbox ''other'')"
    by (simp add: GetSandbox_def ex_issue_store)
  moreover have "st_Proposals (state (ex_issue CHR ''a'' ex_store)) = mempty"
    unfolding ex_issue_store by (simp add: ex_store_def initial_state_def)
  ultimately show ?thesis using delete_request_complete [OF _ s] s by auto
qed

end
