(* ===== verification/Spec2Isabelle.thy ===== *)
theory Spec2Isabelle
  imports Gateway_Access
begin

text \<open>
  Verification of the whaleshell gateway, the control plane of a sandbox system, at the level of its
  own Go code under \<open>src/internal\<close>.

  \<^bold>\<open>The program.\<close> One process keeps a registry of sandboxes, policies, providers, tokens and sessions
  in memory and in \<open>state.json\<close>; a supervisor inside every sandbox keeps a control stream to it, over
  which the gateway opens data channels that carry SSH; operators, supervisors and SSH clients talk
  to it over HTTP. A request passes the edge router (\<open>*.localhost\<close> services), the authentication
  middleware, a multiplexer and one handler; the handlers work on four pieces of state: the store,
  the secret store (a package outside the repository), the log hub and the relay hub. A reaper
  removes expired sessions in the background.

  \<^bold>\<open>The theories\<close>, in the order in which they build on each other:
  \<^item> \<open>Go_Prelude\<close>: what the code uses of Go and its standard library (64-bit integers with wrap
    around, times, maps with nil, \<open>strings\<close>, \<open>hex\<close>), with the lemma collections \<open>gomap\<close> and others.
  \<^item> \<open>Interfaces\<close>: the contracts components share, as locales: keyed registries, capped logs and
    transition systems with an invariant. They are interpreted on the store's tables, the log
    buffers, the store, the relay hub and the gateway.
  \<^item> \<open>Store_Types\<close>, \<open>Store\<close>, \<open>Store_Auth\<close>, \<open>Store_Records\<close>, \<open>Store_Proposals\<close>, \<open>Store_Ops\<close>: package
    \<open>internal/storage/store\<close>. Every struct is a record, every method a function of the store that
    returns the new store and the error. The disk is a map of files; each file operation of a flush
    may fail, and every assignment to a map panics when the map is nil. \<open>Store_Ops\<close> puts all methods
    into one datatype of operations and proves what holds in every history, restarts of the gateway on
    its directory included: the state invariant, no write to a nil map; and revocation for good.
  \<^item> \<open>Logbuf\<close>: \<open>internal/logbuf\<close> and the loop that follows a buffer in \<open>providers.go\<close>, whose turns are
    interleaved with the operations of other requests.
  \<^item> \<open>Relay_Hub\<close>: \<open>internal/sshrelay\<close>. The methods that block are split at their blocking points; an
    inductive step relation interleaves the pieces of any number of callers.
  \<^item> \<open>Http\<close>: requests and answers, \<open>net.SplitHostPort\<close>, \<open>net.ParseIP\<close>, \<open>path.Clean\<close>, \<open>ServeMux\<close>.
  \<^item> \<open>Auth\<close>, \<open>Edge\<close>, \<open>Exec\<close>, \<open>Policy\<close>, \<open>Proposals_Api\<close>, \<open>Parity_Api\<close>, \<open>Oauth\<close>, \<open>Ssh_Api\<close>,
    \<open>Providers_Api\<close>: \<open>auth.go\<close>, \<open>edge.go\<close>, \<open>ssh_api.go\<close> (quoting and exec; handlers), \<open>providers.go\<close>
    (policies and secrets; handlers), \<open>proposals.go\<close>, \<open>parity_api.go\<close> and \<open>oauth_refresh.go\<close> of
    \<open>internal/httpapi\<close>. A handler is a function from the state it works on to the new state and an
    answer, with every branch of the code.
  \<^item> \<open>Startup\<close>: flags, environment and defaults (\<open>gateway.go\<close>, \<open>oidc_auth.go\<close>, \<open>config.go\<close>).
  \<^item> \<open>Gateway\<close>: \<open>NewHandler\<close>. \<open>serve\<close> is one request through router, middleware, multiplexer and
    handler on the whole state.
  \<^item> \<open>Gateway_Effects\<close>: every request is a sequence of store methods, log operations and relay steps,
    the simulation that lets the properties of histories hold for the gateway.
  \<^item> \<open>Gateway_Props\<close>, \<open>Gateway_Access\<close>: properties of the whole gateway.

  \<^bold>\<open>What is outside the repository\<close> is an argument: packages \<open>policy\<close>, \<open>provider\<close>, \<open>yaml\<close> (record
  \<open>policy_lib\<close>, \<open>rule_lib\<close>), \<open>secrets\<close> (\<open>secrets_lib\<close>), \<open>relayproto\<close>, \<open>idp\<close>, the log level handler, \<open>url.Parse\<close>, the SSH
  client, SHA-256, the token endpoint and the host's environment. A theorem that needs something of
  them says so in a hypothesis, and its witness instantiates them. Clock readings, random bytes, the
  order in which Go ranges over a map, the outcome of every file operation and of decoding a request
  body are arguments as well, so the theorems hold for all of them.

  \<^bold>\<open>What is shown.\<close>
  \<^item> Durability: \<open>state.json\<close> is always a complete document, and a restart gives back what was flushed.
  \<^item> Invariants: the store, the relay hub and the gateway keep their states well formed in every run that
    begins on a directory without a state file, through restarts and failures of the disk. (\<open>Open\<close> does
    not validate a state file the gateway did not write; for such a file only the nil maps are covered.)
  \<^item> Credentials: rotation, expiry, revocation and deletion of tokens and sessions, at the store and,
    through any later requests, at the gateway; only valid sessions are bridged to a sandbox.
  \<^item> Confinement: what requests without credentials and requests of supervisors can reach and change,
    which secrets a sandbox gets, where the edge router sends a request.
  \<^item> Relay: a channel's connection comes from the supervisor of the right sandbox and goes to one
    caller; reconnects, keepalive and pending channels behave; one way to lose a connection.
  \<^item> Logs, policies, proposals, workspaces, exec and rotation of credentials: functional behaviour with
    errors, among them the cases in which the code does less than its comments say.

  \<^bold>\<open>Bounds and loops.\<close> Loops over data are structural recursion; the only fuel is the length of the text
  in \<open>TrimSpace\<close>, which each round shortens. The loops that wait for events (\<open>supervisor_loop\<close>,
  \<open>follow_run\<close>, the reaper) are functions of the list of events that arrive. \<open>int\<close> and \<open>time.Duration\<close>
  arithmetic wraps at 64 bits where the code multiplies or counts; times are unbounded nanoseconds.

  \<^bold>\<open>Simplifications.\<close> A request is one step of the gateway: two requests that run at the same time are
  taken in some order, although handlers that call the store several times can interleave there (the
  store theorems hold for any interleaving of calls). The exceptions are the streams: the later turns of a
  followed log, and the steps of the relay hub that opening a channel and serving one consist of, are
  steps of their own between requests; the handler that bridges a client has the outcome of opening the
  channel as an argument. The maps inside a provider record that the
  refresh paths share with the store are copied in the model. Texts of Go errors are one constant, and
  bodies are given by the outcomes of decoding them. Paths have no percent-encoded characters.
  \<open>strings.ToLower\<close> and \<open>EqualFold\<close> are those of ASCII.

  \<^bold>\<open>Not modelled\<close>: sockets, TLS and shutdown (\<open>Serve\<close>, \<open>listenAndServe\<close>), the bytes copied by the
  proxy and by \<open>Bridge\<close>, the logger (\<open>internal/logger\<close>), \<open>main\<close> and \<open>internal/app\<close>, which only pass
  the arguments on, and the packages \<open>domain\<close> and \<open>service\<close>, which nothing uses.
\<close>

end
